(* ===== verification/Prelude.thy ===== *)
theory Prelude imports Complex_Main "HOL-Library.Sublist" "HOL-Library.Code_Target_Nat" begin

text \<open>
  What every component shares: Python's exceptions as values, the result of an operation that may
  raise, and generic facts on association lists and lists of rows.
\<close>

section \<open>Exceptions and results\<close>

text \<open>The exceptions the program raises or lets through; \<^verbatim>\<open>HTTPException\<close> carries its
  status code, \<^verbatim>\<open>ExternalError\<close> stands for whatever a service client raises.\<close>

datatype py_exn =
    ValueError
  | TypeError
  | AttributeError
  | KeyError
  | IndexError
  | ZeroDivisionError
  | AssertionError
  | RuntimeError
  | FileNotFoundError
  | OSError
  | HTTPException nat
  | ExternalError

text \<open>\<^verbatim>\<open>Inl e\<close>: the operation raised \<^verbatim>\<open>e\<close>; \<^verbatim>\<open>Inr v\<close>: it returned \<^verbatim>\<open>v\<close>.\<close>

type_synonym 'a py_result = "py_exn + 'a"

definition py_bind :: "'a py_result \<Rightarrow> ('a \<Rightarrow> 'b py_result) \<Rightarrow> 'b py_result" where
  "py_bind r f = (case r of Inl e \<Rightarrow> Inl e | Inr v \<Rightarrow> f v)"

lemma py_bind_simps [simp]:
  "py_bind (Inl e) f = Inl e"
  "py_bind (Inr v) f = f v"
  by (simp_all add: py_bind_def)

lemma py_bind_eq_Inr: "py_bind r f = Inr w \<longleftrightarrow> (\<exists>v. r = Inr v \<and> f v = Inr w)"
  by (cases r) auto

section \<open>Operations on a state\<close>

text \<open>
  An operation on a state \<^verbatim>\<open>'s\<close> returns or raises, and leaves a state in both cases: what it
  changed before raising stays changed, unless it ran in a transaction.
\<close>

type_synonym ('s, 'a) op = "'s \<Rightarrow> 'a py_result \<times> 's"

definition op_return :: "'a \<Rightarrow> ('s, 'a) op" where
  "op_return v s = (Inr v, s)"

definition op_raise :: "py_exn \<Rightarrow> ('s, 'a) op" where
  "op_raise e s = (Inl e, s)"

definition op_bind :: "('s, 'a) op \<Rightarrow> ('a \<Rightarrow> ('s, 'b) op) \<Rightarrow> ('s, 'b) op" where
  "op_bind m f s = (case m s of (Inl e, s') \<Rightarrow> (Inl e, s') | (Inr v, s') \<Rightarrow> f v s')"

definition op_lift :: "'a py_result \<Rightarrow> ('s, 'a) op" where
  "op_lift r s = (r, s)"

text \<open>A transaction: an exception rolls the state back.\<close>

definition transaction :: "('s, 'a) op \<Rightarrow> ('s, 'a) op" where
  "transaction m s = (case m s of (Inl e, _) \<Rightarrow> (Inl e, s) | (Inr v, s') \<Rightarrow> (Inr v, s'))"

text \<open>
  What the connection to a service does to one call: nothing, fail before the service has acted,
  or fail after it has (a commit whose acknowledgement was lost).
\<close>

datatype fault = NoFault | FailsBefore | FailsAfter

definition with_fault :: "fault \<Rightarrow> ('s, 'a) op \<Rightarrow> ('s, 'a) op" where
  "with_fault f m s =
     (case f of
        NoFault \<Rightarrow> m s
      | FailsBefore \<Rightarrow> (Inl ExternalError, s)
      | FailsAfter \<Rightarrow> (Inl ExternalError, snd (m s)))"

text \<open>
  A property of states that an operation keeps, whether it returns or raises.  The rules let
  \<^verbatim>\<open>intro: op_keeps\<close> prove it of a whole operation from its statements.
\<close>

definition keeps :: "('s \<Rightarrow> bool) \<Rightarrow> ('s, 'a) op \<Rightarrow> bool" where
  "keeps P m \<longleftrightarrow> (\<forall>s. P s \<longrightarrow> P (snd (m s)))"

named_theorems op_keeps

lemma keepsI: "(\<And>s. P s \<Longrightarrow> P (snd (m s))) \<Longrightarrow> keeps P m"
  by (simp add: keeps_def)

lemma keepsD: "keeps P m \<Longrightarrow> P s \<Longrightarrow> P (snd (m s))"
  by (simp add: keeps_def)

lemma keeps_run: "keeps P m \<Longrightarrow> P s \<Longrightarrow> m s = (r, s') \<Longrightarrow> P s'"
  by (metis keepsD snd_conv)

lemma keeps_return [op_keeps]: "keeps P (op_return v)"
  by (simp add: keeps_def op_return_def)

lemma keeps_raise [op_keeps]: "keeps P (op_raise e)"
  by (simp add: keeps_def op_raise_def)

lemma keeps_lift [op_keeps]: "keeps P (op_lift r)"
  by (simp add: keeps_def op_lift_def)

lemma keeps_bind [op_keeps]: "keeps P m \<Longrightarrow> (\<And>v. keeps P (f v)) \<Longrightarrow> keeps P (op_bind m f)"
  unfolding keeps_def op_bind_def by (force split: prod.split sum.split)

lemma keeps_transaction [op_keeps]: "keeps P m \<Longrightarrow> keeps P (transaction m)"
  unfolding keeps_def transaction_def by (force split: prod.split sum.split)

lemma keeps_with_fault [op_keeps]: "keeps P m \<Longrightarrow> keeps P (with_fault f m)"
  by (cases f) (simp_all add: keeps_def with_fault_def)

lemma op_bind_simps [simp]:
  "m s = (Inl e, s') \<Longrightarrow> op_bind m f s = (Inl e, s')"
  "m s = (Inr v, s') \<Longrightarrow> op_bind m f s = f v s'"
  by (simp_all add: op_bind_def)

text \<open>Inversion of a run that returned.\<close>

lemma op_bind_Inr: "op_bind m f s = (Inr w, t) \<longleftrightarrow> (\<exists>v u. m s = (Inr v, u) \<and> f v u = (Inr w, t))"
  by (auto simp: op_bind_def split: prod.splits sum.splits)

lemma op_lift_Inr: "op_lift r s = (Inr w, t) \<longleftrightarrow> r = Inr w \<and> t = s"
  by (auto simp: op_lift_def)

lemma op_return_Inr: "op_return v s = (Inr w, t) \<longleftrightarrow> w = v \<and> t = s"
  by (auto simp: op_return_def)

lemma transaction_Inr: "transaction m s = (Inr w, t) \<longleftrightarrow> m s = (Inr w, t)"
  by (auto simp: transaction_def split: prod.splits sum.splits)

lemma transaction_Inl: "transaction m s = (Inl e, t) \<Longrightarrow> t = s"
  by (auto simp: transaction_def split: prod.splits sum.splits)

lemmas op_Inr = op_bind_Inr op_lift_Inr op_return_Inr transaction_Inr

lemma with_fault_simps [simp]:
  "with_fault NoFault m s = m s"
  "with_fault FailsBefore m s = (Inl ExternalError, s)"
  "with_fault FailsAfter m s = (Inl ExternalError, snd (m s))"
  by (simp_all add: with_fault_def)

section \<open>Code cut at its awaits\<close>

text \<open>
  A coroutine is a step function on its program counter and the shared state.  Where a rank falls
  at every step and only the final phases have rank 0, it ends within its rank.
\<close>

fun run_phases :: "('p \<Rightarrow> 's \<Rightarrow> 'p \<times> 's) \<Rightarrow> nat \<Rightarrow> 'p \<times> 's \<Rightarrow> 'p \<times> 's" where
  "run_phases f 0 c = c"
| "run_phases f (Suc n) c = run_phases f n (f (fst c) (snd c))"

lemma run_phases_add: "run_phases f (m + n) c = run_phases f n (run_phases f m c)"
  by (induction m arbitrary: c) simp_all

locale coroutine =
  fixes advance :: "'p \<Rightarrow> 's \<Rightarrow> 'p \<times> 's" and rank :: "'p \<Rightarrow> nat" and final :: "'p \<Rightarrow> bool"
  assumes rank_falls: "rank (fst (advance p s)) \<le> rank p - 1"
    and rank_0: "rank p = 0 \<Longrightarrow> final p"
    and final_stays: "final p \<Longrightarrow> advance p s = (p, s)"
begin

lemma run_finishes: "rank (fst c) \<le> n \<Longrightarrow> final (fst (run_phases advance n c))"
proof (induction n arbitrary: c)
  case 0
  then show ?case by (simp add: rank_0)
next
  case (Suc n)
  have "rank (fst (advance (fst c) (snd c))) \<le> n"
    using rank_falls [of "fst c" "snd c"] Suc.prems by simp
  then show ?case using Suc.IH by simp
qed

lemma run_final: "final (fst c) \<Longrightarrow> run_phases advance n c = c"
  by (induction n) (simp_all add: final_stays)

lemma run_enough:
  assumes "rank (fst c) \<le> n" "n \<le> m" shows "run_phases advance m c = run_phases advance n c"
  using run_phases_add [of advance n "m - n" c] run_final [OF run_finishes [OF assms(1)]] assms(2) by simp

text \<open>A step taken early changes nothing of where a run ends.\<close>

lemma run_step:
  assumes "rank (fst c) \<le> n"
  shows "run_phases advance n c = run_phases advance n (advance (fst c) (snd c))"
  using run_enough [OF assms, of "Suc n"] by simp

lemma run_invariant:
  assumes "\<And>p s. P p s \<Longrightarrow> P (fst (advance p s)) (snd (advance p s))" "P (fst c) (snd c)"
  shows "P (fst (run_phases advance n c)) (snd (run_phases advance n c))"
  using assms(2) by (induction n arbitrary: c) (simp_all add: assms(1))

end

end
