(* ===== verification/PyStr.thy ===== *)
theory PyStr imports Prelude "HOL-Library.Word" begin

text \<open>
  The parts of Python's \<^verbatim>\<open>str\<close>, \<^verbatim>\<open>int\<close> and \<^verbatim>\<open>uuid\<close> that the program uses.  A Python string
  is a \<^verbatim>\<open>string\<close> whose characters are its code points; the model covers the code points
  \<^verbatim>\<open>U+0000\<close> to \<^verbatim>\<open>U+00FF\<close>.  Bytes are lists of 8-bit words.
\<close>

type_synonym byte = "8 word"
type_synonym bytes = "byte list"

section \<open>Encoding\<close>

definition code_point :: "char \<Rightarrow> nat" where
  "code_point c = of_char c"

text \<open>\<^verbatim>\<open>s.encode("utf-8")\<close>: one byte below \<^verbatim>\<open>U+0080\<close>, two bytes up to \<^verbatim>\<open>U+00FF\<close>.\<close>

definition utf8_char :: "char \<Rightarrow> bytes" where
  "utf8_char c =
     (let n = code_point c
      in if n < 128 then [of_nat n] else [of_nat (192 + n div 64), of_nat (128 + n mod 64)])"

definition utf8 :: "string \<Rightarrow> bytes" where
  "utf8 s = concat (map utf8_char s)"

lemma code_point_less: "code_point c < 256"
  by (simp add: code_point_def)

lemma code_point_inj: "code_point c = code_point d \<longleftrightarrow> c = d"
  by (simp add: code_point_def)

lemma byte_of_nat_eq: "m < 256 \<Longrightarrow> n < 256 \<Longrightarrow> (of_nat m :: byte) = of_nat n \<longleftrightarrow> m = n"
  by (simp add: word_of_nat_eq_iff take_bit_nat_eq_self)

lemma utf8_char_nonempty: "utf8_char c \<noteq> []"
  by (simp add: utf8_char_def Let_def)

lemma utf8_char_prefix_free:
  assumes "utf8_char c @ xs = utf8_char d @ ys"
  shows "c = d \<and> xs = ys"
proof -
  let ?m = "code_point c" and ?n = "code_point d"
  have mn: "?m < 256" "?n < 256" by (rule code_point_less)+
  have ge: "192 + k div 64 \<ge> 128" "192 + k div 64 < 256" "128 + k mod 64 < 256" if "k < 256" for k :: nat
    using that by auto
  have "?m = ?n \<and> xs = ys"
  proof (cases "?m < 128"; cases "?n < 128")
    assume "\<not> ?m < 128" "\<not> ?n < 128"
    with assms have "?m div 64 = ?n div 64" "?m mod 64 = ?n mod 64" "xs = ys"
      using byte_of_nat_eq [OF ge(2) ge(2), of ?m ?n] byte_of_nat_eq [OF ge(3) ge(3), of ?m ?n] mn
      by (auto simp: utf8_char_def Let_def)
    then show ?thesis by (metis div_mult_mod_eq)
  qed (use assms mn ge byte_of_nat_eq in \<open>auto simp: utf8_char_def Let_def simp del: of_nat_add\<close>)
  then show ?thesis by (simp add: code_point_inj)
qed

lemma utf8_inj: "utf8 s = utf8 t \<longleftrightarrow> s = t"
proof
  show "utf8 s = utf8 t \<Longrightarrow> s = t"
  proof (induction s arbitrary: t)
    case Nil
    then show ?case by (cases t) (auto simp: utf8_def utf8_char_nonempty)
  next
    case (Cons c s)
    then obtain d t' where t: "t = d # t'" by (cases t) (auto simp: utf8_def utf8_char_nonempty)
    with Cons.prems have "utf8_char c @ utf8 s = utf8_char d @ utf8 t'" by (simp add: utf8_def)
    from utf8_char_prefix_free [OF this] Cons.IH [of t'] t show ?case by simp
  qed
qed simp

section \<open>Integers as text\<close>

definition digit_char :: "nat \<Rightarrow> char" where
  "digit_char d = (if d < 10 then char_of (48 + d) else char_of (87 + d))"

fun nat_str :: "nat \<Rightarrow> string" where
  "nat_str n = (if n < 10 then [digit_char n] else nat_str (n div 10) @ [digit_char (n mod 10)])"

declare nat_str.simps [simp del]

definition int_str :: "int \<Rightarrow> string" where
  "int_str i = (if i < 0 then CHR ''-'' # nat_str (nat (- i)) else nat_str (nat i))"

text \<open>\<^verbatim>\<open>f"{n:03d}"\<close> and its like: zeros on the left up to the width.\<close>

definition zero_pad :: "nat \<Rightarrow> string \<Rightarrow> string" where
  "zero_pad w s = replicate (w - length s) (CHR ''0'') @ s"

fun fixed_hex :: "nat \<Rightarrow> nat \<Rightarrow> string" where
  "fixed_hex 0 n = []"
| "fixed_hex (Suc k) n = fixed_hex k (n div 16) @ [digit_char (n mod 16)]"

lemma length_fixed_hex [simp]: "length (fixed_hex k n) = k"
  by (induction k arbitrary: n) auto

text \<open>The characters \<^verbatim>\<open>str.strip\<close>, \<^verbatim>\<open>str.split\<close> and \<^verbatim>\<open>int\<close> treat as white space.\<close>

definition is_space :: "char \<Rightarrow> bool" where
  "is_space c = (let n = code_point c in (9 \<le> n \<and> n \<le> 13) \<or> (28 \<le> n \<and> n \<le> 32) \<or> n = 133 \<or> n = 160)"

definition strip_with :: "(char \<Rightarrow> bool) \<Rightarrow> string \<Rightarrow> string" where
  "strip_with p s = rev (dropWhile p (rev (dropWhile p s)))"

definition py_strip :: "string \<Rightarrow> string" where
  "py_strip s = strip_with is_space s"

lemma strip_with_none:
  assumes "\<forall>c \<in> set s. \<not> p c" shows "strip_with p s = s"
proof -
  have d: "dropWhile p t = t" if "\<forall>c \<in> set t. \<not> p c" for t
    using that by (cases t) auto
  show ?thesis using d [of s] d [of "rev s"] assms by (simp add: strip_with_def)
qed

definition digit_val :: "nat \<Rightarrow> char \<Rightarrow> nat option" where
  "digit_val base c =
     (let n = code_point c;
          v = (if 48 \<le> n \<and> n \<le> 57 then n - 48
               else if 97 \<le> n \<and> n \<le> 122 then n - 87
               else if 65 \<le> n \<and> n \<le> 90 then n - 55 else base)
      in if v < base then Some v else None)"

text \<open>Digits with single underscores between them, after the first digit was read.\<close>

fun digits_val :: "nat \<Rightarrow> nat \<Rightarrow> string \<Rightarrow> nat option" where
  "digits_val base acc [] = Some acc"
| "digits_val base acc (c # cs) =
     (if c = CHR ''_''
      then (case cs of
              [] \<Rightarrow> None
            | d # ds \<Rightarrow> (case digit_val base d of
                          None \<Rightarrow> None
                        | Some v \<Rightarrow> digits_val base (acc * base + v) ds))
      else (case digit_val base c of
              None \<Rightarrow> None
            | Some v \<Rightarrow> digits_val base (acc * base + v) cs))"

definition parse_digits :: "nat \<Rightarrow> string \<Rightarrow> nat option" where
  "parse_digits base s =
     (case s of
        [] \<Rightarrow> None
      | d # ds \<Rightarrow> (case digit_val base d of None \<Rightarrow> None | Some v \<Rightarrow> digits_val base v ds))"

text \<open>Base 16 takes an optional \<^verbatim>\<open>0x\<close> prefix, with an underscore allowed after it.\<close>

definition drop_hex_prefix :: "nat \<Rightarrow> string \<Rightarrow> string" where
  "drop_hex_prefix base s =
     (if base = 16 \<and> (prefix ''0x'' s \<or> prefix ''0X'' s)
      then (let r = drop 2 s in if prefix ''_'' r then drop 1 r else r)
      else s)"

text \<open>\<^verbatim>\<open>int(s, base)\<close>; a decimal numeral of more than 4300 digits is refused.\<close>

definition py_int_of_str :: "nat \<Rightarrow> string \<Rightarrow> int py_result" where
  "py_int_of_str base s =
     (let t = py_strip s;
          neg = prefix ''-'' t;
          u = (if neg \<or> prefix ''+'' t then drop 1 t else t)
      in if base = 10 \<and> 4300 < length (filter (\<lambda>c. c \<noteq> CHR ''_'') u) then Inl ValueError
         else (case parse_digits base (drop_hex_prefix base u) of
                 None \<Rightarrow> Inl ValueError
               | Some n \<Rightarrow> Inr (if neg then - int n else int n)))"

lemma code_point_digit_char: "d < 16 \<Longrightarrow> code_point (digit_char d) = (if d < 10 then 48 + d else 87 + d)"
  by (simp add: digit_char_def code_point_def)

lemma digit_val_digit_char: "d < base \<Longrightarrow> base \<le> 16 \<Longrightarrow> digit_val base (digit_char d) = Some d"
  by (simp add: digit_val_def code_point_digit_char Let_def)

lemma digit_char_not:
  assumes "d < 16"
  shows "digit_char d \<noteq> CHR ''_''" "digit_char d \<noteq> CHR ''-''" "digit_char d \<noteq> CHR ''+''"
    "digit_char d \<noteq> CHR ''x''" "digit_char d \<noteq> CHR ''X''" "digit_char d \<noteq> CHR ''u''"
    "digit_char d \<noteq> CHR ''{''" "digit_char d \<noteq> CHR ''}''" "\<not> is_space (digit_char d)"
proof -
  have cp: "code_point (digit_char d) = (if d < 10 then 48 + d else 87 + d)"
    using assms by (rule code_point_digit_char)
  have ne: "digit_char d \<noteq> c" if "code_point c \<notin> {48..57} \<union> {97..102}" for c
    using that cp assms by (auto split: if_splits)
  show "digit_char d \<noteq> CHR ''_''" "digit_char d \<noteq> CHR ''-''" "digit_char d \<noteq> CHR ''+''"
    "digit_char d \<noteq> CHR ''x''" "digit_char d \<noteq> CHR ''X''" "digit_char d \<noteq> CHR ''u''"
    "digit_char d \<noteq> CHR ''{''" "digit_char d \<noteq> CHR ''}''"
    by (rule ne; simp add: code_point_def)+
  show "\<not> is_space (digit_char d)" using cp assms by (simp add: is_space_def Let_def)
qed

text \<open>A string of digits reads back as its value.\<close>

definition is_digits :: "nat \<Rightarrow> string \<Rightarrow> bool" where
  "is_digits base s \<longleftrightarrow> (\<forall>c \<in> set s. \<exists>d < base. c = digit_char d)"

lemma digits_val_append:
  assumes "base \<le> 16" "is_digits base s" "digits_val base acc s = Some v" "d < base"
  shows "digits_val base acc (s @ [digit_char d]) = Some (v * base + d)"
  using assms(2,3)
proof (induction s arbitrary: acc)
  case Nil
  then show ?case using assms by (simp add: digit_val_digit_char digit_char_not)
next
  case (Cons c s)
  then obtain e where e: "e < base" "c = digit_char e" by (auto simp: is_digits_def)
  then show ?case using Cons assms by (simp add: digit_val_digit_char digit_char_not is_digits_def)
qed

lemma is_digits_nat_str: "is_digits 10 (nat_str n)"
proof (induction n rule: nat_str.induct)
  case (1 n)
  then show ?case by (subst nat_str.simps) (auto simp: is_digits_def intro: exI [of _ n] exI [of _ "n mod 10"])
qed

lemma is_digits_fixed_hex: "is_digits 16 (fixed_hex k n)"
  by (induction k arbitrary: n) (auto simp: is_digits_def intro!: exI [of _ "n mod 16" for n])

lemma digits_val_nat_str: "digits_val 10 0 (nat_str n) = Some n"
proof (induction n rule: nat_str.induct)
  case (1 n)
  show ?case
  proof (cases "n < 10")
    case True
    then show ?thesis by (subst nat_str.simps) (simp add: digit_val_digit_char digit_char_not)
  next
    case False
    then show ?thesis using 1 digits_val_append [of 10 "nat_str (n div 10)" 0 "n div 10" "n mod 10"]
      by (subst nat_str.simps) (simp add: is_digits_nat_str)
  qed
qed

lemma digits_val_fixed_hex: "digits_val 16 0 (fixed_hex k n) = Some (n mod 16 ^ k)"
proof (induction k arbitrary: n)
  case (Suc k)
  have "digits_val 16 0 (fixed_hex k (n div 16) @ [digit_char (n mod 16)])
        = Some ((n div 16) mod 16 ^ k * 16 + n mod 16)"
    by (rule digits_val_append) (simp_all add: Suc is_digits_fixed_hex)
  also have "(n div 16) mod 16 ^ k * 16 + n mod 16 = n mod 16 ^ Suc k"
    by (simp add: mod_mult2_eq mult.commute)
  finally show ?case by simp
qed simp

lemma parse_digits_eq: "is_digits base s \<Longrightarrow> base \<le> 16 \<Longrightarrow> s \<noteq> [] \<Longrightarrow> parse_digits base s = digits_val base 0 s"
  by (cases s) (auto simp: parse_digits_def is_digits_def digit_val_digit_char digit_char_not)

lemma is_digits_plain:
  assumes "is_digits base s" "base \<le> 16"
  shows "py_strip s = s" "\<not> prefix ''-'' s" "\<not> prefix ''+'' s" "drop_hex_prefix base s = s"
proof -
  have c: "\<not> is_space c \<and> c \<noteq> CHR ''-'' \<and> c \<noteq> CHR ''+'' \<and> c \<noteq> CHR ''x'' \<and> c \<noteq> CHR ''X''" if cs: "c \<in> set s" for c
  proof -
    obtain d where "d < 16" "c = digit_char d" using cs assms by (metis is_digits_def order_less_le_trans)
    then show ?thesis using digit_char_not [of d] by simp
  qed
  then show "py_strip s = s" by (simp add: py_strip_def strip_with_none)
  have sub: "prefix p s \<Longrightarrow> set p \<subseteq> set s" for p by (auto simp: prefix_def)
  show "\<not> prefix ''-'' s" "\<not> prefix ''+'' s" using c sub [of "''-''"] sub [of "''+''"] by auto
  have "\<not> prefix ''0x'' s" "\<not> prefix ''0X'' s" using c sub [of "''0x''"] sub [of "''0X''"] by auto
  then show "drop_hex_prefix base s = s" by (simp add: drop_hex_prefix_def)
qed

lemma nat_str_nonempty [simp]: "nat_str n \<noteq> []"
  by (subst nat_str.simps) simp

lemma length_nat_str: "n < 10 ^ k \<Longrightarrow> 0 < k \<Longrightarrow> length (nat_str n) \<le> k"
proof (induction n arbitrary: k rule: nat_str.induct)
  case (1 n)
  show ?case
  proof (cases "n < 10")
    case False
    then obtain j where j: "k = Suc j" "0 < j" using 1 by (cases k; cases "k = 1") auto
    then have "n div 10 < 10 ^ j" using 1(2) by (simp add: less_mult_imp_div_less mult.commute)
    then show ?thesis using 1 False j by (subst nat_str.simps) simp
  qed (use 1 in \<open>subst nat_str.simps, simp\<close>)
qed

lemma py_int_of_nat_str: "n < 10 ^ 4300 \<Longrightarrow> py_int_of_str 10 (nat_str n) = Inr (int n)"
proof -
  assume n: "n < 10 ^ 4300"
  note d = is_digits_nat_str [of n]
  have "length (nat_str n) \<le> 4300" using n by (rule length_nat_str) simp
  then have "length (filter (\<lambda>c. c \<noteq> CHR ''_'') (nat_str n)) \<le> 4300"
    by (rule order_trans [OF length_filter_le])
  then show ?thesis
    using is_digits_plain [OF d] parse_digits_eq [OF d]
    by (simp add: py_int_of_str_def Let_def digits_val_nat_str)
qed

section \<open>Replacing and splitting\<close>

text \<open>\<^verbatim>\<open>s.replace(old, new)\<close> for a non-empty \<^verbatim>\<open>old\<close>.\<close>

function py_replace :: "string \<Rightarrow> string \<Rightarrow> string \<Rightarrow> string" where
  "py_replace old new [] = []"
| "py_replace old new (c # cs) =
     (if old \<noteq> [] \<and> prefix old (c # cs)
      then new @ py_replace old new (drop (length old) (c # cs))
      else c # py_replace old new cs)"
  by pat_completeness auto
termination
  by (relation "measure (\<lambda>(old, new, s). length s)") auto

lemma py_replace_absent: "old \<noteq> [] \<Longrightarrow> hd old \<notin> set s \<Longrightarrow> py_replace old new s = s"
proof (induction s)
  case (Cons c s)
  then have "\<not> prefix old (c # s)" by (cases old) auto
  then show ?case using Cons by simp
qed simp

text \<open>\<^verbatim>\<open>s.split(sep)\<close> for a one-character separator.\<close>

fun split_on :: "char \<Rightarrow> string \<Rightarrow> string list" where
  "split_on sep [] = [[]]"
| "split_on sep (c # cs) =
     (if c = sep then [] # split_on sep cs
      else (case split_on sep cs of [] \<Rightarrow> [[c]] | w # ws \<Rightarrow> (c # w) # ws))"

text \<open>\<^verbatim>\<open>s.split()\<close>: the maximal runs of characters that are not white space.\<close>

function split_words :: "string \<Rightarrow> string list" where
  "split_words s =
     (let t = dropWhile is_space s
      in if t = [] then [] else takeWhile (\<lambda>c. \<not> is_space c) t # split_words (dropWhile (\<lambda>c. \<not> is_space c) t))"
  by pat_completeness auto
termination
proof (relation "measure length", goal_cases)
  case (2 s t)
  then have h: "\<not> is_space (hd t)" using hd_dropWhile [of is_space s] by simp
  from 2 have "t \<noteq> []" by blast
  then obtain c r where t: "t = c # r" by (cases t) simp_all
  have "length (dropWhile (\<lambda>c. \<not> is_space c) t) < length t"
    using h unfolding t by (simp add: length_dropWhile_le le_imp_less_Suc)
  also have "length t \<le> length s" using 2 by (simp add: length_dropWhile_le)
  finally show ?case by simp
qed simp

declare split_words.simps [simp del]

text \<open>\<^verbatim>\<open>s.upper()\<close>.  The two characters whose capital is outside the modelled range stay.\<close>

definition upper_char :: "char \<Rightarrow> string" where
  "upper_char c =
     (let n = code_point c
      in if 97 \<le> n \<and> n \<le> 122 \<or> 224 \<le> n \<and> n \<le> 254 \<and> n \<noteq> 247 then [char_of (n - 32)]
         else if n = 223 then ''SS'' else [c])"

definition py_upper :: "string \<Rightarrow> string" where
  "py_upper s = concat (map upper_char s)"

section \<open>UUIDs\<close>

type_synonym uuid = "128 word"

definition uuid_hex :: "uuid \<Rightarrow> string" where
  "uuid_hex u = fixed_hex 32 (unat u)"

text \<open>\<^verbatim>\<open>str(u)\<close>: the 32 hex digits in groups of 8, 4, 4, 4 and 12.\<close>

definition uuid_str :: "uuid \<Rightarrow> string" where
  "uuid_str u =
     (let h = uuid_hex u
      in take 8 h @ ''-'' @ take 4 (drop 8 h) @ ''-'' @ take 4 (drop 12 h) @ ''-'' @
         take 4 (drop 16 h) @ ''-'' @ drop 20 h)"

text \<open>\<^verbatim>\<open>uuid.UUID(s)\<close>, with the spellings the constructor accepts.\<close>

definition parse_uuid :: "string \<Rightarrow> uuid py_result" where
  "parse_uuid s =
     (let h = filter (\<lambda>c. c \<noteq> CHR ''-'')
                (strip_with (\<lambda>c. c = CHR ''{'' \<or> c = CHR ''}'')
                  (py_replace ''uuid:'' [] (py_replace ''urn:'' [] s)))
      in if length h \<noteq> 32 then Inl ValueError
         else py_bind (py_int_of_str 16 h)
                (\<lambda>i. if 0 \<le> i \<and> i < 2 ^ 128 then Inr (word_of_int i) else Inl ValueError))"

definition hex_or_dash :: "string \<Rightarrow> bool" where
  "hex_or_dash s \<longleftrightarrow> (\<forall>c \<in> set s. c = CHR ''-'' \<or> (\<exists>d < 16. c = digit_char d))"

lemma parse_uuid_cleanup:
  assumes "\<forall>c \<in> set s. c \<noteq> CHR ''u'' \<and> c \<noteq> CHR ''{'' \<and> c \<noteq> CHR ''}''"
  shows "strip_with (\<lambda>c. c = CHR ''{'' \<or> c = CHR ''}'')
           (py_replace ''uuid:'' [] (py_replace ''urn:'' [] s)) = s"
proof -
  have "py_replace ''urn:'' [] s = s" "py_replace ''uuid:'' [] s = s"
    using assms by (intro py_replace_absent; auto)+
  then show ?thesis using assms by (simp add: strip_with_none)
qed

lemma hex_chars:
  "hex_or_dash s \<Longrightarrow> \<forall>c \<in> set s. c \<noteq> CHR ''u'' \<and> c \<noteq> CHR ''{'' \<and> c \<noteq> CHR ''}''"
  using digit_char_not by (fastforce simp: hex_or_dash_def)

lemma hex_or_dash_uuid_str: "hex_or_dash (uuid_str u)"
proof -
  have "hex_or_dash (uuid_hex u)"
    using is_digits_fixed_hex [of 32 "unat u"] by (auto simp: hex_or_dash_def is_digits_def uuid_hex_def)
  then show ?thesis
    by (auto simp: uuid_str_def hex_or_dash_def Let_def dest: in_set_takeD in_set_dropD)
qed

lemma filter_dash_uuid_str: "filter (\<lambda>c. c \<noteq> CHR ''-'') (uuid_str u) = uuid_hex u"
proof -
  define h where "h = uuid_hex u"
  have nd: "c \<noteq> CHR ''-''" if "c \<in> set h" for c
    using that is_digits_fixed_hex [of 32 "unat u"] digit_char_not
    by (fastforce simp: h_def uuid_hex_def is_digits_def)
  have f: "filter (\<lambda>c. c \<noteq> CHR ''-'') x = x" if "set x \<subseteq> set h" for x
    using that nd by (auto simp: filter_id_conv)
  have s: "set (take i h) \<subseteq> set h" "set (drop i h) \<subseteq> set h" "set (take i (drop j h)) \<subseteq> set h" for i j
    by (auto dest: in_set_takeD in_set_dropD)
  have j: "take n (drop m h) @ drop (m + n) h = drop m h" for m n
    by (metis append_take_drop_id drop_drop add.commute)
  have "take 8 h @ take 4 (drop 8 h) @ take 4 (drop 12 h) @ take 4 (drop 16 h) @ drop 20 h = h"
    using j [where m = 16 and n = 4] j [where m = 12 and n = 4] j [where m = 8 and n = 4] by simp
  then show ?thesis by (simp add: uuid_str_def Let_def f s flip: h_def)
qed

lemma py_int_of_uuid_hex: "py_int_of_str 16 (uuid_hex u) = Inr (uint u)"
proof -
  have d: "is_digits 16 (uuid_hex u)" by (simp add: uuid_hex_def is_digits_fixed_hex)
  have "length (uuid_hex u) = 32" by (simp add: uuid_hex_def)
  then have ne: "uuid_hex u \<noteq> []" by auto
  have "unat u < 16 ^ 32" using unsigned_less [of u, where 'a=nat] by simp
  then have "digits_val 16 0 (uuid_hex u) = Some (unat u)"
    by (simp only: uuid_hex_def digits_val_fixed_hex mod_less)
  then have "parse_digits 16 (uuid_hex u) = Some (unat u)"
    using parse_digits_eq [OF d _ ne] by simp
  then show ?thesis using is_digits_plain [OF d] by (simp add: py_int_of_str_def)
qed

lemma parse_uuid_str: "parse_uuid (uuid_str u) = Inr u"
proof -
  have l: "length (uuid_hex u) = 32" by (simp add: uuid_hex_def)
  have b: "0 \<le> uint u \<and> uint u < 2 ^ 128" using unsigned_less [of u, where 'a=int] by simp
  have "parse_uuid (uuid_str u) =
        py_bind (Inr (uint u)) (\<lambda>i. if 0 \<le> i \<and> i < 2 ^ 128 then Inr (word_of_int i) else Inl ValueError)"
    by (simp only: parse_uuid_def parse_uuid_cleanup [OF hex_chars [OF hex_or_dash_uuid_str]]
        filter_dash_uuid_str l Let_def py_int_of_uuid_hex simp_thms if_False)
  also have "\<dots> = Inr u" using b by (simp only: py_bind_simps simp_thms if_True word_of_int_uint)
  finally show ?thesis .
qed

lemma parse_uuid_job: "length h = 12 \<Longrightarrow> is_digits 16 h \<Longrightarrow> parse_uuid (''job-'' @ h) = Inl ValueError"
proof -
  assume h: "length h = 12" "is_digits 16 h"
  have "\<forall>c \<in> set (''job-'' @ h). c \<noteq> CHR ''u'' \<and> c \<noteq> CHR ''{'' \<and> c \<noteq> CHR ''}''"
    using h digit_char_not by (fastforce simp: is_digits_def)
  from parse_uuid_cleanup [OF this]
  have "strip_with (\<lambda>c. c = CHR ''{'' \<or> c = CHR ''}'')
           (py_replace ''uuid:'' [] (py_replace ''urn:'' [] (''job-'' @ h))) = ''job-'' @ h" .
  moreover have "length (filter (\<lambda>c. c \<noteq> CHR ''-'') (''job-'' @ h)) < 32"
    using h length_filter_le [of "\<lambda>c. c \<noteq> CHR ''-''" h] by simp
  ultimately show ?thesis by (simp only: parse_uuid_def Let_def) simp
qed

end
