(* ===== verification/PyFloat.thy ===== *)
theory PyFloat imports Prelude "HOL-Library.Log_Nat" begin

text \<open>
  Python's \<^verbatim>\<open>float\<close>: IEEE binary64 values with round-half-even after every operation.
  \<^verbatim>\<open>fl\<close> rounds an exact rational to the nearest binary64 value (53 significant bits, the
  subnormal grid at \<^verbatim>\<open>2 ^ -1074\<close>); the type \<^verbatim>\<open>pyfloat\<close> holds exactly the values that
  \<^verbatim>\<open>fl\<close> leaves alone, and its operations compute on the exact values and round once, as the
  hardware does.  NaN, the infinities and the overflow threshold are not modelled: the code's
  floats are clock readings, latencies, token counts and percentages, far below it.  The sign of
  zero is not modelled either: no comparison of the code sees it.

  The locale \<^verbatim>\<open>rounded_arith\<close> states the laws that the limiters and the analyzer use of rounded
  arithmetic (neutral elements, commutativity, monotonicity; no associativity); \<^verbatim>\<open>pyfloat\<close>
  interprets it.
\<close>

section \<open>Rounding a rational to binary64\<close>

definition round_half_even :: "rat \<Rightarrow> int" where
  "round_half_even x =
     (let f = \<lfloor>x\<rfloor>; r = x - of_int f
      in if r < 1/2 then f else if 1/2 < r then f + 1 else if even f then f else f + 1)"

lemma round_half_even_cases:
  obtains "round_half_even x = \<lfloor>x\<rfloor>" "x - of_int \<lfloor>x\<rfloor> \<le> 1/2"
  | "round_half_even x = \<lfloor>x\<rfloor> + 1" "1/2 \<le> x - of_int \<lfloor>x\<rfloor>"
  unfolding round_half_even_def Let_def by (smt (verit) linorder_not_less order_less_imp_le order_refl)

lemma round_half_even_of_int [simp]: "round_half_even (of_int n) = n"
  by (simp add: round_half_even_def)

lemma round_half_even_bounds: "\<lfloor>x\<rfloor> \<le> round_half_even x" "round_half_even x \<le> \<lfloor>x\<rfloor> + 1"
  by (cases x rule: round_half_even_cases; simp)+

lemma round_half_even_mono:
  assumes "x \<le> y" shows "round_half_even x \<le> round_half_even y"
proof (cases "\<lfloor>x\<rfloor> = \<lfloor>y\<rfloor>")
  case True
  then show ?thesis using assms by (auto simp: round_half_even_def Let_def)
next
  case False
  with floor_mono [OF assms] have "\<lfloor>x\<rfloor> + 1 \<le> \<lfloor>y\<rfloor>" by simp
  with round_half_even_bounds [of x] round_half_even_bounds [of y] show ?thesis by simp
qed

lemma round_half_even_dist: "\<bar>of_int (round_half_even x) - x\<bar> \<le> 1/2"
proof (cases x rule: round_half_even_cases)
  case 1
  moreover have "of_int \<lfloor>x\<rfloor> \<le> x" by simp
  ultimately show ?thesis by (simp add: abs_le_iff)
next
  case 2
  moreover have "x < of_int \<lfloor>x\<rfloor> + 1" by linarith
  ultimately show ?thesis by (simp add: abs_le_iff)
qed

definition binexp :: "rat \<Rightarrow> int" where
  "binexp x =
     (let (p, d) = quotient_of \<bar>x\<bar>; k = bitlen p - bitlen d
      in if 2 powi k \<le> \<bar>x\<bar> then k else k - 1)"

lemma powi_mono_rat: "m \<le> n \<Longrightarrow> (2::rat) powi m \<le> 2 powi n"
  by (intro power_int_increasing) auto

lemma powi_less_iff: "(2::rat) powi m < 2 powi n \<longleftrightarrow> m < n"
  by (metis linorder_not_less one_less_numeral_iff powi_mono_rat power_int_strict_increasing semiring_norm(76))

lemma binexp_bounds:
  assumes "x \<noteq> 0"
  shows "2 powi (binexp x) \<le> \<bar>x\<bar>" "\<bar>x\<bar> < 2 powi (binexp x + 1)"
proof -
  obtain p d where pd: "quotient_of \<bar>x\<bar> = (p, d)" by (cases "quotient_of \<bar>x\<bar>")
  have d: "0 < d" using quotient_of_denom_pos [OF pd] .
  have xq: "\<bar>x\<bar> = of_int p / of_int d" using quotient_of_div [OF pd] .
  have p: "0 < p"
  proof -
    have nz: "\<not> \<bar>x\<bar> \<le> 0" using assms by simp
    show ?thesis
    proof (rule ccontr)
      assume "\<not> 0 < p"
      then have "(of_int p :: rat) \<le> 0" by simp
      then have "(of_int p :: rat) / of_int d \<le> 0" using d by (intro divide_nonpos_pos) auto
      with xq nz show False by simp
    qed
  qed
  define k where "k = bitlen p - bitlen d"
  have bp: "2 ^ nat (bitlen p - 1) \<le> p" "p < 2 ^ nat (bitlen p)" using bitlen_bounds [OF p] by auto
  have bd: "2 ^ nat (bitlen d - 1) \<le> d" "d < 2 ^ nat (bitlen d)" using bitlen_bounds [OF d] by auto
  have ge1: "1 \<le> bitlen p" "1 \<le> bitlen d"
    using p d bitlen_eq_zero_iff [of p] bitlen_eq_zero_iff [of d] bitlen_nonneg [of p] bitlen_nonneg [of d] by linarith+
  have pw: "(2::rat) powi n = of_int (2 ^ nat n)" if "0 \<le> n" for n
    using that by (simp add: power_int_def)
  have P: "(2::rat) powi (bitlen p - 1) \<le> of_int p" "of_int p < (2::rat) powi (bitlen p)"
    using bp ge1 by (simp_all only: pw of_int_le_iff of_int_less_iff)
  have D: "(2::rat) powi (bitlen d - 1) \<le> of_int d" "of_int d < (2::rat) powi (bitlen d)"
    using bd ge1 by (simp_all only: pw of_int_le_iff of_int_less_iff)
  have lo: "2 powi (k - 1) \<le> \<bar>x\<bar>"
  proof -
    have "(2::rat) powi (k - 1) = 2 powi (bitlen p - 1) / 2 powi (bitlen d)"
      by (simp add: k_def power_int_diff)
    also have "\<dots> \<le> of_int p / of_int d"
      using P D d p by (intro frac_le) auto
    finally show ?thesis using xq by simp
  qed
  have hi: "\<bar>x\<bar> < 2 powi (k + 1)"
  proof -
    have "of_int p / of_int d < (2::rat) powi (bitlen p) / 2 powi (bitlen d - 1)"
      using P D d p by (intro frac_less) auto
    also have "\<dots> = 2 powi (k + 1)"
      by (simp add: k_def power_int_diff power_int_add)
    finally show ?thesis using xq by simp
  qed
  have b: "binexp x = (if 2 powi k \<le> \<bar>x\<bar> then k else k - 1)"
    by (simp add: binexp_def pd k_def Let_def)
  show "2 powi (binexp x) \<le> \<bar>x\<bar>" using b lo by auto
  show "\<bar>x\<bar> < 2 powi (binexp x + 1)" using b hi by auto
qed

lemma binexp_less_iff:
  assumes "x \<noteq> 0"
  shows "\<bar>x\<bar> < 2 powi n \<longleftrightarrow> binexp x < n"
proof
  assume "\<bar>x\<bar> < 2 powi n"
  with binexp_bounds(1) [OF assms] have "(2::rat) powi (binexp x) < 2 powi n" by linarith
  then show "binexp x < n" by (simp add: powi_less_iff)
next
  assume "binexp x < n"
  then have "(2::rat) powi (binexp x + 1) \<le> 2 powi n" by (intro powi_mono_rat) simp
  with binexp_bounds(2) [OF assms] show "\<bar>x\<bar> < 2 powi n" by linarith
qed

lemma binexp_mono: "x \<noteq> 0 \<Longrightarrow> \<bar>x\<bar> \<le> \<bar>y\<bar> \<Longrightarrow> binexp x \<le> binexp y"
  by (smt (verit) abs_0_eq binexp_less_iff binexp_bounds order_le_less_trans abs_ge_zero abs_le_zero_iff order_antisym)

definition ulpexp :: "rat \<Rightarrow> int" where
  "ulpexp x = max (binexp x - 52) (-1074)"

definition fl :: "rat \<Rightarrow> rat" where
  "fl x = (if x = 0 then 0 else of_int (round_half_even (x / 2 powi ulpexp x)) * 2 powi ulpexp x)"

lemma fl_0 [simp]: "fl 0 = 0"
  by (simp add: fl_def)

lemma powi_pos [simp]: "(0::rat) < 2 powi n"
  by simp

lemma powi_split: "q \<le> n \<Longrightarrow> (2::rat) powi n = of_int (2 ^ nat (n - q)) * 2 powi q"
proof -
  assume "q \<le> n"
  then have "(2::rat) powi n = 2 powi (n - q) * 2 powi q" by (simp flip: power_int_add)
  also have "(2::rat) powi (n - q) = of_int (2 ^ nat (n - q))" using \<open>q \<le> n\<close> by (simp add: power_int_def)
  finally show ?thesis .
qed

lemma fl_grid:
  assumes "ulpexp x \<le> q"
  shows "of_int m * 2 powi q = x \<Longrightarrow> fl x = x"
proof -
  assume x: "of_int m * 2 powi q = x"
  have "x = of_int (m * 2 ^ nat (q - ulpexp x)) * 2 powi ulpexp x"
    using powi_split [OF assms] x by (metis mult.assoc of_int_mult)
  then have "x / 2 powi ulpexp x = of_int (m * 2 ^ nat (q - ulpexp x))"
    by (metis nonzero_mult_div_cancel_right powi_pos less_irrefl)
  moreover have "x = of_int (m * 2 ^ nat (q - ulpexp x)) * 2 powi ulpexp x" by fact
  ultimately show "fl x = x" by (metis fl_def round_half_even_of_int)
qed

text \<open>A multiple of a power of two with at most 53 significant bits is exact.\<close>

lemma fl_exact:
  assumes "\<bar>m\<bar> \<le> 2 ^ 53" "-1074 \<le> q"
  shows "fl (of_int m * 2 powi q) = of_int m * 2 powi q"
proof (cases "m = 0")
  case False
  let ?x = "of_int m * (2::rat) powi q"
  have x0: "?x \<noteq> 0" using False by simp
  show ?thesis
  proof (cases "\<bar>m\<bar> = 2 ^ 53")
    case True
    have ax: "\<bar>?x\<bar> = 2 powi (q + 53)" using True
      by (simp add: abs_mult power_int_add flip: of_int_abs)
    then have "binexp ?x \<le> q + 53" using binexp_bounds(1) [OF x0] by (simp add: powi_less_iff flip: not_less)
    then have "ulpexp ?x \<le> q + 53" using assms(2) by (simp add: ulpexp_def)
    moreover have "of_int (sgn m) * 2 powi (q + 53) = ?x"
    proof (cases "m < 0")
      case True
      with \<open>\<bar>m\<bar> = 2 ^ 53\<close> have "m = - (2 ^ 53)" by simp
      then show ?thesis by (simp add: power_int_add)
    next
      case False
      with \<open>\<bar>m\<bar> = 2 ^ 53\<close> have "m = 2 ^ 53" by simp
      then show ?thesis by (simp add: power_int_add)
    qed
    ultimately show ?thesis by (rule fl_grid)
  next
    case neq: False
    have "\<bar>?x\<bar> = of_int \<bar>m\<bar> * 2 powi q" by (simp add: abs_mult)
    also have "\<dots> < of_int (2 ^ 53) * 2 powi q"
      using neq assms(1) by (intro mult_strict_right_mono powi_pos) (simp only: of_int_less_iff)
    also have "\<dots> = 2 powi (q + 53)" by (simp add: power_int_add)
    finally have "binexp ?x < q + 53" using x0 binexp_less_iff by blast
    then have "ulpexp ?x \<le> q" using assms(2) by (simp add: ulpexp_def)
    then show ?thesis by (rule fl_grid) simp
  qed
qed simp

lemma fl_of_int: "\<bar>m\<bar> \<le> 2 ^ 53 \<Longrightarrow> fl (of_int m) = of_int m"
  using fl_exact [of m 0] by simp

lemma fl_eq_grid: "x \<noteq> 0 \<Longrightarrow> \<exists>m. fl x = of_int m * 2 powi ulpexp x \<and> \<bar>m\<bar> \<le> 2 ^ 53"
proof -
  assume x: "x \<noteq> 0"
  let ?q = "ulpexp x" and ?m = "round_half_even (x / 2 powi ulpexp x)"
  have "\<bar>x\<bar> < 2 powi (?q + 53)"
    using x by (subst binexp_less_iff) (auto simp: ulpexp_def)
  then have "\<bar>x / 2 powi ?q\<bar> < of_int (2 ^ 53)"
    by (simp add: power_int_add divide_simps mult.commute)
  then have "x / 2 powi ?q \<le> of_int (2 ^ 53)" "of_int (- (2 ^ 53)) \<le> x / 2 powi ?q"
    by (simp_all only: abs_less_iff of_int_minus) linarith+
  then have "?m \<le> 2 ^ 53" "- (2 ^ 53) \<le> ?m"
    by (metis round_half_even_mono round_half_even_of_int)+
  then have "\<bar>?m\<bar> \<le> 2 ^ 53" by auto
  moreover have "fl x = of_int ?m * 2 powi ?q" using x by (simp add: fl_def)
  ultimately show ?thesis by blast
qed

lemma ulpexp_ge: "-1074 \<le> ulpexp x"
  by (simp add: ulpexp_def)

lemma fl_idem [simp]: "fl (fl x) = fl x"
proof (cases "x = 0")
  case False
  then obtain m where "fl x = of_int m * 2 powi ulpexp x" "\<bar>m\<bar> \<le> 2 ^ 53" using fl_eq_grid by blast
  then show ?thesis using fl_exact [OF _ ulpexp_ge] by simp
qed simp


lemma fl_nonneg: "0 \<le> x \<Longrightarrow> 0 \<le> fl x"
proof -
  assume "0 \<le> x"
  then have "round_half_even 0 \<le> round_half_even (x / 2 powi ulpexp x)"
    by (intro round_half_even_mono) simp
  then show ?thesis using round_half_even_of_int [of 0] by (simp add: fl_def del: round_half_even_of_int)
qed

lemma round_half_even_minus: "round_half_even (- x) = - round_half_even x"
proof (cases "x = of_int \<lfloor>x\<rfloor>")
  case True
  then show ?thesis by (metis of_int_minus round_half_even_of_int)
next
  case False
  then have c: "\<lfloor>- x\<rfloor> = - \<lfloor>x\<rfloor> - 1" by linarith
  show ?thesis by (auto simp: round_half_even_def Let_def c)
qed

lemma fl_minus: "fl (- x) = - fl x"
proof -
  have "binexp (- x) = binexp x" by (simp add: binexp_def)
  then have "ulpexp (- x) = ulpexp x" by (simp add: ulpexp_def)
  moreover have "- x / 2 powi ulpexp x = - (x / 2 powi ulpexp x)" by simp
  ultimately show ?thesis unfolding fl_def by (simp only: round_half_even_minus) simp
qed

lemma fl_mono_pos:
  assumes "0 < x" "x \<le> y" shows "fl x \<le> fl y"
proof (cases "ulpexp x = ulpexp y")
  case True
  have "x / 2 powi ulpexp y \<le> y / 2 powi ulpexp y" using assms by (intro divide_right_mono) auto
  then have "round_half_even (x / 2 powi ulpexp y) \<le> round_half_even (y / 2 powi ulpexp y)"
    by (rule round_half_even_mono)
  then show ?thesis using True assms by (simp add: fl_def)
next
  case False
  let ?s = "(2::rat) powi binexp y"
  have "binexp x \<le> binexp y" using assms by (intro binexp_mono) auto
  with False have less: "binexp x < binexp y" and uy: "ulpexp y = binexp y - 52"
    by (auto simp: ulpexp_def)
  have ux: "ulpexp x \<le> binexp y" using less uy ulpexp_ge [of y] by (auto simp: ulpexp_def)
  have xs: "x \<le> ?s" and sy: "?s \<le> y"
    using less binexp_less_iff [of x "binexp y"] binexp_bounds(1) [of y] assms by auto
  have "fl x \<le> ?s"
  proof -
    have "x / 2 powi ulpexp x \<le> of_int (2 ^ nat (binexp y - ulpexp x))"
      using xs powi_split [OF ux] by (simp add: divide_simps)
    then have "round_half_even (x / 2 powi ulpexp x) \<le> 2 ^ nat (binexp y - ulpexp x)"
      by (metis round_half_even_mono round_half_even_of_int)
    then have "(of_int (round_half_even (x / 2 powi ulpexp x)) :: rat) \<le> of_int (2 ^ nat (binexp y - ulpexp x))"
      by (simp only: of_int_le_iff)
    then have "fl x \<le> of_int (2 ^ nat (binexp y - ulpexp x)) * 2 powi ulpexp x"
      using assms by (simp add: fl_def)
    then show ?thesis using powi_split [OF ux] by simp
  qed
  moreover have "?s \<le> fl y"
  proof -
    have uy': "ulpexp y \<le> binexp y" using uy by simp
    have "of_int (2 ^ nat (binexp y - ulpexp y)) \<le> y / 2 powi ulpexp y"
      using sy powi_split [OF uy'] by (simp add: divide_simps)
    then have "2 ^ nat (binexp y - ulpexp y) \<le> round_half_even (y / 2 powi ulpexp y)"
      by (metis round_half_even_mono round_half_even_of_int)
    then have "of_int (2 ^ nat (binexp y - ulpexp y)) \<le> (of_int (round_half_even (y / 2 powi ulpexp y)) :: rat)"
      by (simp only: of_int_le_iff)
    then have "of_int (2 ^ nat (binexp y - ulpexp y)) * 2 powi ulpexp y \<le> fl y"
      using assms by (simp add: fl_def)
    then show ?thesis using powi_split [OF uy'] by simp
  qed
  ultimately show ?thesis by linarith
qed

lemma fl_mono: assumes "x \<le> y" shows "fl x \<le> fl y"
proof -
  consider "0 < x" | "x \<le> 0" "0 \<le> y" | "y < 0" using assms by linarith
  then show ?thesis
  proof cases
    case 1 then show ?thesis using assms fl_mono_pos by blast
  next
    case 2
    then have "fl x \<le> 0" using fl_nonneg [of "- x"] by (simp add: fl_minus)
    then show ?thesis using fl_nonneg 2 by force
  next
    case 3
    then have "fl (- y) \<le> fl (- x)" using assms by (intro fl_mono_pos) auto
    then show ?thesis by (simp add: fl_minus)
  qed
qed

definition half_ulp_min :: rat where
  "half_ulp_min = 2 powi (-1075)"

lemma fl_error: "\<bar>fl x - x\<bar> \<le> \<bar>x\<bar> / 2 ^ 53 + half_ulp_min"
proof (cases "x = 0")
  case False
  let ?q = "ulpexp x" and ?r = "round_half_even (x / 2 powi ulpexp x)"
  have "fl x - x = (of_int ?r - x / 2 powi ?q) * 2 powi ?q"
    using False by (simp add: fl_def algebra_simps)
  then have "\<bar>fl x - x\<bar> = \<bar>of_int ?r - x / 2 powi ?q\<bar> * 2 powi ?q" by (simp add: abs_mult)
  also have "\<dots> \<le> (1/2) * 2 powi ?q"
    using round_half_even_dist by (intro mult_right_mono) auto
  also have "\<dots> \<le> \<bar>x\<bar> / 2 ^ 53 + half_ulp_min"
  proof (cases "binexp x - 52 \<le> -1074")
    case True
    then have q: "?q = -1074" by (simp add: ulpexp_def)
    have "2 * (2::rat) powi (-1075) = 2 powi (1 + -1075)" by (subst power_int_add) simp_all
    then have "(1/2) * (2::rat) powi ?q = half_ulp_min" unfolding q half_ulp_min_def by simp
    moreover have "0 \<le> \<bar>x\<bar> / 2 ^ 53" by (intro divide_nonneg_nonneg) auto
    ultimately show ?thesis by linarith
  next
    case F: False
    then have q: "?q = binexp x - 52" by (simp add: ulpexp_def)
    have "(1/2) * (2::rat) powi ?q = 2 powi (binexp x) / 2 ^ 53"
      unfolding q by (simp add: power_int_diff)
    also have "\<dots> \<le> \<bar>x\<bar> / 2 ^ 53" using binexp_bounds(1) [OF False] by (intro divide_right_mono) auto
    finally have "(1/2) * (2::rat) powi ?q \<le> \<bar>x\<bar> / 2 ^ 53" .
    moreover have "0 \<le> half_ulp_min" by (simp only: half_ulp_min_def powi_pos order_less_imp_le)
    ultimately show ?thesis by linarith
  qed
  finally show ?thesis .
qed (simp add: half_ulp_min_def del: power_int_minus)


definition unit_roundoff :: rat where
  "unit_roundoff = 1 / 2 ^ 53"

lemma unit_roundoff_bounds: "0 \<le> unit_roundoff" "unit_roundoff \<le> 1 / 2 ^ 53" "unit_roundoff \<le> 1"
  by (simp_all add: unit_roundoff_def)

lemma half_ulp_min_nonneg: "0 \<le> half_ulp_min"
  by (simp only: half_ulp_min_def powi_pos order_less_imp_le)

lemma fl_upper:
  assumes "0 \<le> x" shows "fl x \<le> x + x * unit_roundoff + half_ulp_min"
proof -
  have "\<bar>fl x - x\<bar> \<le> x * unit_roundoff + half_ulp_min"
    using fl_error [of x] assms by (simp add: unit_roundoff_def)
  then show ?thesis by linarith
qed

lemma fl_le_of_le: "x \<le> y \<Longrightarrow> fl y = y \<Longrightarrow> fl x \<le> y"
  by (metis fl_mono)

lemma fl_ge_of_ge: "y \<le> x \<Longrightarrow> fl y = y \<Longrightarrow> y \<le> fl x"
  by (metis fl_mono)

lemma fl_1 [simp]: "fl 1 = 1"
  using fl_of_int [of 1] by simp

section \<open>The type of floats\<close>

typedef pyfloat = "{x. fl x = x}" morphisms fval Abs_pyfloat
  by (rule exI [of _ 0]) simp

setup_lifting type_definition_pyfloat

lift_definition Fl :: "rat \<Rightarrow> pyfloat" is fl
  by simp

text \<open>\<^verbatim>\<open>float(n)\<close> of an int, and the int-to-float coercion of mixed arithmetic.\<close>

definition float_of_int :: "int \<Rightarrow> pyfloat" where
  "float_of_int n = Fl (of_int n)"

instantiation pyfloat :: "{zero, one, plus, minus, uminus, times, inverse, linorder, equal}"
begin

lift_definition zero_pyfloat :: pyfloat is 0 by simp
lift_definition one_pyfloat :: pyfloat is 1 by simp
lift_definition plus_pyfloat :: "pyfloat \<Rightarrow> pyfloat \<Rightarrow> pyfloat" is "\<lambda>a b. fl (a + b)" by simp
lift_definition minus_pyfloat :: "pyfloat \<Rightarrow> pyfloat \<Rightarrow> pyfloat" is "\<lambda>a b. fl (a - b)" by simp
lift_definition uminus_pyfloat :: "pyfloat \<Rightarrow> pyfloat" is "\<lambda>a. - a" by (simp add: fl_minus)
lift_definition times_pyfloat :: "pyfloat \<Rightarrow> pyfloat \<Rightarrow> pyfloat" is "\<lambda>a b. fl (a * b)" by simp
lift_definition divide_pyfloat :: "pyfloat \<Rightarrow> pyfloat \<Rightarrow> pyfloat" is "\<lambda>a b. fl (a / b)" by simp
lift_definition inverse_pyfloat :: "pyfloat \<Rightarrow> pyfloat" is "\<lambda>a. fl (1 / a)" by simp
lift_definition less_eq_pyfloat :: "pyfloat \<Rightarrow> pyfloat \<Rightarrow> bool" is "(\<le>)" .
lift_definition less_pyfloat :: "pyfloat \<Rightarrow> pyfloat \<Rightarrow> bool" is "(<)" .
lift_definition equal_pyfloat :: "pyfloat \<Rightarrow> pyfloat \<Rightarrow> bool" is "(=)" .

instance
  by standard (transfer; auto)+

end

lemma fval_Fl [simp]: "fval (Fl x) = fl x"
  by (rule Fl.rep_eq)

lemma fl_fval [simp]: "fl (fval x) = fval x"
  using fval [of x] by simp

lemma Fl_fval [simp]: "Fl (fval x) = x"
  by transfer

lemma pyfloat_eq_iff: "x = y \<longleftrightarrow> fval x = fval y"
  by (simp add: fval_inject)

lemmas fval_simps [simp] =
  zero_pyfloat.rep_eq one_pyfloat.rep_eq plus_pyfloat.rep_eq minus_pyfloat.rep_eq
  uminus_pyfloat.rep_eq times_pyfloat.rep_eq divide_pyfloat.rep_eq

lemma le_fval: "x \<le> y \<longleftrightarrow> fval x \<le> fval y"
  by transfer simp

lemma less_fval: "x < y \<longleftrightarrow> fval x < fval y"
  by transfer simp

lemma zero_le_one_pyfloat [simp]: "(0::pyfloat) \<le> 1"
  by transfer simp

lemma fval_float_of_int: "\<bar>n\<bar> \<le> 2 ^ 53 \<Longrightarrow> fval (float_of_int n) = of_int n"
  by (simp add: float_of_int_def fl_of_int)

lemma fval_max: "fval (max x y) = max (fval x) (fval y)"
  by (simp add: max_def le_fval)

lemma fval_min: "fval (min x y) = min (fval x) (fval y)"
  by (simp add: min_def le_fval)

section \<open>Laws of rounded arithmetic\<close>

locale rounded_arith =
  fixes add :: "'a::linorder \<Rightarrow> 'a \<Rightarrow> 'a"
    and sub :: "'a \<Rightarrow> 'a \<Rightarrow> 'a"
    and mul :: "'a \<Rightarrow> 'a \<Rightarrow> 'a"
    and zero :: 'a
    and one :: 'a
  assumes add_commute: "add a b = add b a"
    and add_zero: "add a zero = a"
    and add_mono: "a \<le> b \<Longrightarrow> c \<le> d \<Longrightarrow> add a c \<le> add b d"
    and sub_self: "sub a a = zero"
    and sub_mono: "a \<le> b \<Longrightarrow> d \<le> c \<Longrightarrow> sub a c \<le> sub b d"
    and sub_zero: "sub a zero = a"
    and mul_commute: "mul a b = mul b a"
    and mul_zero: "mul a zero = zero"
    and mul_one: "mul a one = a"
    and mul_mono: "zero \<le> a \<Longrightarrow> a \<le> b \<Longrightarrow> zero \<le> c \<Longrightarrow> c \<le> d \<Longrightarrow> mul a c \<le> mul b d"
begin

lemma add_increases: "zero \<le> b \<Longrightarrow> a \<le> add a b"
  using add_mono [of a a zero b] by (simp add: add_zero)

lemma add_nonneg: "zero \<le> a \<Longrightarrow> zero \<le> b \<Longrightarrow> zero \<le> add a b"
  using add_increases [of b a] by (rule order_trans [rotated])

lemma sub_nonneg: "b \<le> a \<Longrightarrow> zero \<le> sub a b"
  using sub_mono [of b a b b] by (simp add: sub_self)

lemma sub_decreases: "zero \<le> b \<Longrightarrow> sub a b \<le> a"
  using sub_mono [of a a zero b] by (simp add: sub_zero)

lemma mul_nonneg: "zero \<le> a \<Longrightarrow> zero \<le> b \<Longrightarrow> zero \<le> mul a b"
  using mul_mono [of zero a zero b] by (simp add: mul_zero)

lemma mul_decreases: "zero \<le> a \<Longrightarrow> zero \<le> b \<Longrightarrow> b \<le> one \<Longrightarrow> mul a b \<le> a"
  using mul_mono [of a a b one] by (simp add: mul_one)

text \<open>An additive increase capped from above and a multiplicative decrease capped from below
  both stay inside the interval.\<close>

lemma capped_increase:
  "lo \<le> hi \<Longrightarrow> lo \<le> x \<Longrightarrow> zero \<le> a \<Longrightarrow> lo \<le> min hi (add x a) \<and> min hi (add x a) \<le> hi"
  by (simp add: order_trans [OF _ add_increases])

lemma floored_decrease:
  "lo \<le> hi \<Longrightarrow> zero \<le> x \<Longrightarrow> x \<le> hi \<Longrightarrow> zero \<le> b \<Longrightarrow> b \<le> one \<Longrightarrow>
     lo \<le> max lo (mul x b) \<and> max lo (mul x b) \<le> hi"
  by (simp add: order_trans [OF mul_decreases])

end

interpretation pyf: rounded_arith "(+)" "(-)" "(*)" "0 :: pyfloat" 1
proof (unfold_locales, goal_cases)
  case (3 a b c d)
  then show ?case by (simp add: le_fval fl_mono)
next
  case (5 a b d c)
  then show ?case by (simp add: le_fval fl_mono)
next
  case (10 a b c d)
  then show ?case by (simp add: le_fval fl_mono mult_mono)
qed (simp_all add: pyfloat_eq_iff add.commute mult.commute)

section \<open>Python's numeric built-ins on floats\<close>

definition py_floor :: "pyfloat \<Rightarrow> int" where
  "py_floor x = \<lfloor>fval x\<rfloor>"

text \<open>\<^verbatim>\<open>int(x)\<close> truncates towards zero.\<close>

definition py_trunc :: "pyfloat \<Rightarrow> int" where
  "py_trunc x = (if 0 \<le> fval x then \<lfloor>fval x\<rfloor> else \<lceil>fval x\<rceil>)"

text \<open>\<^verbatim>\<open>round(x, d)\<close>: the exact value is rounded half-even to \<^verbatim>\<open>d\<close> decimals, and the decimal
  is converted back to the nearest float.\<close>

definition py_round :: "pyfloat \<Rightarrow> nat \<Rightarrow> pyfloat" where
  "py_round x d = Fl (of_int (round_half_even (fval x * 10 ^ d)) / 10 ^ d)"

text \<open>True division of two ints: the correctly rounded quotient.  Callers guard zero.\<close>

definition int_truediv :: "int \<Rightarrow> int \<Rightarrow> pyfloat" where
  "int_truediv a b = Fl (of_int a / of_int b)"

lemma py_floor_mono: "x \<le> y \<Longrightarrow> py_floor x \<le> py_floor y"
  by (simp add: py_floor_def le_fval floor_mono)

lemma py_floor_float_of_int: "\<bar>n\<bar> \<le> 2 ^ 53 \<Longrightarrow> py_floor (float_of_int n) = n"
  by (simp add: py_floor_def fval_float_of_int)

lemma py_round_mono: "x \<le> y \<Longrightarrow> py_round x d \<le> py_round y d"
  by (simp add: py_round_def le_fval fl_mono divide_right_mono mult_right_mono round_half_even_mono)

lemma float_arith_not_exact: "Fl (1/10) + Fl (2/10) \<noteq> Fl (3/10)"
  by code_simp

end
