(* ===== verification/PyVal.thy ===== *)
theory PyVal imports PyStr PyFloat "HOL-Library.List_Lexorder" "HOL-Library.Char_ord" "HOL-Library.Multiset" begin

text \<open>
  The dynamically typed values of a request: what \<^verbatim>\<open>json.loads\<close> and Starlette's form parser
  hand to the code, Python's truth and key rules on them, and \<^verbatim>\<open>json.dumps\<close>.  A dict is an
  association list in insertion order, with distinct keys; an uploaded file carries its identity,
  its \<^verbatim>\<open>repr\<close> and what reading it gives.
\<close>

section \<open>Values\<close>

datatype pyval =
    PNone
  | PBool bool
  | PInt int
  | PFloat pyfloat
  | PStr string
  | PList "pyval list"
  | PDict "(string \<times> pyval) list"
  | PUpload nat string "bytes py_result"

fun truthy :: "pyval \<Rightarrow> bool" where
  "truthy PNone = False"
| "truthy (PBool b) = b"
| "truthy (PInt i) = (i \<noteq> 0)"
| "truthy (PFloat x) = (x \<noteq> 0)"
| "truthy (PStr s) = (s \<noteq> [])"
| "truthy (PList xs) = (xs \<noteq> [])"
| "truthy (PDict kvs) = (kvs \<noteq> [])"
| "truthy (PUpload _ _ _) = True"

text \<open>\<^verbatim>\<open>a or b\<close>\<close>

definition py_or :: "pyval \<Rightarrow> pyval \<Rightarrow> pyval" where
  "py_or a b = (if truthy a then a else b)"

text \<open>\<^verbatim>\<open>v.get(k, d)\<close>: only a dict has the method.\<close>

fun py_get :: "pyval \<Rightarrow> string \<Rightarrow> pyval \<Rightarrow> pyval py_result" where
  "py_get (PDict kvs) k d = Inr (case map_of kvs k of None \<Rightarrow> d | Some v \<Rightarrow> v)"
| "py_get _ k d = Inl AttributeError"

text \<open>\<^verbatim>\<open>int(v)\<close>\<close>

fun py_int :: "pyval \<Rightarrow> int py_result" where
  "py_int (PInt i) = Inr i"
| "py_int (PBool b) = Inr (if b then 1 else 0)"
| "py_int (PFloat x) = Inr (py_trunc x)"
| "py_int (PStr s) = py_int_of_str 10 s"
| "py_int _ = Inl TypeError"

text \<open>\<^verbatim>\<open>v.encode("utf-8")\<close>: only a string has the method.\<close>

fun py_encode :: "pyval \<Rightarrow> bytes py_result" where
  "py_encode (PStr s) = Inr (utf8 s)"
| "py_encode _ = Inl AttributeError"

text \<open>
  Dictionary keys.  Numbers that compare equal are one key (\<^verbatim>\<open>1 == True == 1.0\<close>), an object
  without an \<^verbatim>\<open>__eq__\<close> of its own is a key by identity, lists and dicts are unhashable.
\<close>

datatype pykey = KNone | KNum rat | KStr string | KObj nat

fun py_key :: "pyval \<Rightarrow> pykey py_result" where
  "py_key PNone = Inr KNone"
| "py_key (PBool b) = Inr (KNum (if b then 1 else 0))"
| "py_key (PInt i) = Inr (KNum (of_int i))"
| "py_key (PFloat x) = Inr (KNum (fval x))"
| "py_key (PStr s) = Inr (KStr s)"
| "py_key (PUpload i _ _) = Inr (KObj i)"
| "py_key _ = Inl TypeError"

section \<open>The text of a float\<close>

text \<open>The decimal exponent of a positive rational: \<^verbatim>\<open>10 ^ e <= x < 10 ^ (e + 1)\<close>.\<close>

definition dec_exp :: "rat \<Rightarrow> int" where
  "dec_exp x =
     (if 1 \<le> x then int (length (nat_str (nat \<lfloor>x\<rfloor>))) - 1
      else (let m = int (length (nat_str (nat \<lfloor>1 / x\<rfloor>)))
            in if 10 powi (1 - m) \<le> x then 1 - m else - m))"

text \<open>
  \<^verbatim>\<open>repr\<close> prints the shortest decimal that reads back as the float and, among those, the
  nearest one.  The candidates with \<^verbatim>\<open>n\<close> digits are the two neighbours of \<^verbatim>\<open>x\<close> on the grid of
  its last digit; 17 digits always suffice.
\<close>

fun shortest_from :: "rat \<Rightarrow> int \<Rightarrow> nat \<Rightarrow> nat \<Rightarrow> int \<times> int" where
  "shortest_from x e n 0 =
     (let k = e - int n + 1 in (round_half_even (x / 10 powi k), k))"
| "shortest_from x e n (Suc fuel) =
     (let k = e - int n + 1;
          lo = \<lfloor>x / 10 powi k\<rfloor>;
          hi = lo + 1;
          lo_ok = fl (of_int lo * 10 powi k) = x;
          hi_ok = fl (of_int hi * 10 powi k) = x
      in if lo_ok \<and> hi_ok
         then (if x - of_int lo * 10 powi k \<le> of_int hi * 10 powi k - x then (lo, k) else (hi, k))
         else if lo_ok then (lo, k)
         else if hi_ok then (hi, k)
         else shortest_from x e (Suc n) fuel)"

definition strip_zeros :: "string \<Rightarrow> string" where
  "strip_zeros s = rev (dropWhile (\<lambda>c. c = CHR ''0'') (rev s))"

definition zeros :: "int \<Rightarrow> string" where
  "zeros n = replicate (nat n) (CHR ''0'')"

text \<open>Digits \<^verbatim>\<open>s\<close> with the decimal point after position \<^verbatim>\<open>p\<close>: fixed notation for
  \<^verbatim>\<open>-4 < p <= 16\<close>, else an exponent of at least two digits.\<close>

definition place_point :: "string \<Rightarrow> int \<Rightarrow> string" where
  "place_point s p =
     (if - 4 < p \<and> p \<le> 16
      then (if p \<le> 0 then ''0.'' @ zeros (- p) @ s
            else if int (length s) \<le> p then s @ zeros (p - int (length s)) @ ''.0''
            else take (nat p) s @ ''.'' @ drop (nat p) s)
      else take 1 s @ (if length s = 1 then [] else ''.'' @ drop 1 s) @ ''e'' @
           (if p \<le> 0 then ''-'' else ''+'') @ zero_pad 2 (nat_str (nat \<bar>p - 1\<bar>)))"

definition float_repr :: "pyfloat \<Rightarrow> string" where
  "float_repr x =
     (let v = fval x in
      if v = 0 then ''0.0''
      else (let (m, k) = shortest_from \<bar>v\<bar> (dec_exp \<bar>v\<bar>) 1 16;
                ds = nat_str (nat m);
                t = place_point (strip_zeros ds) (int (length ds) + k)
            in if v < 0 then ''-'' @ t else t))"

section \<open>json.dumps\<close>

definition hex4 :: "nat \<Rightarrow> string" where
  "hex4 n = fixed_hex 4 n"

definition json_char :: "char \<Rightarrow> string" where
  "json_char c =
     (let n = code_point c
      in if n = 34 then [char_of (92::nat), char_of (34::nat)]
         else if n = 92 then [char_of (92::nat), char_of (92::nat)]
         else if n = 10 then char_of (92::nat) # ''n''
         else if n = 13 then char_of (92::nat) # ''r''
         else if n = 9 then char_of (92::nat) # ''t''
         else if n = 8 then char_of (92::nat) # ''b''
         else if n = 12 then char_of (92::nat) # ''f''
         else if n < 32 \<or> 126 < n then char_of (92::nat) # ''u'' @ hex4 n
         else [c])"

definition json_string :: "string \<Rightarrow> string" where
  "json_string s = [char_of (34::nat)] @ concat (map json_char s) @ [char_of (34::nat)]"

fun join :: "string \<Rightarrow> string list \<Rightarrow> string" where
  "join sep [] = []"
| "join sep [s] = s"
| "join sep (s # t # ts) = s @ sep @ join sep (t # ts)"

fun serialisable :: "pyval \<Rightarrow> bool" where
  "serialisable (PUpload _ _ _) = False"
| "serialisable (PList xs) = (\<forall>x \<in> set xs. serialisable x)"
| "serialisable (PDict kvs) = (\<forall>kv \<in> set kvs. serialisable (snd kv))"
| "serialisable _ = True"

text \<open>The text of a value; \<^verbatim>\<open>srt\<close> is \<^verbatim>\<open>sort_keys\<close>.\<close>

fun json_text :: "bool \<Rightarrow> pyval \<Rightarrow> string" where
  "json_text srt PNone = ''null''"
| "json_text srt (PBool b) = (if b then ''true'' else ''false'')"
| "json_text srt (PInt i) = int_str i"
| "json_text srt (PFloat x) = float_repr x"
| "json_text srt (PStr s) = json_string s"
| "json_text srt (PList xs) = ''['' @ join '', '' (map (json_text srt) xs) @ '']''"
| "json_text srt (PDict kvs) =
     (let items = map (\<lambda>kv. (fst kv, json_text srt (snd kv))) kvs;
          ordered = (if srt then sort_key fst items else items)
      in ''{'' @ join '', '' (map (\<lambda>it. json_string (fst it) @ '': '' @ snd it) ordered) @ ''}'')"
| "json_text srt (PUpload _ _ _) = []"

definition json_dumps :: "bool \<Rightarrow> pyval \<Rightarrow> string py_result" where
  "json_dumps srt v = (if serialisable v then Inr (json_text srt v) else Inl TypeError)"

text \<open>With \<^verbatim>\<open>sort_keys\<close> the text of a dict does not depend on the order its keys came in.\<close>

lemma json_text_perm:
  assumes "distinct (map fst kvs)" "mset kvs = mset kvs'"
  shows "json_text True (PDict kvs) = json_text True (PDict kvs')"
proof -
  let ?f = "\<lambda>kv. (fst kv, json_text True (snd kv))"
  have "sort_key fst (map ?f kvs) = sort_key fst (map ?f kvs')"
  proof (rule sort_key_inj_key_eq)
    show "mset (map ?f kvs) = mset (sort_key fst (map ?f kvs'))"
      using assms(2) by (simp only: mset_sort mset_map)
    have "distinct (map fst (map ?f kvs))" using assms(1) by (simp add: comp_def)
    then show "inj_on fst (set (map ?f kvs))" by (simp only: distinct_map)
    show "sorted (map fst (sort_key fst (map ?f kvs')))" by (rule sorted_sort_key)
  qed
  then show ?thesis by (simp add: Let_def)
qed

end
