(* ===== verification/Database.thy ===== *)
theory Database imports PyVal begin

text \<open>
  The PostgreSQL schema of \<^verbatim>\<open>database/init.sql\<close>: the tables the API and the workers share, as
  lists of rows in insertion order, and the statements that the repositories are built from.  An
  insert that breaks a primary key, a unique constraint or a foreign key raises and changes
  nothing.  Time stamps are the server's clock as an int.
\<close>

section \<open>Rows\<close>

datatype doc_status = QUEUED | PROCESSING | COMPLETED | RETRYING | FAILED

datatype event_type =
    DOCUMENT_SUBMITTED
  | KAFKA_PUBLISHED
  | HTTP_202_ACCEPTED
  | HTTP_429_BACKPRESSURE
  | KAFKA_CONSUMED
  | PROCESSING_STARTED
  | EV_PROCESSING
  | PROCESSING_COMPLETED
  | EV_COMPLETED
  | EV_RETRYING
  | EV_FAILED
  | PROCESSING_FAILED
  | WORKER_REGISTERED
  | WORKER_STOPPED

datatype severity = INFO | WARNING | ERROR

record doc_row =
  document_id :: uuid
  idempotency_key :: string
  doc_agency :: string
  filename :: "string option"
  object_key :: string
  doc_sha256 :: string
  doc_size :: int
  doc_status :: doc_status
  sequence_number :: int
  kafka_topic :: "string option"
  kafka_partition :: "int option"
  kafka_offset :: "int option"
  doc_worker :: "string option"
  processing_started_at :: "int option"
  processing_completed_at :: "int option"
  processing_duration_ms :: "int option"
  doc_audit_type :: string
  doc_report_year :: "int option"
  doc_auditor_org :: "string option"
  doc_retry_count :: int
  error_code :: "string option"
  created_at :: int
  updated_at :: int

record result_row =
  result_id :: uuid
  result_document :: uuid
  classification_status :: string
  result_started_at :: int
  result_completed_at :: int
  result_duration_ms :: int
  model_version :: string
  result_json :: pyval

record event_row =
  event_id :: uuid
  event_document :: "uuid option"
  event_agency :: "string option"
  event_sequence :: "int option"
  event_type :: event_type
  event_worker :: "string option"
  event_partition :: "int option"
  event_offset :: "int option"
  event_severity :: severity
  event_message :: string
  event_metadata :: pyval

record worker_row =
  worker_id :: string
  hostname :: string
  process_id :: int
  worker_status :: string
  current_state :: string
  current_document_id :: "uuid option"
  cpu_usage_pct :: pyfloat
  memory_usage_pct :: pyfloat
  processing_rate :: pyfloat
  failed_jobs :: int
  retry_count :: int
  last_heartbeat :: int
  registered_at :: int

record database =
  documents :: "doc_row list"
  results :: "result_row list"
  events :: "event_row list"
  workers :: "worker_row list"

definition empty_database :: database where
  "empty_database = \<lparr>documents = [], results = [], events = [], workers = []\<rparr>"

section \<open>Parameters of a statement\<close>

text \<open>
  asyncpg refuses a parameter of the wrong type or out of the column's range; PostgreSQL refuses a
  text with a zero character.
\<close>

definition pg_text :: "pyval \<Rightarrow> string option py_result" where
  "pg_text v =
     (case v of
        PNone \<Rightarrow> Inr None
      | PStr s \<Rightarrow> if CHR 0x00 \<in> set s then Inl ExternalError else Inr (Some s)
      | _ \<Rightarrow> Inl ExternalError)"

definition pg_not_null :: "'a option py_result \<Rightarrow> 'a py_result" where
  "pg_not_null r = py_bind r (\<lambda>v. case v of None \<Rightarrow> Inl ExternalError | Some x \<Rightarrow> Inr x)"

definition pg_int4 :: "int \<Rightarrow> int py_result" where
  "pg_int4 i = (if - (2 ^ 31) \<le> i \<and> i < 2 ^ 31 then Inr i else Inl ExternalError)"

section \<open>Statements\<close>

definition find_document :: "uuid \<Rightarrow> database \<Rightarrow> doc_row option" where
  "find_document i db = find (\<lambda>d. document_id d = i) (documents db)"

definition find_by_key :: "string \<Rightarrow> database \<Rightarrow> doc_row option" where
  "find_by_key k db = find (\<lambda>d. idempotency_key d = k) (documents db)"

text \<open>\<^verbatim>\<open>SELECT COALESCE(MAX(sequence_number), 0) + 1 FROM documents WHERE agency_id=$1\<close>\<close>

definition next_sequence :: "string \<Rightarrow> database \<Rightarrow> int" where
  "next_sequence a db =
     (let ns = map sequence_number (filter (\<lambda>d. doc_agency d = a) (documents db))
      in (if ns = [] then 0 else Max (set ns)) + 1)"

definition insert_document :: "doc_row \<Rightarrow> (database, unit) op" where
  "insert_document d db =
     (if \<exists>e \<in> set (documents db). document_id e = document_id d \<or> idempotency_key e = idempotency_key d
           \<or> (doc_agency e = doc_agency d \<and> sequence_number e = sequence_number d)
      then (Inl ExternalError, db)
      else (Inr (), db\<lparr>documents := documents db @ [d]\<rparr>))"

definition document_exists :: "uuid \<Rightarrow> database \<Rightarrow> bool" where
  "document_exists i db \<longleftrightarrow> (\<exists>d \<in> set (documents db). document_id d = i)"

definition insert_event :: "event_row \<Rightarrow> (database, unit) op" where
  "insert_event e db =
     (if (\<exists>e' \<in> set (events db). event_id e' = event_id e)
         \<or> (case event_document e of None \<Rightarrow> False | Some i \<Rightarrow> \<not> document_exists i db)
      then (Inl ExternalError, db)
      else (Inr (), db\<lparr>events := events db @ [e]\<rparr>))"

text \<open>\<^verbatim>\<open>INSERT ... ON CONFLICT (document_id) DO NOTHING\<close>\<close>

definition insert_result :: "result_row \<Rightarrow> (database, unit) op" where
  "insert_result r db =
     (if \<exists>r' \<in> set (results db). result_document r' = result_document r then (Inr (), db)
      else if (\<exists>r' \<in> set (results db). result_id r' = result_id r) \<or> \<not> document_exists (result_document r) db
      then (Inl ExternalError, db)
      else (Inr (), db\<lparr>results := results db @ [r]\<rparr>))"

text \<open>\<^verbatim>\<open>UPDATE documents SET ... WHERE document_id=$1\<close>: no row matching is no error.\<close>

definition update_document :: "uuid \<Rightarrow> (doc_row \<Rightarrow> doc_row) \<Rightarrow> (database, unit) op" where
  "update_document i f db =
     (Inr (), db\<lparr>documents := map (\<lambda>d. if document_id d = i then f d else d) (documents db)\<rparr>)"

text \<open>\<^verbatim>\<open>INSERT INTO worker_status ... ON CONFLICT (worker_id) DO UPDATE\<close>, which keeps the time
  of the first registration.\<close>

definition upsert_worker :: "worker_row \<Rightarrow> (database, unit) op" where
  "upsert_worker w db =
     (Inr (),
      if \<exists>v \<in> set (workers db). worker_id v = worker_id w
      then db\<lparr>workers := map (\<lambda>v. if worker_id v = worker_id w then w\<lparr>registered_at := registered_at v\<rparr> else v) (workers db)\<rparr>
      else db\<lparr>workers := workers db @ [w]\<rparr>)"

definition update_worker :: "string \<Rightarrow> (worker_row \<Rightarrow> worker_row) \<Rightarrow> (database, unit) op" where
  "update_worker i f db =
     (Inr (), db\<lparr>workers := map (\<lambda>v. if worker_id v = i then f v else v) (workers db)\<rparr>)"

section \<open>The schema's constraints as an invariant\<close>

definition db_inv :: "database \<Rightarrow> bool" where
  "db_inv db \<longleftrightarrow>
     distinct (map document_id (documents db)) \<and>
     distinct (map idempotency_key (documents db)) \<and>
     distinct (map (\<lambda>d. (doc_agency d, sequence_number d)) (documents db)) \<and>
     distinct (map result_document (results db)) \<and>
     (\<forall>r \<in> set (results db). document_exists (result_document r) db) \<and>
     distinct (map event_id (events db)) \<and>
     (\<forall>e \<in> set (events db). \<forall>i. event_document e = Some i \<longrightarrow> document_exists i db) \<and>
     distinct (map worker_id (workers db))"

text \<open>An update of a document changes neither its identity nor what the constraints range over.\<close>

definition keeps_identity :: "(doc_row \<Rightarrow> doc_row) \<Rightarrow> bool" where
  "keeps_identity f \<longleftrightarrow>
     (\<forall>d. document_id (f d) = document_id d \<and> idempotency_key (f d) = idempotency_key d \<and>
          doc_agency (f d) = doc_agency d \<and> sequence_number (f d) = sequence_number d)"

lemma db_inv_empty: "db_inv empty_database"
  by (simp add: db_inv_def empty_database_def)

lemma keeps_insert_document [op_keeps]: "keeps db_inv (insert_document d)"
  by (rule keepsI) (auto simp: insert_document_def db_inv_def document_exists_def)

lemma keeps_insert_event [op_keeps]: "keeps db_inv (insert_event e)"
  by (rule keepsI) (auto simp: insert_event_def db_inv_def document_exists_def split: option.splits)

lemma keeps_insert_result [op_keeps]: "keeps db_inv (insert_result r)"
  by (rule keepsI) (auto simp: insert_result_def db_inv_def document_exists_def)

lemma document_exists_update:
  "keeps_identity f \<Longrightarrow> document_exists j (snd (update_document i f db)) = document_exists j db"
  by (auto simp: document_exists_def update_document_def keeps_identity_def)

lemma keeps_update_document [op_keeps]:
  assumes "keeps_identity f" shows "keeps db_inv (update_document i f)"
proof (rule keepsI)
  fix db assume inv: "db_inv db"
  let ?u = "\<lambda>d. if document_id d = i then f d else d"
  have m: "map document_id (map ?u ds) = map document_id ds"
    "map idempotency_key (map ?u ds) = map idempotency_key ds"
    "map (\<lambda>d. (doc_agency d, sequence_number d)) (map ?u ds) = map (\<lambda>d. (doc_agency d, sequence_number d)) ds" for ds
    using assms by (auto simp: keeps_identity_def)
  have ex: "document_exists j (db\<lparr>documents := map ?u (documents db)\<rparr>) = document_exists j db" for j
    using document_exists_update [OF assms, of j i db] by (simp add: update_document_def)
  let ?db' = "db\<lparr>documents := map ?u (documents db)\<rparr>"
  have sel: "documents ?db' = map ?u (documents db)" "results ?db' = results db"
    "events ?db' = events db" "workers ?db' = workers db"
    by simp_all
  show "db_inv (snd (update_document i f db))"
    using inv unfolding update_document_def snd_conv db_inv_def sel m ex .
qed

lemma keeps_upsert_worker [op_keeps]: "keeps db_inv (upsert_worker w)"
proof (rule keepsI)
  fix db assume "db_inv db"
  moreover have "map worker_id (map (\<lambda>v. if worker_id v = worker_id w then w\<lparr>registered_at := registered_at v\<rparr> else v) vs)
      = map worker_id vs" for vs
    by auto
  ultimately show "db_inv (snd (upsert_worker w db))"
    by (auto simp: db_inv_def upsert_worker_def document_exists_def simp del: map_map)
qed

lemma keeps_update_worker [op_keeps]:
  assumes "\<And>v. worker_id (f v) = worker_id v" shows "keeps db_inv (update_worker i f)"
proof (rule keepsI)
  fix db assume "db_inv db"
  moreover have "map worker_id (map (\<lambda>v. if worker_id v = i then f v else v) vs) = map worker_id vs" for vs
    using assms by auto
  ultimately show "db_inv (snd (update_worker i f db))"
    by (auto simp: db_inv_def update_worker_def document_exists_def simp del: map_map)
qed

text \<open>Under the constraints a row is found by its id, and by its key.\<close>

lemma find_document_Some: "find_document i db = Some d \<Longrightarrow> d \<in> set (documents db) \<and> document_id d = i"
  by (auto simp: find_document_def find_Some_iff)

lemma find_by_key_Some: "find_by_key k db = Some d \<Longrightarrow> d \<in> set (documents db) \<and> idempotency_key d = k"
  by (auto simp: find_by_key_def find_Some_iff)

lemma find_by_key_None: "find_by_key k db = None \<longleftrightarrow> (\<forall>d \<in> set (documents db). idempotency_key d \<noteq> k)"
  by (auto simp: find_by_key_def find_None_iff)

lemma find_distinct:
  assumes "distinct (map f xs)" "x \<in> set xs" shows "find (\<lambda>y. f y = f x) xs = Some x"
  using assms by (induction xs) auto

lemma next_sequence_upper: "d \<in> set (documents db) \<Longrightarrow> doc_agency d = a \<Longrightarrow> sequence_number d < next_sequence a db"
proof -
  assume d: "d \<in> set (documents db)" "doc_agency d = a"
  let ?ns = "map sequence_number (filter (\<lambda>d. doc_agency d = a) (documents db))"
  have n: "sequence_number d \<in> set ?ns" using d by auto
  then have "sequence_number d \<le> Max (set ?ns)" by (intro Max_ge) auto
  moreover have "?ns \<noteq> []" using n by (metis empty_iff list.set(1))
  ultimately show ?thesis unfolding next_sequence_def Let_def by (simp only: if_False)
qed

end
