(* ===== verification/ApiRepository.thy ===== *)
theory ApiRepository imports Database begin

text \<open>
  \<^verbatim>\<open>api/src/repository.py\<close>: the operations of the API on the database.  Values that come from
  the request unchecked are still dynamically typed here, because asyncpg is what refuses them.
  \<^verbatim>\<open>create_or_get\<close> is one transaction, but its first statement does not lock, so two requests can
  both find a key unused; \<^verbatim>\<open>cog_select\<close> and \<^verbatim>\<open>cog_insert\<close> are its two halves, between which
  other requests may run.
\<close>

section \<open>Admission of a document\<close>

record new_document =
  nd_key :: pyval
  nd_agency :: pyval
  nd_filename :: string
  nd_object_key :: string
  nd_sha256 :: string
  nd_size :: int
  nd_audit_type :: pyval
  nd_report_year :: int
  nd_auditor_org :: pyval

record new_ids =
  ni_document :: uuid
  ni_event :: uuid
  ni_now :: int

definition cog_select :: "new_document \<Rightarrow> (database, doc_row option) op" where
  "cog_select nd db =
     (case pg_text (nd_key nd) of
        Inl e \<Rightarrow> (Inl e, db)
      | Inr None \<Rightarrow> (Inr None, db)
      | Inr (Some k) \<Rightarrow> (Inr (find_by_key k db), db))"

definition new_row :: "new_document \<Rightarrow> new_ids \<Rightarrow> string \<Rightarrow> string \<Rightarrow> string \<Rightarrow> int \<Rightarrow> string option \<Rightarrow> int \<Rightarrow> doc_row" where
  "new_row nd ids key agency audit year auditor sequence = \<lparr>
     document_id = ni_document ids,
     idempotency_key = key,
     doc_agency = agency,
     filename = Some (nd_filename nd),
     object_key = nd_object_key nd,
     doc_sha256 = nd_sha256 nd,
     doc_size = nd_size nd,
     doc_status = QUEUED,
     sequence_number = sequence,
     kafka_topic = None, kafka_partition = None, kafka_offset = None, doc_worker = None,
     processing_started_at = None, processing_completed_at = None, processing_duration_ms = None,
     doc_audit_type = audit,
     doc_report_year = Some year,
     doc_auditor_org = auditor,
     doc_retry_count = 0,
     error_code = None,
     created_at = ni_now ids,
     updated_at = ni_now ids\<rparr>"

definition submitted_event :: "new_ids \<Rightarrow> string \<Rightarrow> int \<Rightarrow> event_row" where
  "submitted_event ids agency sequence = \<lparr>
     event_id = ni_event ids,
     event_document = Some (ni_document ids),
     event_agency = Some agency,
     event_sequence = Some sequence,
     event_type = DOCUMENT_SUBMITTED,
     event_worker = None, event_partition = None, event_offset = None,
     event_severity = INFO,
     event_message = ''Document accepted and queued for Kafka publish'',
     event_metadata = PDict []\<rparr>"

definition cog_insert :: "new_document \<Rightarrow> new_ids \<Rightarrow> (database, doc_row) op" where
  "cog_insert nd ids =
     transaction
       (op_bind (op_lift (pg_not_null (pg_text (nd_key nd)))) (\<lambda>key.
        op_bind (op_lift (pg_not_null (pg_text (nd_agency nd)))) (\<lambda>agency.
        op_bind (op_lift (pg_not_null (pg_text (nd_audit_type nd)))) (\<lambda>audit.
        op_bind (op_lift (pg_int4 (nd_report_year nd))) (\<lambda>year.
        op_bind (op_lift (pg_text (nd_auditor_org nd))) (\<lambda>auditor.
        op_bind (\<lambda>db. (Inr (next_sequence agency db), db)) (\<lambda>sequence.
        let row = new_row nd ids key agency audit year auditor sequence in
        op_bind (insert_document row) (\<lambda>_.
        op_bind (insert_event (submitted_event ids agency sequence)) (\<lambda>_.
        op_return row)))))))))"

definition create_or_get :: "new_document \<Rightarrow> new_ids \<Rightarrow> (database, doc_row \<times> bool) op" where
  "create_or_get nd ids =
     transaction
       (op_bind (cog_select nd) (\<lambda>existing.
          case existing of
            Some row \<Rightarrow> op_return (row, True)
          | None \<Rightarrow> op_bind (cog_insert nd ids) (\<lambda>row. op_return (row, False))))"

section \<open>Updates, events and reads\<close>

record metadata_update =
  mu_topic :: "string option"
  mu_partition :: "int option"
  mu_offset :: "int option"
  mu_worker :: "string option"
  mu_status :: "doc_status option"
  mu_started_at :: "int option"
  mu_completed_at :: "int option"
  mu_duration_ms :: "int option"
  mu_retry_count :: "int option"
  mu_error_code :: "string option"

text \<open>The \<^verbatim>\<open>SET\<close> list holds the columns whose argument is given; the others keep their value.\<close>

definition given :: "'a option \<Rightarrow> 'a option \<Rightarrow> 'a option" where
  "given new old = (case new of None \<Rightarrow> old | Some v \<Rightarrow> Some v)"

definition apply_update :: "metadata_update \<Rightarrow> int \<Rightarrow> doc_row \<Rightarrow> doc_row" where
  "apply_update u now d = d\<lparr>
     kafka_topic := given (mu_topic u) (kafka_topic d),
     kafka_partition := given (mu_partition u) (kafka_partition d),
     kafka_offset := given (mu_offset u) (kafka_offset d),
     doc_worker := given (mu_worker u) (doc_worker d),
     doc_status := (case mu_status u of None \<Rightarrow> doc_status d | Some s \<Rightarrow> s),
     processing_started_at := given (mu_started_at u) (processing_started_at d),
     processing_completed_at := given (mu_completed_at u) (processing_completed_at d),
     processing_duration_ms := given (mu_duration_ms u) (processing_duration_ms d),
     doc_retry_count := (case mu_retry_count u of None \<Rightarrow> doc_retry_count d | Some n \<Rightarrow> n),
     error_code := given (mu_error_code u) (error_code d),
     updated_at := now\<rparr>"

definition update_document_metadata :: "string \<Rightarrow> metadata_update \<Rightarrow> int \<Rightarrow> (database, unit) op" where
  "update_document_metadata job u now =
     transaction (op_bind (op_lift (parse_uuid job)) (\<lambda>i. update_document i (apply_update u now)))"

record new_event =
  ne_document :: "string option"
  ne_agency :: pyval
  ne_sequence :: "int option"
  ne_type :: event_type
  ne_worker :: "string option"
  ne_partition :: "int option"
  ne_offset :: "int option"
  ne_severity :: severity
  ne_message :: string
  ne_metadata :: pyval

text \<open>An empty document id counts as none, as in \<^verbatim>\<open>uuid.UUID(document_id) if document_id else None\<close>.\<close>

definition opt_uuid :: "string option \<Rightarrow> uuid option py_result" where
  "opt_uuid s =
     (case s of
        None \<Rightarrow> Inr None
      | Some t \<Rightarrow> if t = [] then Inr None else py_bind (parse_uuid t) (\<lambda>u. Inr (Some u)))"

definition append_event :: "new_event \<Rightarrow> uuid \<Rightarrow> (database, unit) op" where
  "append_event ne fresh =
     op_bind (op_lift (opt_uuid (ne_document ne))) (\<lambda>doc.
     op_bind (op_lift (json_dumps False (py_or (ne_metadata ne) (PDict [])))) (\<lambda>_.
     op_bind (op_lift (pg_text (ne_agency ne))) (\<lambda>agency.
     insert_event \<lparr>
       event_id = fresh,
       event_document = doc,
       event_agency = agency,
       event_sequence = ne_sequence ne,
       event_type = ne_type ne,
       event_worker = ne_worker ne,
       event_partition = ne_partition ne,
       event_offset = ne_offset ne,
       event_severity = ne_severity ne,
       event_message = ne_message ne,
       event_metadata = py_or (ne_metadata ne) (PDict [])\<rparr>)))"

text \<open>\<^verbatim>\<open>SELECT d.*, r.result_json FROM documents d LEFT JOIN processing_results r\<close>\<close>

definition get_document :: "string \<Rightarrow> database \<Rightarrow> (doc_row \<times> pyval option) option py_result" where
  "get_document job db =
     py_bind (parse_uuid job) (\<lambda>i.
       Inr (map_option
              (\<lambda>d. (d, map_option result_json (find (\<lambda>r. result_document r = i) (results db))))
              (find_document i db)))"

definition status_count :: "doc_status \<Rightarrow> database \<Rightarrow> nat" where
  "status_count s db = length (filter (\<lambda>d. doc_status d = s) (documents db))"

definition all_statuses :: "doc_status list" where
  "all_statuses = [QUEUED, PROCESSING, COMPLETED, RETRYING, FAILED]"

record console_data =
  cd_counts :: "(doc_status \<times> nat) list"
  cd_documents :: "doc_row list"
  cd_workers :: "worker_row list"
  cd_events :: "event_row list"

text \<open>Counts of the statuses that occur, and the 25 newest rows of each table (events are appended
  in time order).\<close>

definition console_snapshot :: "database \<Rightarrow> console_data" where
  "console_snapshot db = \<lparr>
     cd_counts = map (\<lambda>s. (s, status_count s db)) (filter (\<lambda>s. 0 < status_count s db) all_statuses),
     cd_documents = take 25 (sort_key (\<lambda>d. - created_at d) (documents db)),
     cd_workers = take 25 (sort_key (\<lambda>w. - last_heartbeat w) (workers db)),
     cd_events = take 25 (rev (events db))\<rparr>"

section \<open>Schema migration\<close>

definition required_document_columns :: "(string \<times> string) list" where
  "required_document_columns =
     [(''kafka_topic'', ''TEXT''), (''kafka_partition'', ''INTEGER''), (''kafka_offset'', ''BIGINT''),
      (''worker_id'', ''TEXT''), (''processing_started_at'', ''TIMESTAMPTZ''),
      (''processing_completed_at'', ''TIMESTAMPTZ''), (''processing_duration_ms'', ''INTEGER'')]"

definition required_worker_columns :: "(string \<times> string) list" where
  "required_worker_columns =
     [(''last_heartbeat'', ''TIMESTAMPTZ''), (''processing_rate'', ''FLOAT''),
      (''failed_jobs'', ''INTEGER''), (''retry_count'', ''INTEGER'')]"

text \<open>\<^verbatim>\<open>ALTER TABLE ... ADD COLUMN IF NOT EXISTS\<close> for every required column not yet there.\<close>

definition add_missing :: "(string \<times> string) list \<Rightarrow> (string \<times> string) list \<Rightarrow> (string \<times> string) list" where
  "add_missing required columns =
     columns @ filter (\<lambda>c. fst c \<notin> fst ` set columns) required"

definition ensure_schema ::
  "(string \<times> string) list \<times> (string \<times> string) list \<Rightarrow> (string \<times> string) list \<times> (string \<times> string) list" where
  "ensure_schema tables =
     (add_missing required_document_columns (fst tables), add_missing required_worker_columns (snd tables))"

lemma add_missing_complete: "fst ` set required \<subseteq> fst ` set (add_missing required columns)"
  by (auto simp: add_missing_def image_iff)

lemma add_missing_idem: "add_missing required (add_missing required columns) = add_missing required columns"
  using add_missing_complete [of required columns]
  by (force simp: add_missing_def filter_empty_conv)

section \<open>The constraints are kept\<close>

lemma keeps_cog_select [op_keeps]: "keeps P (cog_select nd)"
  by (rule keepsI) (auto simp: cog_select_def split: sum.split option.split)

lemma keeps_option_case [op_keeps]:
  "keeps P m \<Longrightarrow> (\<And>v. keeps P (f v)) \<Longrightarrow> keeps P (case x of None \<Rightarrow> m | Some v \<Rightarrow> f v)"
  by (simp split: option.split)

lemma keeps_read [op_keeps]: "keeps P (\<lambda>db. (f db, db))"
  by (simp add: keeps_def)

lemma keeps_let [op_keeps]: "keeps P (f v) \<Longrightarrow> keeps P (let x = v in f x)"
  by simp

lemma keeps_cog_insert [op_keeps]: "keeps db_inv (cog_insert nd ids)"
  unfolding cog_insert_def Let_def by (intro op_keeps)

lemma keeps_create_or_get [op_keeps]: "keeps db_inv (create_or_get nd ids)"
  unfolding create_or_get_def by (intro op_keeps)

lemma keeps_identity_apply_update: "keeps_identity (apply_update u now)"
  by (simp add: keeps_identity_def apply_update_def)

lemma keeps_update_document_metadata [op_keeps]: "keeps db_inv (update_document_metadata job u now)"
  unfolding update_document_metadata_def by (intro op_keeps keeps_identity_apply_update)

lemma keeps_append_event [op_keeps]: "keeps db_inv (append_event ne fresh)"
  unfolding append_event_def by (intro op_keeps)

section \<open>Sequence numbers\<close>

definition agency_sequence :: "string \<Rightarrow> database \<Rightarrow> int list" where
  "agency_sequence a db = map sequence_number (filter (\<lambda>d. doc_agency d = a) (documents db))"

text \<open>Every agency's documents are numbered 1, 2, 3, ... in the order of their insertion.\<close>

definition sequences_dense :: "database \<Rightarrow> bool" where
  "sequences_dense db \<longleftrightarrow> (\<forall>a. agency_sequence a db = map int [1 ..< Suc (length (agency_sequence a db))])"

lemma next_sequence_dense:
  assumes "sequences_dense db" shows "next_sequence a db = int (Suc (length (agency_sequence a db)))"
proof (cases "agency_sequence a db = []")
  case True
  then show ?thesis by (simp add: next_sequence_def flip: agency_sequence_def)
next
  case False
  let ?n = "length (agency_sequence a db)"
  have "set (agency_sequence a db) = int ` {1 ..< Suc ?n}"
    using assms by (metis sequences_dense_def set_map set_upt)
  moreover have "Max (int ` {1 ..< Suc ?n}) = int ?n"
    using False by (intro Max_eqI) (auto intro!: imageI simp: Suc_leI)
  ultimately show ?thesis using False by (simp add: next_sequence_def flip: agency_sequence_def)
qed

lemma insert_document_Inr:
  "fst (insert_document d db) = Inr () \<Longrightarrow> snd (insert_document d db) = db\<lparr>documents := documents db @ [d]\<rparr>"
  by (auto simp: insert_document_def split: if_splits)

lemma documents_insert_event [simp]: "documents (snd (insert_event e db)) = documents db"
  by (simp add: insert_event_def split: option.split)

lemma pg_not_null_text: "pg_not_null (pg_text v) = Inr x \<Longrightarrow> v = PStr x"
  by (cases v) (auto simp: pg_not_null_def pg_text_def split: if_splits)

text \<open>The insertion succeeds or leaves the database as it was; when it succeeds, the row it
  returns is the last one, with a fresh key and the agency's next number.\<close>

lemma cog_insert_cases:
  obtains e where "cog_insert nd ids db = (Inl e, db)"
  | row db' where "cog_insert nd ids db = (Inr row, db')"
      "documents db' = documents db @ [row]"
      "sequence_number row = next_sequence (doc_agency row) db"
      "find_by_key (idempotency_key row) db = None"
      "nd_key nd = PStr (idempotency_key row)" "nd_agency nd = PStr (doc_agency row)"
      "document_id row = ni_document ids" "doc_status row = QUEUED"
      "object_key row = nd_object_key nd" "doc_sha256 row = nd_sha256 nd"
proof (cases "cog_insert nd ids db")
  case (Pair r db')
  show ?thesis
  proof (cases r)
    case (Inl e)
    with Pair have "transaction m db = (Inl e, db') \<Longrightarrow> db' = db" for m :: "(database, doc_row) op"
      by (simp add: transaction_Inl)
    then show ?thesis using Pair Inl that(1) by (auto simp: cog_insert_def)
  next
    case (Inr row)
    with Pair obtain key agency audit year auditor db1 db2 where
      ps: "pg_not_null (pg_text (nd_key nd)) = Inr key" "pg_not_null (pg_text (nd_agency nd)) = Inr agency"
      and row: "row = new_row nd ids key agency audit year auditor (next_sequence agency db)"
      and ins: "insert_document row db = (Inr (), db1)"
      and ev: "insert_event (submitted_event ids agency (next_sequence agency db)) db1 = (Inr (), db')"
      unfolding cog_insert_def Let_def op_Inr by (auto simp: op_Inr)
    have "documents db1 = documents db @ [row]" "find_by_key (idempotency_key row) db = None"
      using ins by (auto simp: insert_document_def find_by_key_None split: if_splits)
    moreover have "documents db' = documents db1" using documents_insert_event ev by (metis snd_conv)
    moreover have "nd_key nd = PStr key" "nd_agency nd = PStr agency" using ps by (auto dest: pg_not_null_text)
    ultimately show ?thesis using Pair Inr row by (intro that(2) [of row db']) (simp_all add: new_row_def)
  qed
qed

lemma sequences_dense_snoc:
  assumes "sequences_dense db" "documents db' = documents db @ [row]"
    "sequence_number row = next_sequence (doc_agency row) db"
  shows "sequences_dense db'"
  unfolding sequences_dense_def
proof
  fix a
  have "agency_sequence a db' = agency_sequence a db @ (if doc_agency row = a then [sequence_number row] else [])"
    using assms(2) by (simp add: agency_sequence_def)
  moreover have "agency_sequence a db = map int [1 ..< Suc (length (agency_sequence a db))]"
    using assms(1) unfolding sequences_dense_def by blast
  ultimately show "agency_sequence a db' = map int [1 ..< Suc (length (agency_sequence a db'))]"
    using assms(3) next_sequence_dense [OF assms(1), of a] by (cases "doc_agency row = a") simp_all
qed

lemma keeps_dense_cog_insert: "keeps sequences_dense (cog_insert nd ids)"
proof (rule keepsI)
  fix db assume "sequences_dense db"
  then show "sequences_dense (snd (cog_insert nd ids db))"
    by (cases rule: cog_insert_cases [of nd ids db]) (auto intro: sequences_dense_snoc)
qed

end
