(* ===== verification/ApiConfig.thy ===== *)
theory ApiConfig imports PyVal begin

text \<open>
  The API's settings (\<^verbatim>\<open>api/src/config.py\<close>): the capacity, limiter, broker and storage constants
  that the admission path reads.  The environment can override each of them, so the components
  take the record as an argument and \<^verbatim>\<open>default_settings\<close> is its value in the source.
\<close>

record settings =
  SERVICE_NAME :: string
  ENVIRONMENT :: string
  BURST_VOLUME :: int
  BURST_WINDOW_SECONDS :: pyfloat
  TARGET_P95_LATENCY_SECONDS :: pyfloat
  PEAK_BURST_COEFFICIENT :: pyfloat
  MAX_CONCURRENT_REQUESTS :: int
  ADAPTIVE_LIMITER_ENABLED :: bool
  ADAPTIVE_RTT_TARGET_MS :: pyfloat
  ADAPTIVE_MIN_LIMIT :: int
  ADAPTIVE_MAX_LIMIT :: int
  ADAPTIVE_AIMD_ALPHA :: pyfloat
  ADAPTIVE_AIMD_BETA :: pyfloat
  RATE_LIMIT_AGENCY_BURST :: int
  RATE_LIMIT_AGENCY_RATE :: pyfloat
  KAFKA_TOPIC_INGEST :: string
  KAFKA_TOPIC_DLQ :: string
  KAFKA_NUM_PARTITIONS :: int
  MINIO_BUCKET :: string
  STORAGE_DIR :: string
  MAX_PAYLOAD_BYTES :: int

definition default_settings :: settings where
  "default_settings = \<lparr>
     SERVICE_NAME = ''aegis-ingest-api'',
     ENVIRONMENT = ''production'',
     BURST_VOLUME = 5000,
     BURST_WINDOW_SECONDS = Fl 30,
     TARGET_P95_LATENCY_SECONDS = Fl (150/1000),
     PEAK_BURST_COEFFICIENT = Fl 2,
     MAX_CONCURRENT_REQUESTS = 250,
     ADAPTIVE_LIMITER_ENABLED = True,
     ADAPTIVE_RTT_TARGET_MS = Fl 100,
     ADAPTIVE_MIN_LIMIT = 25,
     ADAPTIVE_MAX_LIMIT = 500,
     ADAPTIVE_AIMD_ALPHA = Fl 2,
     ADAPTIVE_AIMD_BETA = Fl (8/10),
     RATE_LIMIT_AGENCY_BURST = 100,
     RATE_LIMIT_AGENCY_RATE = Fl 20,
     KAFKA_TOPIC_INGEST = ''audit-reports-ingest'',
     KAFKA_TOPIC_DLQ = ''audit-reports-dlq'',
     KAFKA_NUM_PARTITIONS = 16,
     MINIO_BUCKET = ''audit-documents'',
     STORAGE_DIR = ''/data/storage'',
     MAX_PAYLOAD_BYTES = 25 * 1024 * 1024\<rparr>"

end
