(* ===== verification/Limiter.thy ===== *)
theory Limiter imports ApiConfig begin

text \<open>
  The adaptive concurrency limiter of \<^verbatim>\<open>api/src/limiter.py\<close>: a count of requests in flight under
  a ceiling that grows by \<^verbatim>\<open>alpha\<close> while the smoothed round-trip time is on target and shrinks by
  the factor \<^verbatim>\<open>beta\<close> when it is not.  Both operations hold the limiter's lock and never await
  inside it, so each is one atomic step.
\<close>

section \<open>State and operations\<close>

record limiter =
  min_limit :: int
  max_limit :: int
  target_rtt_ms :: pyfloat
  alpha :: pyfloat
  beta :: pyfloat
  current_limit :: pyfloat
  in_flight :: int
  smoothed_rtt_ms :: pyfloat
  ema_weight :: pyfloat

definition new_limiter :: "int \<Rightarrow> int \<Rightarrow> pyfloat \<Rightarrow> pyfloat \<Rightarrow> pyfloat \<Rightarrow> limiter" where
  "new_limiter lo hi target a b = \<lparr>
     min_limit = lo,
     max_limit = hi,
     target_rtt_ms = target,
     alpha = a,
     beta = b,
     current_limit = float_of_int (lo * 2),
     in_flight = 0,
     smoothed_rtt_ms = target * Fl (1/2),
     ema_weight = Fl (1/10)\<rparr>"

definition adaptive_limiter :: "settings \<Rightarrow> limiter" where
  "adaptive_limiter cfg =
     new_limiter (ADAPTIVE_MIN_LIMIT cfg) (ADAPTIVE_MAX_LIMIT cfg) (ADAPTIVE_RTT_TARGET_MS cfg)
       (ADAPTIVE_AIMD_ALPHA cfg) (ADAPTIVE_AIMD_BETA cfg)"

definition retry_hint :: "limiter \<Rightarrow> pyfloat" where
  "retry_hint l = py_round (max (Fl (5/100)) ((smoothed_rtt_ms l / Fl 1000) * Fl (15/10))) 2"

definition acquire :: "limiter \<Rightarrow> (bool \<times> pyfloat option) \<times> limiter" where
  "acquire l =
     (if in_flight l < py_floor (current_limit l)
      then ((True, None), l\<lparr>in_flight := in_flight l + 1\<rparr>)
      else ((False, Some (retry_hint l)), l))"

definition smooth :: "limiter \<Rightarrow> pyfloat \<Rightarrow> pyfloat" where
  "smooth l rtt = (1 - ema_weight l) * smoothed_rtt_ms l + ema_weight l * rtt"

definition release :: "pyfloat \<Rightarrow> limiter \<Rightarrow> limiter" where
  "release rtt l =
     (let s = smooth l rtt;
          l1 = l\<lparr>in_flight := max 0 (in_flight l - 1), smoothed_rtt_ms := s\<rparr>
      in if s \<le> target_rtt_ms l
         then l1\<lparr>current_limit := min (float_of_int (max_limit l)) (current_limit l + alpha l)\<rparr>
         else l1\<lparr>current_limit := max (float_of_int (min_limit l)) (current_limit l * beta l)\<rparr>)"

record limiter_stats =
  st_current_limit :: pyfloat
  st_in_flight :: int
  st_smoothed_rtt_ms :: pyfloat
  st_target_rtt_ms :: pyfloat
  st_utilization_pct :: pyfloat

definition get_stats :: "limiter \<Rightarrow> limiter_stats" where
  "get_stats l = \<lparr>
     st_current_limit = py_round (current_limit l) 2,
     st_in_flight = in_flight l,
     st_smoothed_rtt_ms = py_round (smoothed_rtt_ms l) 2,
     st_target_rtt_ms = target_rtt_ms l,
     st_utilization_pct =
       py_round ((float_of_int (in_flight l) / max 1 (current_limit l)) * Fl 100) 1\<rparr>"

section \<open>Well-formedness and its preservation\<close>

text \<open>The parameters a limiter is meant to have, and the bounds its state keeps.\<close>

definition limiter_params :: "limiter \<Rightarrow> bool" where
  "limiter_params l \<longleftrightarrow>
     0 \<le> min_limit l \<and> min_limit l \<le> max_limit l \<and> max_limit l \<le> 2 ^ 53 \<and>
     0 \<le> alpha l \<and> 0 \<le> beta l \<and> beta l \<le> 1 \<and>
     0 \<le> ema_weight l \<and> ema_weight l \<le> 1"

definition limiter_inv :: "limiter \<Rightarrow> bool" where
  "limiter_inv l \<longleftrightarrow>
     limiter_params l \<and>
     float_of_int (min_limit l) \<le> current_limit l \<and> current_limit l \<le> float_of_int (max_limit l) \<and>
     0 \<le> in_flight l \<and> in_flight l \<le> max_limit l \<and>
     0 \<le> smoothed_rtt_ms l"

lemma float_of_int_mono: "m \<le> n \<Longrightarrow> float_of_int m \<le> float_of_int n"
  by (simp add: float_of_int_def le_fval fl_mono)

lemma float_of_int_nonneg: "0 \<le> n \<Longrightarrow> 0 \<le> float_of_int n"
  by (simp add: float_of_int_def le_fval fl_nonneg)

lemma limiter_inv_new:
  assumes "0 \<le> lo" "2 * lo \<le> hi" "hi \<le> 2 ^ 53" "0 \<le> target" "0 \<le> a" "0 \<le> b" "b \<le> 1"
  shows "limiter_inv (new_limiter lo hi target a b)"
proof -
  have w: "0 \<le> Fl (1/10)" "Fl (1/10) \<le> 1" "0 \<le> Fl (1/2)" by code_simp+
  show ?thesis
    using assms w pyf.mul_nonneg [OF assms(4) w(3)]
    by (auto simp: limiter_inv_def limiter_params_def new_limiter_def intro!: float_of_int_mono)
qed

lemma acquire_inv:
  assumes "limiter_inv l" shows "limiter_inv (snd (acquire l))"
proof -
  have "py_floor (current_limit l) \<le> py_floor (float_of_int (max_limit l))"
    using assms by (intro py_floor_mono) (simp add: limiter_inv_def)
  also have "\<dots> = max_limit l"
    using assms by (intro py_floor_float_of_int) (simp add: limiter_inv_def limiter_params_def)
  finally show ?thesis using assms by (auto simp: acquire_def limiter_inv_def limiter_params_def)
qed

lemma smooth_nonneg: "limiter_inv l \<Longrightarrow> 0 \<le> rtt \<Longrightarrow> 0 \<le> smooth l rtt"
  unfolding smooth_def limiter_inv_def limiter_params_def
  by (intro pyf.add_nonneg pyf.mul_nonneg pyf.sub_nonneg) auto

lemma release_inv:
  assumes "limiter_inv l" "0 \<le> rtt" shows "limiter_inv (release rtt l)"
proof -
  let ?lo = "float_of_int (min_limit l)" and ?hi = "float_of_int (max_limit l)" and ?x = "current_limit l"
  have p: "?lo \<le> ?hi" "?lo \<le> ?x" "?x \<le> ?hi" "0 \<le> alpha l" "0 \<le> beta l" "beta l \<le> 1" "0 \<le> ?lo"
    using assms by (auto simp: limiter_inv_def limiter_params_def intro: float_of_int_mono float_of_int_nonneg)
  have "0 \<le> ?x" using p by order
  then show ?thesis
    using assms smooth_nonneg [OF assms] pyf.capped_increase [OF p(1,2,4)]
      pyf.floored_decrease [OF p(1) _ p(3,5,6)]
    by (auto simp: release_def Let_def limiter_inv_def limiter_params_def)
qed

section \<open>What each operation does\<close>

lemma acquire_admitted_iff: "fst (fst (acquire l)) \<longleftrightarrow> in_flight l < py_floor (current_limit l)"
  by (simp add: acquire_def)

lemma acquire_cases:
  obtains "in_flight l < py_floor (current_limit l)" "acquire l = ((True, None), l\<lparr>in_flight := in_flight l + 1\<rparr>)"
  | "py_floor (current_limit l) \<le> in_flight l" "acquire l = ((False, Some (retry_hint l)), l)"
  by (cases "in_flight l < py_floor (current_limit l)") (auto simp: acquire_def)

lemma retry_hint_min: "Fl (5/100) \<le> retry_hint l"
proof -
  have "Fl (5/100) = py_round (Fl (5/100)) 2" by code_simp
  also have "\<dots> \<le> retry_hint l" unfolding retry_hint_def by (rule py_round_mono) simp
  finally show ?thesis .
qed

lemma release_frame [simp]:
  "min_limit (release rtt l) = min_limit l" "max_limit (release rtt l) = max_limit l"
  "target_rtt_ms (release rtt l) = target_rtt_ms l" "alpha (release rtt l) = alpha l"
  "beta (release rtt l) = beta l" "ema_weight (release rtt l) = ema_weight l"
  "in_flight (release rtt l) = max 0 (in_flight l - 1)" "smoothed_rtt_ms (release rtt l) = smooth l rtt"
  by (simp_all add: release_def Let_def)

lemma acquire_frame [simp]:
  "min_limit (snd (acquire l)) = min_limit l" "max_limit (snd (acquire l)) = max_limit l"
  "current_limit (snd (acquire l)) = current_limit l" "smoothed_rtt_ms (snd (acquire l)) = smoothed_rtt_ms l"
  "target_rtt_ms (snd (acquire l)) = target_rtt_ms l" "alpha (snd (acquire l)) = alpha l"
  "ema_weight (snd (acquire l)) = ema_weight l"
  by (simp_all add: acquire_def)

text \<open>On target the ceiling never falls, off target it never rises.\<close>

lemma release_on_target:
  "limiter_inv l \<Longrightarrow> smooth l rtt \<le> target_rtt_ms l \<Longrightarrow> current_limit l \<le> current_limit (release rtt l)"
  using pyf.add_increases [of "alpha l" "current_limit l"]
  by (simp add: release_def Let_def limiter_inv_def limiter_params_def)

lemma release_off_target:
  assumes "limiter_inv l" "\<not> smooth l rtt \<le> target_rtt_ms l"
  shows "current_limit (release rtt l) \<le> current_limit l"
proof -
  have "0 \<le> float_of_int (min_limit l)" using assms by (intro float_of_int_nonneg) (simp add: limiter_inv_def limiter_params_def)
  then have "0 \<le> current_limit l" using assms by (auto simp: limiter_inv_def)
  then show ?thesis using assms pyf.mul_decreases [of "current_limit l" "beta l"]
    by (simp add: release_def Let_def limiter_inv_def limiter_params_def)
qed

section \<open>Histories of calls\<close>

text \<open>
  The requests' calls in the order the event loop runs them.  \<^verbatim>\<open>outstanding\<close> counts the admitted
  calls not yet released; a history is balanced when every release belongs to an admission.
\<close>

datatype limiter_call = Acquire | Release pyfloat

fun limiter_step :: "limiter_call \<Rightarrow> limiter \<times> nat \<Rightarrow> limiter \<times> nat" where
  "limiter_step Acquire (l, n) = (let r = acquire l in (snd r, if fst (fst r) then Suc n else n))"
| "limiter_step (Release rtt) (l, n) = (release rtt l, n - 1)"

fun limiter_run :: "limiter_call list \<Rightarrow> limiter \<times> nat \<Rightarrow> limiter \<times> nat" where
  "limiter_run [] s = s"
| "limiter_run (c # cs) s = limiter_run cs (limiter_step c s)"

fun balanced :: "limiter_call list \<Rightarrow> limiter \<times> nat \<Rightarrow> bool" where
  "balanced [] s = True"
| "balanced (Acquire # cs) s = balanced cs (limiter_step Acquire s)"
| "balanced (Release rtt # cs) s = (0 \<le> rtt \<and> 0 < snd s \<and> balanced cs (limiter_step (Release rtt) s))"

definition tracks :: "limiter \<times> nat \<Rightarrow> bool" where
  "tracks s \<longleftrightarrow> limiter_inv (fst s) \<and> in_flight (fst s) = int (snd s)"

lemma limiter_step_acquire_tracks: "tracks s \<Longrightarrow> tracks (limiter_step Acquire s)"
  by (cases s, cases "fst s" rule: acquire_cases)
     (auto simp: tracks_def dest: acquire_inv)

lemma limiter_step_release_tracks:
  "tracks s \<Longrightarrow> 0 \<le> rtt \<Longrightarrow> 0 < snd s \<Longrightarrow> tracks (limiter_step (Release rtt) s)"
  by (cases s) (auto simp: tracks_def release_inv)

lemma limiter_run_tracks: "balanced cs s \<Longrightarrow> tracks s \<Longrightarrow> tracks (limiter_run cs s)"
proof (induction cs arbitrary: s)
  case (Cons c cs)
  then show ?case
    by (cases c) (auto simp: limiter_step_acquire_tracks limiter_step_release_tracks)
qed simp

lemma limiter_run_max [simp]: "max_limit (fst (limiter_run cs s)) = max_limit (fst s)"
proof (induction cs arbitrary: s)
  case (Cons c cs)
  have "max_limit (fst (limiter_step c s)) = max_limit (fst s)" by (cases c; cases s) (auto simp: Let_def)
  then show ?case using Cons by simp
qed simp

lemma limiter_run_append: "limiter_run (cs @ ds) s = limiter_run ds (limiter_run cs s)"
  by (induction cs arbitrary: s) auto

section \<open>Properties of the limiter\<close>

text \<open>C11: along any history of acquisitions and releases in which every release belongs to an
  admission, the limiter counts exactly the requests outstanding, never more than its maximum, and
  its ceiling stays between its minimum and its maximum.\<close>

theorem limiter_stays_in_bounds:
  assumes "limiter_inv l" "in_flight l = 0" "balanced cs (l, 0)" "limiter_run cs (l, 0) = (l', n)"
  shows "in_flight l' = int n \<and> int n \<le> max_limit l \<and>
    float_of_int (min_limit l') \<le> current_limit l' \<and> current_limit l' \<le> float_of_int (max_limit l)"
proof -
  have "tracks (l', n)" using limiter_run_tracks [OF assms(3)] assms(1,2,4) by (simp add: tracks_def)
  moreover have "max_limit l' = max_limit l" using limiter_run_max [of cs "(l, 0)"] assms(4) by simp
  ultimately show ?thesis by (auto simp: tracks_def limiter_inv_def)
qed

lemma default_limiter_inv: "limiter_inv (adaptive_limiter default_settings)"
proof -
  have "0 \<le> Fl 100" "0 \<le> Fl 2" "0 \<le> Fl (8/10)" "Fl (8/10) \<le> 1" by code_simp+
  then show ?thesis
    unfolding adaptive_limiter_def default_settings_def by (intro limiter_inv_new) simp_all
qed

theorem limiter_stays_in_bounds_witness:
  "\<exists>l'. limiter_run [Acquire, Acquire, Release 0] (adaptive_limiter default_settings, 0) = (l', 1) \<and> in_flight l' = int 1"
proof -
  let ?l = "adaptive_limiter default_settings"
  have a: "acquire ?l = ((True, None), ?l\<lparr>in_flight := 1\<rparr>)"
    "acquire (?l\<lparr>in_flight := 1\<rparr>) = ((True, None), ?l\<lparr>in_flight := 2\<rparr>)"
    by (simp_all add: acquire_def adaptive_limiter_def new_limiter_def default_settings_def py_floor_float_of_int)
  have z: "in_flight ?l = 0" by (simp add: adaptive_limiter_def new_limiter_def)
  obtain l' where r: "limiter_run [Acquire, Acquire, Release 0] (?l, 0) = (l', 1)" by (simp add: a Let_def)
  have "balanced [Acquire, Acquire, Release 0] (?l, 0)" by (simp add: a Let_def)
  from limiter_stays_in_bounds [OF default_limiter_inv z this r] r show ?thesis by blast
qed

lemma pyfloat_mult_left_mono: "a \<le> b \<Longrightarrow> 0 \<le> c \<Longrightarrow> c * a \<le> (c :: pyfloat) * b"
  by (simp add: le_fval fl_mono mult_left_mono)

lemma pyfloat_add_mono: "a \<le> b \<Longrightarrow> c \<le> d \<Longrightarrow> a + c \<le> b + (d :: pyfloat)"
  by (simp add: le_fval fl_mono add_mono)

text \<open>The default limiter under requests that one after the other come in and take at most the target.\<close>

definition healthy :: "pyfloat list \<Rightarrow> limiter_call list" where
  "healthy rtts = concat (map (\<lambda>r. [Acquire, Release r]) rtts)"

definition healthy_state :: "nat \<Rightarrow> limiter \<Rightarrow> bool" where
  "healthy_state n l \<longleftrightarrow>
     current_limit l = float_of_int (min 500 (50 + 2 * int n)) \<and> in_flight l = 0 \<and>
     max_limit l = 500 \<and> alpha l = Fl 2 \<and> target_rtt_ms l = Fl 100 \<and> ema_weight l = Fl (1/10) \<and>
     smoothed_rtt_ms l \<le> Fl 100"

lemma healthy_smooth:
  assumes "healthy_state n l" "r \<le> Fl 100" shows "smooth l r \<le> Fl 100"
proof -
  have w: "0 \<le> 1 - Fl (1/10)" "0 \<le> Fl (1/10)" by code_simp+
  have "smooth l r \<le> (1 - Fl (1/10)) * Fl 100 + Fl (1/10) * Fl 100"
    using assms unfolding smooth_def healthy_state_def
    by (auto intro!: pyfloat_add_mono pyfloat_mult_left_mono w)
  also have "\<dots> \<le> Fl 100" by code_simp
  finally show ?thesis .
qed

lemma float_of_int_plus: "0 \<le> m \<Longrightarrow> m \<le> 2 ^ 50 \<Longrightarrow> float_of_int m + Fl 2 = float_of_int (m + 2)"
proof -
  assume m: "0 \<le> m" "m \<le> 2 ^ 50"
  have "Fl 2 = float_of_int 2" by code_simp
  then show ?thesis using m fl_of_int [of m] fl_of_int [of 2] by (simp add: pyfloat_eq_iff float_of_int_def)
qed

lemma healthy_cycle:
  assumes "healthy_state n l" "r \<le> Fl 100"
  shows "\<exists>l'. limiter_run [Acquire, Release r] (l, 0) = (l', 0) \<and> healthy_state (Suc n) l'"
proof -
  have "py_floor (current_limit l) = min 500 (50 + 2 * int n)"
    using assms(1) by (simp add: healthy_state_def py_floor_float_of_int)
  then have a: "acquire l = ((True, None), l\<lparr>in_flight := 1\<rparr>)"
    using assms(1) by (simp add: acquire_def healthy_state_def)
  let ?l' = "release r (l\<lparr>in_flight := 1\<rparr>)"
  have s: "smooth (l\<lparr>in_flight := 1\<rparr>) r \<le> Fl 100"
    using healthy_smooth [of n "l\<lparr>in_flight := 1\<rparr>" r] assms healthy_smooth [OF assms] by (simp add: smooth_def)
  have lim: "min (float_of_int 500) (float_of_int (min 500 (50 + 2 * int n)) + Fl 2) = float_of_int (min 500 (50 + 2 * int (Suc n)))"
  proof -
    have "float_of_int (min 500 (50 + 2 * int n)) + Fl 2 = float_of_int (min 500 (50 + 2 * int n) + 2)"
      by (rule float_of_int_plus) auto
    then show ?thesis
      by (auto simp: min_def le_fval fval_float_of_int)
  qed
  have "healthy_state (Suc n) ?l'"
    using assms(1) s lim by (simp add: healthy_state_def release_def Let_def)
  then show ?thesis by (simp add: a Let_def)
qed

lemma healthy_run:
  assumes "healthy_state n l" "\<forall>r \<in> set rtts. r \<le> Fl 100"
  shows "\<exists>l'. limiter_run (healthy rtts) (l, 0) = (l', 0) \<and> healthy_state (n + length rtts) l'"
  using assms
proof (induction rtts arbitrary: n l)
  case Nil
  then show ?case by (simp add: healthy_def)
next
  case (Cons r rtts)
  obtain l' where l': "limiter_run [Acquire, Release r] (l, 0) = (l', 0)" "healthy_state (Suc n) l'"
    using healthy_cycle [of n l r] Cons.prems by auto
  have "healthy (r # rtts) = [Acquire, Release r] @ healthy rtts" by (simp add: healthy_def)
  then show ?case using Cons.IH [OF l'(2)] Cons.prems(2) l'(1) by (simp only: limiter_run_append) auto
qed

lemma healthy_start: "healthy_state 0 (adaptive_limiter default_settings)"
proof -
  have "Fl 100 * Fl (1/2) \<le> Fl 100" by code_simp
  then show ?thesis by (simp add: healthy_state_def adaptive_limiter_def new_limiter_def default_settings_def)
qed

text \<open>Traffic on target opens the limiter: from its start at 50 the default ceiling grows by 2 with
  every request that took at most 100 ms, up to 500 and no further.\<close>

theorem healthy_traffic_opens:
  assumes "\<forall>r \<in> set rtts. r \<le> Fl 100"
  shows "current_limit (fst (limiter_run (healthy rtts) (adaptive_limiter default_settings, 0))) =
    float_of_int (min 500 (50 + 2 * int (length rtts)))"
  using healthy_run [OF healthy_start assms] by (auto simp: healthy_state_def)

theorem healthy_traffic_opens_witness:
  "current_limit (fst (limiter_run (healthy [Fl 80, Fl 100, Fl 20]) (adaptive_limiter default_settings, 0))) = float_of_int 56"
proof -
  have "\<forall>r \<in> set [Fl 80, Fl 100, Fl 20]. r \<le> Fl 100" by code_simp
  from healthy_traffic_opens [OF this] show ?thesis by simp
qed

lemma acquire_many:
  assumes "int n + in_flight l \<le> py_floor (current_limit l)" "0 \<le> in_flight l"
  shows "limiter_run (replicate n Acquire) (l, m) = (l\<lparr>in_flight := in_flight l + int n\<rparr>, m + n)"
  using assms
proof (induction n arbitrary: l m)
  case (Suc n)
  then have "acquire l = ((True, None), l\<lparr>in_flight := in_flight l + 1\<rparr>)" by (simp add: acquire_def)
  then show ?case using Suc.IH [of "l\<lparr>in_flight := in_flight l + 1\<rparr>" "Suc m"] Suc.prems by (simp add: Let_def)
qed simp

text \<open>C34: the documented ceiling of 250 concurrent requests is not the limiter's: after 225 fast
  requests it lets 500 run at once.\<close>

theorem documented_ceiling_is_exceeded:
  "in_flight (fst (limiter_run (healthy (replicate 225 (Fl 50)) @ replicate 500 Acquire)
       (adaptive_limiter default_settings, 0))) = 500 \<and> MAX_CONCURRENT_REQUESTS default_settings = 250"
proof -
  let ?s = "limiter_run (healthy (replicate 225 (Fl 50))) (adaptive_limiter default_settings, 0)"
  have "Fl 50 \<le> Fl 100" by code_simp
  then have l: "\<forall>r \<in> set (replicate 225 (Fl 50)). r \<le> Fl 100" by simp
  obtain l' where s: "?s = (l', 0)" "healthy_state (0 + 225) l'"
    using healthy_run [OF healthy_start l] by auto
  have "current_limit l' = float_of_int 500" "in_flight l' = 0" using s(2) by (simp_all add: healthy_state_def)
  then show ?thesis
    using s(1) acquire_many [of 500 l' 0]
    by (simp add: limiter_run_append py_floor_float_of_int default_settings_def)
qed



end
