(* ===== verification/TokenBucket.thy ===== *)
theory TokenBucket imports ApiConfig begin

text \<open>
  The per-agency token bucket of \<^verbatim>\<open>api/src/limiter.py\<close>.  The clock reading is an argument;
  the check holds the limiter's lock and never awaits inside it, so it is one atomic step.  The
  agency is whatever value the request carried: an unhashable one raises.
\<close>

section \<open>State and operation\<close>

record bucket =
  tokens :: pyfloat
  last_refill :: pyfloat

record token_limiter =
  burst_capacity :: int
  refill_rate :: pyfloat
  local_buckets :: "pykey \<rightharpoonup> bucket"

definition token_bucket_limiter :: "settings \<Rightarrow> token_limiter" where
  "token_bucket_limiter cfg = \<lparr>
     burst_capacity = RATE_LIMIT_AGENCY_BURST cfg,
     refill_rate = RATE_LIMIT_AGENCY_RATE cfg,
     local_buckets = Map.empty\<rparr>"

definition put_bucket :: "pykey \<Rightarrow> bucket \<Rightarrow> token_limiter \<Rightarrow> token_limiter" where
  "put_bucket k b t = t\<lparr>local_buckets := (local_buckets t)(k \<mapsto> b)\<rparr>"

definition refilled :: "token_limiter \<Rightarrow> bucket \<Rightarrow> pyfloat \<Rightarrow> pyfloat" where
  "refilled t b now =
     (let elapsed = max 0 (now - last_refill b)
      in min (float_of_int (burst_capacity t)) (tokens b + elapsed * refill_rate t))"

definition check_key :: "pyfloat \<Rightarrow> pykey \<Rightarrow> token_limiter \<Rightarrow> (bool \<times> pyfloat option) py_result \<times> token_limiter" where
  "check_key now k t =
     (case local_buckets t k of
        None \<Rightarrow>
          (Inr (True, None),
           put_bucket k \<lparr>tokens = float_of_int (burst_capacity t - 1), last_refill = now\<rparr> t)
      | Some b \<Rightarrow>
          (let tk = refilled t b now
           in if 1 \<le> tk
              then (Inr (True, None), put_bucket k \<lparr>tokens = tk - 1, last_refill = now\<rparr> t)
              else (let t' = put_bucket k \<lparr>tokens = tk, last_refill = now\<rparr> t;
                        needed = 1 - tk
                    in if refill_rate t = 0 then (Inl ZeroDivisionError, t')
                       else (Inr (False, Some (py_round (max (Fl (5/100)) (needed / refill_rate t)) 2)), t'))))"

definition check_agency_limit :: "pyfloat \<Rightarrow> pyval \<Rightarrow> token_limiter \<Rightarrow> (bool \<times> pyfloat option) py_result \<times> token_limiter" where
  "check_agency_limit now agency t =
     (case py_key agency of
        Inl e \<Rightarrow> (Inl e, t)
      | Inr k \<Rightarrow> check_key now k t)"

section \<open>Well-formedness and its preservation\<close>

definition bucket_params :: "token_limiter \<Rightarrow> bool" where
  "bucket_params t \<longleftrightarrow> 1 \<le> burst_capacity t \<and> burst_capacity t \<le> 2 ^ 53 \<and> 0 < refill_rate t"

definition bucket_inv :: "token_limiter \<Rightarrow> bool" where
  "bucket_inv t \<longleftrightarrow>
     bucket_params t \<and>
     (\<forall>k b. local_buckets t k = Some b \<longrightarrow> 0 \<le> tokens b \<and> tokens b \<le> float_of_int (burst_capacity t))"

lemma put_bucket_simps [simp]:
  "burst_capacity (put_bucket k b t) = burst_capacity t"
  "refill_rate (put_bucket k b t) = refill_rate t"
  "local_buckets (put_bucket k b t) = (local_buckets t)(k \<mapsto> b)"
  by (simp_all add: put_bucket_def)

lemma check_key_frame [simp]:
  "burst_capacity (snd (check_key now k t)) = burst_capacity t"
  "refill_rate (snd (check_key now k t)) = refill_rate t"
  by (auto simp: check_key_def Let_def split: option.split)

lemma refilled_bounds:
  assumes "bucket_params t" "0 \<le> tokens b"
  shows "0 \<le> refilled t b now" "refilled t b now \<le> float_of_int (burst_capacity t)"
proof -
  have "0 \<le> float_of_int (burst_capacity t)"
    using assms by (simp add: bucket_params_def float_of_int_def le_fval fl_nonneg)
  moreover have "0 \<le> tokens b + max 0 (now - last_refill b) * refill_rate t"
    using assms by (intro pyf.add_nonneg pyf.mul_nonneg) (auto simp: bucket_params_def)
  ultimately show "0 \<le> refilled t b now" by (simp add: refilled_def)
  show "refilled t b now \<le> float_of_int (burst_capacity t)" by (simp add: refilled_def Let_def)
qed

lemma bucket_inv_new: "1 \<le> RATE_LIMIT_AGENCY_BURST cfg \<Longrightarrow> RATE_LIMIT_AGENCY_BURST cfg \<le> 2 ^ 53 \<Longrightarrow>
    0 < RATE_LIMIT_AGENCY_RATE cfg \<Longrightarrow> bucket_inv (token_bucket_limiter cfg)"
  by (simp add: bucket_inv_def bucket_params_def token_bucket_limiter_def)

lemma bucket_inv_put:
  "bucket_inv t \<Longrightarrow> 0 \<le> tokens b \<Longrightarrow> tokens b \<le> float_of_int (burst_capacity t) \<Longrightarrow> bucket_inv (put_bucket k b t)"
  by (simp add: bucket_inv_def bucket_params_def)

lemma check_key_inv:
  assumes inv: "bucket_inv t" shows "bucket_inv (snd (check_key now k t))"
proof (cases "local_buckets t k")
  case None
  have "0 \<le> float_of_int (burst_capacity t - 1)" "float_of_int (burst_capacity t - 1) \<le> float_of_int (burst_capacity t)"
    using inv by (auto simp: bucket_inv_def bucket_params_def float_of_int_def le_fval fl_nonneg fl_mono)
  then show ?thesis using inv None by (simp add: check_key_def bucket_inv_put)
next
  case (Some b)
  have p: "bucket_params t" "0 \<le> tokens b" using inv Some by (auto simp: bucket_inv_def)
  note r = refilled_bounds [OF p, of now]
  show ?thesis
  proof (cases "1 \<le> refilled t b now")
    case True
    then have "0 \<le> refilled t b now - 1" by (rule pyf.sub_nonneg)
    moreover have "refilled t b now - 1 \<le> refilled t b now" by (rule pyf.sub_decreases) simp
    moreover from this r(2) have "refilled t b now - 1 \<le> float_of_int (burst_capacity t)" by (rule order_trans)
    ultimately show ?thesis using inv Some True
      by (simp add: check_key_def bucket_inv_put)
  next
    case False
    then show ?thesis using inv Some r by (simp add: check_key_def Let_def bucket_inv_put)
  qed
qed

lemma check_agency_limit_inv: "bucket_inv t \<Longrightarrow> bucket_inv (snd (check_agency_limit now a t))"
  by (auto simp: check_agency_limit_def check_key_inv split: sum.split)

text \<open>A check touches no bucket but its own agency's.\<close>

lemma check_key_other: "k' \<noteq> k \<Longrightarrow> local_buckets (snd (check_key now k t)) k' = local_buckets t k'"
  by (auto simp: check_key_def Let_def split: option.split)

text \<open>With a positive refill rate a check of a hashable agency never raises, and a refusal always
  carries a positive hint.\<close>

lemma check_key_no_raise:
  assumes "bucket_params t" shows "\<exists>r. fst (check_key now k t) = Inr r"
proof -
  have "refill_rate t \<noteq> 0" using assms by (auto simp: bucket_params_def)
  then show ?thesis by (auto simp: check_key_def Let_def split: option.split)
qed

lemma check_key_hint:
  assumes "fst (check_key now k t) = Inr (False, w)"
  shows "\<exists>h. w = Some h \<and> Fl (5/100) \<le> h"
proof -
  have "Fl (5/100) = py_round (Fl (5/100)) 2" by code_simp
  also have "\<dots> \<le> py_round (max (Fl (5/100)) x) 2" for x by (rule py_round_mono) simp
  finally show ?thesis using assms
    by (auto simp: check_key_def Let_def split: option.splits if_splits)
qed

section \<open>One agency's history\<close>

text \<open>The bucket of one agency under a list of clock readings, with the number of admissions.\<close>

definition check_admits :: "pyfloat \<Rightarrow> pykey \<Rightarrow> token_limiter \<Rightarrow> nat" where
  "check_admits now k t = (case fst (check_key now k t) of Inr (True, _) \<Rightarrow> 1 | _ \<Rightarrow> 0)"

fun admitted_count :: "pykey \<Rightarrow> pyfloat list \<Rightarrow> token_limiter \<Rightarrow> nat" where
  "admitted_count k [] t = 0"
| "admitted_count k (now # ts) t = check_admits now k t + admitted_count k ts (snd (check_key now k t))"

text \<open>
  The rate bound.  A refill credits at most the elapsed time times the rate, up to the rounding of
  its float operations; \<^verbatim>\<open>step_slack\<close> bounds what one check can gain by rounding.
\<close>

definition step_slack :: "token_limiter \<Rightarrow> rat" where
  "step_slack t = 4 * of_int (burst_capacity t) * unit_roundoff + (2 * fval (refill_rate t) + 4) * half_ulp_min"

definition rate_factor :: rat where
  "rate_factor = 1 + 4 * unit_roundoff"

lemma capped_sum_upper:
  assumes "0 \<le> s" "0 \<le> cap"
  shows "min cap (fl s) \<le> s + 2 * cap * unit_roundoff + half_ulp_min"
proof (cases "s \<le> 2 * cap")
  case True
  then have "s * unit_roundoff \<le> 2 * cap * unit_roundoff"
    using unit_roundoff_bounds by (intro mult_right_mono) auto
  then show ?thesis using fl_upper [OF assms(1)] by linarith
next
  case False
  moreover have "0 \<le> 2 * cap * unit_roundoff" using assms unit_roundoff_bounds by simp
  ultimately show ?thesis using assms half_ulp_min_nonneg by linarith
qed

lemma product_upper:
  fixes d r :: rat
  assumes "0 \<le> d" "0 \<le> r"
  shows "fl (fl d * r) \<le> d * r * rate_factor + (2 * r + 2) * half_ulp_min"
proof -
  let ?u = unit_roundoff and ?h = half_ulp_min
  note u = unit_roundoff_bounds(1,3) and h = half_ulp_min_nonneg
  have "fl d * r \<le> (d + d * ?u + ?h) * r" using fl_upper [OF assms(1)] assms by (intro mult_right_mono)
  moreover have "0 \<le> fl d * r" using assms by (simp add: fl_nonneg)
  moreover from this have "fl (fl d * r) \<le> fl d * r + fl d * r * ?u + ?h" by (rule fl_upper)
  moreover have "fl d * r * ?u \<le> (d + d * ?u + ?h) * r * ?u"
    using mult_right_mono [OF calculation(1) u(1)] .
  ultimately have "fl (fl d * r) \<le> (d + d * ?u + ?h) * r + (d + d * ?u + ?h) * r * ?u + ?h" by linarith
  also have "\<dots> = d * r + 2 * (d * r * ?u) + (d * r * ?u) * ?u + ?h * r + ?h * r * ?u + ?h"
    by (simp add: algebra_simps)
  also have "\<dots> \<le> d * r + 2 * (d * r * ?u) + (d * r * ?u) * 1 + ?h * r + ?h * r * 1 + ?h"
    using assms u h by (intro add_mono mult_left_mono mult_nonneg_nonneg order_refl) auto
  also have "\<dots> \<le> d * r * rate_factor + (2 * r + 2) * ?h"
    using assms u h by (simp add: rate_factor_def algebra_simps)
  finally show ?thesis .
qed

lemma credit_upper:
  assumes "last_refill b \<le> now" "0 \<le> fval (refill_rate t)"
  shows "fval (max 0 (now - last_refill b) * refill_rate t)
         \<le> (fval now - fval (last_refill b)) * fval (refill_rate t) * rate_factor
           + (2 * fval (refill_rate t) + 2) * half_ulp_min"
proof -
  have d: "0 \<le> fval now - fval (last_refill b)" using assms by (simp add: le_fval)
  then have "fval (max 0 (now - last_refill b)) = fl (fval now - fval (last_refill b))"
    by (simp add: fval_max fl_nonneg)
  then show ?thesis using product_upper [OF d assms(2)] by simp
qed

lemma minus_one_upper:
  assumes "1 \<le> x" "x \<le> cap" shows "fl (x - 1) \<le> x - 1 + cap * unit_roundoff + half_ulp_min"
proof -
  have "(x - 1) * unit_roundoff \<le> cap * unit_roundoff"
    using assms unit_roundoff_bounds by (intro mult_right_mono) auto
  moreover have "fl (x - 1) \<le> x - 1 + (x - 1) * unit_roundoff + half_ulp_min"
    using assms by (intro fl_upper) simp
  ultimately show ?thesis by linarith
qed

lemma refilled_upper:
  assumes p: "bucket_params t" "0 \<le> tokens b" and mono: "last_refill b \<le> now"
  shows "fval (refilled t b now) \<le> fval (tokens b)
      + (fval now - fval (last_refill b)) * fval (refill_rate t) * rate_factor
      + (2 * fval (refill_rate t) + 3) * half_ulp_min + 2 * of_int (burst_capacity t) * unit_roundoff"
proof -
  let ?cap = "of_int (burst_capacity t) :: rat" and ?cr = "fval (max 0 (now - last_refill b) * refill_rate t)"
  have r: "0 \<le> fval (refill_rate t)" and cap: "0 \<le> ?cap" "fval (float_of_int (burst_capacity t)) = ?cap"
    using p by (auto simp: bucket_params_def less_fval fval_float_of_int)
  have cr0: "0 \<le> ?cr" using r by (simp add: fl_nonneg fval_max)
  have tb: "0 \<le> fval (tokens b)" using p by (simp add: le_fval)
  have "fval (refilled t b now) = min ?cap (fl (fval (tokens b) + ?cr))"
    by (simp only: refilled_def Let_def fval_min cap(2) plus_pyfloat.rep_eq)
  also have "\<dots> \<le> fval (tokens b) + ?cr + 2 * ?cap * unit_roundoff + half_ulp_min"
    using tb cr0 cap(1) by (intro capped_sum_upper) linarith+
  finally show ?thesis using credit_upper [OF mono r] by (simp only: algebra_simps)
qed

text \<open>One check with a bucket present: what is left plus what was admitted is at most what there
  was plus the credit.\<close>

lemma check_key_step:
  assumes inv: "bucket_inv t" and b: "local_buckets t k = Some b" and mono: "last_refill b \<le> now"
  obtains b' where "local_buckets (snd (check_key now k t)) k = Some b'" "last_refill b' = now"
    "fval (tokens b') + of_nat (check_admits now k t)
      \<le> fval (tokens b) + (fval now - fval (last_refill b)) * fval (refill_rate t) * rate_factor + step_slack t"
proof -
  let ?tk = "refilled t b now" and ?cap = "of_int (burst_capacity t) :: rat"
  let ?C = "(fval now - fval (last_refill b)) * fval (refill_rate t) * rate_factor"
  have p: "bucket_params t" "0 \<le> tokens b" using inv b by (auto simp: bucket_inv_def)
  then have r: "refill_rate t \<noteq> 0" and cap: "0 \<le> ?cap" "fval (float_of_int (burst_capacity t)) = ?cap"
    by (auto simp: bucket_params_def fval_float_of_int)
  have le_cap: "fval ?tk \<le> ?cap" using refilled_bounds(2) [OF p, of now] by (simp add: le_fval cap(2))
  have cu: "0 \<le> ?cap * unit_roundoff" using cap(1) unit_roundoff_bounds by simp
  have "(2 * fval (refill_rate t) + 3) * half_ulp_min + 2 * ?cap * unit_roundoff + ?cap * unit_roundoff + half_ulp_min
        \<le> step_slack t"
    using cu by (simp add: step_slack_def algebra_simps)
  then have up: "fval ?tk + ?cap * unit_roundoff + half_ulp_min \<le> fval (tokens b) + ?C + step_slack t"
    using refilled_upper [OF p mono] by linarith
  show ?thesis
  proof (cases "1 \<le> ?tk")
    case True
    then have "fval (?tk - 1) \<le> fval ?tk - 1 + ?cap * unit_roundoff + half_ulp_min"
      using minus_one_upper [OF _ le_cap] by (simp add: le_fval)
    then have "fval (?tk - 1) + of_nat 1 \<le> fval (tokens b) + ?C + step_slack t" using up by simp
    then show ?thesis
      using True b r by (intro that [of "\<lparr>tokens = ?tk - 1, last_refill = now\<rparr>"])
        (simp_all add: check_key_def check_admits_def Let_def)
  next
    case False
    have "fval ?tk + of_nat 0 \<le> fval (tokens b) + ?C + step_slack t"
      using up cu half_ulp_min_nonneg by simp
    then show ?thesis
      using False b r by (intro that [of "\<lparr>tokens = ?tk, last_refill = now\<rparr>"])
        (simp_all add: check_key_def check_admits_def Let_def)
  qed
qed

lemma admitted_count_bound:
  assumes "bucket_inv t" "local_buckets t k = Some b" "sorted (last_refill b # ts)"
  shows "of_nat (admitted_count k ts t)
    \<le> fval (tokens b) + (fval (last (last_refill b # ts)) - fval (last_refill b)) * fval (refill_rate t) * rate_factor
      + of_nat (length ts) * step_slack t"
  using assms
proof (induction ts arbitrary: t b)
  case Nil
  then show ?case by (auto simp: bucket_inv_def le_fval)
next
  case (Cons now ts)
  let ?t' = "snd (check_key now k t)"
  obtain b' where b': "local_buckets ?t' k = Some b'" "last_refill b' = now"
    and step: "fval (tokens b') + of_nat (check_admits now k t)
      \<le> fval (tokens b) + (fval now - fval (last_refill b)) * fval (refill_rate t) * rate_factor + step_slack t"
    using check_key_step [OF Cons.prems(1,2), of now] Cons.prems(3) by auto
  have l: "last (last_refill b # now # ts) = last (now # ts)" by simp
  have "of_nat (admitted_count k ts ?t')
    \<le> fval (tokens b') + (fval (last (now # ts)) - fval now) * fval (refill_rate t) * rate_factor
      + of_nat (length ts) * step_slack t"
    using Cons.IH [OF check_key_inv [OF Cons.prems(1)] b'(1)] b'(2) Cons.prems(3)
    by (simp add: step_slack_def)
  with step show ?case unfolding l
    by (simp only: admitted_count.simps of_nat_add list.size algebra_simps of_nat_1)
qed

section \<open>Properties of the token bucket\<close>

text \<open>C9: over any stretch of non-decreasing clock readings one agency is admitted at most its burst
  plus the elapsed time times its rate, up to the rounding of the float operations.\<close>

theorem agency_rate_bound:
  assumes "bucket_inv t" "local_buckets t k = None" "sorted (t0 # ts)"
  shows "of_nat (admitted_count k (t0 # ts) t)
    \<le> of_int (burst_capacity t)
      + (fval (last (t0 # ts)) - fval t0) * fval (refill_rate t) * rate_factor
      + of_nat (length ts) * step_slack t"
proof -
  let ?t = "snd (check_key t0 k t)" and ?b = "\<lparr>tokens = float_of_int (burst_capacity t - 1), last_refill = t0\<rparr>"
  have b: "local_buckets ?t k = Some ?b" and one: "check_admits t0 k t = 1"
    using assms(2) by (simp_all add: check_key_def check_admits_def)
  have "fval (float_of_int (burst_capacity t - 1)) = of_int (burst_capacity t) - 1"
    using assms(1) by (simp add: bucket_inv_def bucket_params_def fval_float_of_int)
  then show ?thesis
    using admitted_count_bound [OF check_key_inv [OF assms(1)] b, of ts] assms(3) one
    by (simp add: step_slack_def)
qed

lemma default_bucket_inv: "bucket_inv (token_bucket_limiter default_settings)"
proof -
  have "0 < Fl 20" by code_simp
  then show ?thesis by (intro bucket_inv_new) (simp_all add: default_settings_def)
qed

theorem agency_rate_bound_witness:
  "of_nat (admitted_count (KStr ''a'') [Fl 0, Fl 1, Fl 2] (token_bucket_limiter default_settings))
    \<le> of_int 100 + (fval (Fl 2) - fval (Fl 0)) * fval (Fl 20) * rate_factor
      + of_nat 2 * step_slack (token_bucket_limiter default_settings)"
proof -
  have "sorted [Fl 0, Fl 1, Fl 2]" by code_simp
  from agency_rate_bound [OF default_bucket_inv _ this, of "KStr ''a''"] show ?thesis
    by (simp add: token_bucket_limiter_def default_settings_def del: admitted_count.simps)
qed

text \<open>Agencies do not starve each other: what one agency's check is answered does not depend on
  the checks any other agencies made before it.\<close>

theorem agencies_are_isolated:
  assumes "\<forall>c \<in> set checks. py_key (snd c) \<noteq> Inr k" "py_key agency = Inr k"
  shows "fst (check_agency_limit now agency
           (foldl (\<lambda>t c. snd (check_agency_limit (fst c) (snd c) t)) t checks)) =
         fst (check_agency_limit now agency t)"
proof -
  let ?f = "\<lambda>t c. snd (check_agency_limit (fst c) (snd c) t)"
  have "local_buckets (foldl ?f t checks) k = local_buckets t k \<and>
    burst_capacity (foldl ?f t checks) = burst_capacity t \<and> refill_rate (foldl ?f t checks) = refill_rate t"
    using assms(1)
  proof (induction checks arbitrary: t)
    case (Cons c checks)
    have "local_buckets (?f t c) k = local_buckets t k"
      using Cons.prems check_key_other [of k] by (auto simp: check_agency_limit_def split: sum.split)
    moreover have "burst_capacity (?f t c) = burst_capacity t" "refill_rate (?f t c) = refill_rate t"
      by (auto simp: check_agency_limit_def split: sum.split)
    ultimately show ?case using Cons by simp
  qed simp
  then show ?thesis
    by (auto simp: check_agency_limit_def check_key_def refilled_def assms(2) Let_def split: option.split)
qed

theorem agencies_are_isolated_witness:
  "fst (check_agency_limit 0 (PStr ''b'')
     (foldl (\<lambda>t c. snd (check_agency_limit (fst c) (snd c) t)) (token_bucket_limiter default_settings)
        (replicate 200 (0, PStr ''a'')))) = Inr (True, None)"
proof -
  have "\<forall>c \<in> set (replicate 200 (0, PStr ''a'')). py_key (snd c) \<noteq> Inr (KStr ''b'')" by simp
  from agencies_are_isolated [OF this, of "PStr ''b''" 0 "token_bucket_limiter default_settings"]
  show ?thesis by (simp add: check_agency_limit_def check_key_def token_bucket_limiter_def)
qed

lemma float_of_int_minus_one: "1 \<le> m \<Longrightarrow> m \<le> 2 ^ 53 \<Longrightarrow> float_of_int m - 1 = float_of_int (m - 1)"
  using fl_of_int [of m] by (simp add: pyfloat_eq_iff float_of_int_def fval_float_of_int)

text \<open>A bucket that was refilled at the present clock reading.\<close>

lemma refilled_now:
  assumes "tokens b = float_of_int m" "last_refill b = now" "0 \<le> m" "m \<le> burst_capacity t" "burst_capacity t \<le> 2 ^ 53"
  shows "refilled t b now = float_of_int m"
proof -
  have "fval (float_of_int m) = of_int m" "fval (float_of_int (burst_capacity t)) = of_int (burst_capacity t)"
    using assms(3-5) by (simp_all add: fval_float_of_int)
  then show ?thesis
    using assms fl_of_int [of m] by (simp add: refilled_def Let_def pyfloat_eq_iff fval_min fval_max)
qed

definition after_checks :: "pykey \<Rightarrow> pyfloat list \<Rightarrow> token_limiter \<Rightarrow> token_limiter" where
  "after_checks k ts t = foldl (\<lambda>t now. snd (check_key now k t)) t ts"

lemma after_checks_simps [simp]:
  "after_checks k [] t = t" "after_checks k (now # ts) t = after_checks k ts (snd (check_key now k t))"
  by (simp_all add: after_checks_def)

lemma after_checks_frame [simp]:
  "burst_capacity (after_checks k ts t) = burst_capacity t" "refill_rate (after_checks k ts t) = refill_rate t"
  by (induction ts arbitrary: t) simp_all

lemma admitted_count_append:
  "admitted_count k (ts @ us) t = admitted_count k ts t + admitted_count k us (after_checks k ts t)"
  by (induction ts arbitrary: t) simp_all

text \<open>Checks at one instant take the tokens that are there, and no more.\<close>

lemma drain_bucket:
  assumes "local_buckets t k = Some \<lparr>tokens = float_of_int (int m), last_refill = now\<rparr>"
    "int m \<le> burst_capacity t" "burst_capacity t \<le> 2 ^ 53" "refill_rate t \<noteq> 0"
  shows "admitted_count k (replicate n now) t = min n m \<and>
    local_buckets (after_checks k (replicate n now) t) k = Some \<lparr>tokens = float_of_int (int (m - n)), last_refill = now\<rparr>"
  using assms
proof (induction n arbitrary: t m)
  case (Suc n)
  have r: "refilled t \<lparr>tokens = float_of_int (int m), last_refill = now\<rparr> now = float_of_int (int m)"
    using Suc.prems by (intro refilled_now) simp_all
  have v: "fval (float_of_int (int m)) = of_nat m" using Suc.prems by (simp add: fval_float_of_int)
  show ?case
  proof (cases m)
    case 0
    then have "\<not> 1 \<le> float_of_int (int m)" using v by (simp add: le_fval)
    then have c: "check_admits now k t = 0" "snd (check_key now k t) = put_bucket k \<lparr>tokens = float_of_int (int m), last_refill = now\<rparr> t"
      using Suc.prems(1,4) r by (simp_all add: check_key_def check_admits_def Let_def)
    show ?thesis using c 0 Suc.IH [of "put_bucket k \<lparr>tokens = float_of_int (int m), last_refill = now\<rparr> t" m] Suc.prems
      by simp
  next
    case (Suc m')
    then have "1 \<le> float_of_int (int m)" using v by (simp add: le_fval)
    moreover have "float_of_int (int m) - 1 = float_of_int (int m')"
      using Suc Suc.prems float_of_int_minus_one [of "int m"] by simp
    ultimately have c: "check_admits now k t = 1" "snd (check_key now k t) = put_bucket k \<lparr>tokens = float_of_int (int m'), last_refill = now\<rparr> t"
      using Suc.prems(1) r by (simp_all add: check_key_def check_admits_def Let_def)
    show ?thesis using c Suc Suc.IH [of "put_bucket k \<lparr>tokens = float_of_int (int m'), last_refill = now\<rparr> t" m'] Suc.prems
      by simp
  qed
qed simp

lemma default_burst:
  fixes now k
  defines "t \<equiv> token_bucket_limiter default_settings"
  shows "admitted_count k (replicate (Suc m) now) t = min (Suc m) 100"
    "local_buckets (after_checks k (replicate (Suc m) now) t) k = Some \<lparr>tokens = float_of_int (int (99 - m)), last_refill = now\<rparr>"
proof -
  let ?t' = "put_bucket k \<lparr>tokens = float_of_int (int 99), last_refill = now\<rparr> t"
  have z: "Fl 20 \<noteq> 0" by code_simp
  have c: "check_key now k t = (Inr (True, None), ?t')"
    by (simp add: t_def check_key_def token_bucket_limiter_def default_settings_def put_bucket_def)
  have "admitted_count k (replicate m now) ?t' = min m 99 \<and>
    local_buckets (after_checks k (replicate m now) ?t') k = Some \<lparr>tokens = float_of_int (int (99 - m)), last_refill = now\<rparr>"
    by (rule drain_bucket) (simp_all add: t_def token_bucket_limiter_def default_settings_def z)
  then show "admitted_count k (replicate (Suc m) now) t = min (Suc m) 100"
    "local_buckets (after_checks k (replicate (Suc m) now) t) k = Some \<lparr>tokens = float_of_int (int (99 - m)), last_refill = now\<rparr>"
    by (simp_all add: c check_admits_def)
qed

text \<open>A burst of n requests of a new agency at one instant has exactly the first 100 of them
  admitted, with the default settings.\<close>

theorem burst_is_exact:
  "admitted_count k (replicate n now) (token_bucket_limiter default_settings) = min n 100"
  using default_burst(1) [of k _ now] by (cases n) simp_all

text \<open>The bucket reads the wall clock, and a step backwards is credited twice: 200 requests at one
  clock reading are all admitted, with one refused in between by a clock that had been set back.\<close>

theorem clock_step_credits_twice:
  "admitted_count k (replicate 100 (Fl 100) @ [Fl 0] @ replicate 100 (Fl 100)) (token_bucket_limiter default_settings) = 200"
proof -
  let ?t = "token_bucket_limiter default_settings"
  let ?t1 = "after_checks k (replicate 100 (Fl 100)) ?t"
  have b1: "local_buckets ?t1 k = Some \<lparr>tokens = float_of_int 0, last_refill = Fl 100\<rparr>"
    using default_burst(2) [of k 99 "Fl 100"] by simp
  have f: "burst_capacity ?t1 = 100" "refill_rate ?t1 = Fl 20"
    by (simp_all add: token_bucket_limiter_def default_settings_def)
  have e: "min (float_of_int 100) (float_of_int 0 + max 0 (Fl 0 - Fl 100) * Fl 20) = float_of_int 0"
    "\<not> 1 \<le> float_of_int 0" "Fl 20 \<noteq> 0"
    "min (float_of_int 100) (float_of_int 0 + max 0 (Fl 100 - Fl 0) * Fl 20) = float_of_int 100"
    "1 \<le> float_of_int 100" "float_of_int 100 - 1 = float_of_int 99" by code_simp+
  let ?t2 = "put_bucket k \<lparr>tokens = float_of_int 0, last_refill = Fl 0\<rparr> ?t1"
  have c1: "snd (check_key (Fl 0) k ?t1) = ?t2" "check_admits (Fl 0) k ?t1 = 0"
    using b1 f e(1-3) by (simp_all add: check_key_def check_admits_def refilled_def Let_def)
  let ?t3 = "put_bucket k \<lparr>tokens = float_of_int (int 99), last_refill = Fl 100\<rparr> ?t2"
  have c2: "snd (check_key (Fl 100) k ?t2) = ?t3" "check_admits (Fl 100) k ?t2 = 1"
    using f e(4-6) by (simp_all add: check_key_def check_admits_def refilled_def Let_def)
  have "admitted_count k (replicate 99 (Fl 100)) ?t3 = 99"
    using drain_bucket [of ?t3 k 99 "Fl 100" 99] f e(3) by simp
  moreover have "replicate 100 (Fl 100) = Fl 100 # replicate 99 (Fl 100)" by (simp add: numeral_nat)
  ultimately have "admitted_count k (replicate 100 (Fl 100)) ?t2 = 100" using c2 by simp
  then show ?thesis using c1 default_burst(1) [of k 99 "Fl 100"] by (simp add: admitted_count_append)
qed

end
