(* ===== verification/ApiMetrics.thy ===== *)
theory ApiMetrics imports PyVal begin

text \<open>
  The Prometheus instruments of \<^verbatim>\<open>api/src/metrics.py\<close>.  A process's instruments are the log of
  the calls made on them; the functions below read a counter or a gauge off such a log.
\<close>

datatype metric_call =
    HttpRequests string string nat       \<comment> \<open>endpoint, method, status code\<close>
  | HttpDuration string string pyfloat
  | BackpressureRejections string
  | ActivePipelinesInc
  | ActivePipelinesDec
  | IngestedBytes nat
  | ConcurrencyLimit pyfloat

fun active_pipelines :: "metric_call list \<Rightarrow> int" where
  "active_pipelines [] = 0"
| "active_pipelines (ActivePipelinesInc # ms) = active_pipelines ms + 1"
| "active_pipelines (ActivePipelinesDec # ms) = active_pipelines ms - 1"
| "active_pipelines (_ # ms) = active_pipelines ms"

definition http_requests :: "string \<Rightarrow> string \<Rightarrow> nat \<Rightarrow> metric_call list \<Rightarrow> nat" where
  "http_requests endpoint method code ms = length (filter (\<lambda>m. m = HttpRequests endpoint method code) ms)"

fun ingested_bytes :: "metric_call list \<Rightarrow> nat" where
  "ingested_bytes [] = 0"
| "ingested_bytes (IngestedBytes n # ms) = n + ingested_bytes ms"
| "ingested_bytes (_ # ms) = ingested_bytes ms"

definition rejections :: "string \<Rightarrow> metric_call list \<Rightarrow> nat" where
  "rejections reason ms = length (filter (\<lambda>m. m = BackpressureRejections reason) ms)"

text \<open>The upper bounds of the latency histogram, and the bucket counts of a log.\<close>

definition duration_buckets :: "pyfloat list" where
  "duration_buckets =
     [Fl (5/1000), Fl (10/1000), Fl (25/1000), Fl (50/1000), Fl (75/1000), Fl (100/1000),
      Fl (125/1000), Fl (150/1000), Fl (200/1000), Fl (250/1000), Fl (500/1000), Fl 1, Fl (25/10), Fl 5]"

definition duration_bucket_count :: "pyfloat \<Rightarrow> metric_call list \<Rightarrow> nat" where
  "duration_bucket_count bound ms =
     length (filter (\<lambda>m. case m of HttpDuration _ _ d \<Rightarrow> d \<le> bound | _ \<Rightarrow> False) ms)"

lemma active_pipelines_append [simp]: "active_pipelines (ms @ ms') = active_pipelines ms + active_pipelines ms'"
  by (induction ms rule: active_pipelines.induct) auto

lemma http_requests_append [simp]:
  "http_requests e m c (ms @ ms') = http_requests e m c ms + http_requests e m c ms'"
  by (simp add: http_requests_def)

lemma http_requests_Cons [simp]:
  "http_requests e m c [] = 0"
  "http_requests e m c (x # ms) = (if x = HttpRequests e m c then 1 else 0) + http_requests e m c ms"
  by (simp_all add: http_requests_def)

lemma ingested_bytes_append [simp]: "ingested_bytes (ms @ ms') = ingested_bytes ms + ingested_bytes ms'"
  by (induction ms rule: ingested_bytes.induct) auto

text \<open>The histogram is cumulative: a larger bound counts at least as many observations.\<close>

lemma duration_bucket_count_mono: "b \<le> b' \<Longrightarrow> duration_bucket_count b ms \<le> duration_bucket_count b' ms"
  unfolding duration_bucket_count_def
  by (induction ms) (auto split: metric_call.splits dest: order_trans)

end
