(* ===== verification/Hashes.thy ===== *)
theory Hashes imports PyStr begin

text \<open>
  The two digests of the standard library the API uses: CRC-32 (\<^verbatim>\<open>zlib.crc32\<close>, the fallback
  partition hash of \<^verbatim>\<open>api/src/producer.py\<close>) and SHA-256 (\<^verbatim>\<open>hashlib.sha256\<close>, the content
  address of \<^verbatim>\<open>api/src/storage.py\<close>).
\<close>

unbundle bit_operations_syntax

section \<open>CRC-32\<close>

type_synonym word32 = "32 word"

definition crc_bit :: "word32 \<Rightarrow> word32" where
  "crc_bit c = (if bit c 0 then drop_bit 1 c XOR 0xEDB88320 else drop_bit 1 c)"

definition crc_byte :: "word32 \<Rightarrow> byte \<Rightarrow> word32" where
  "crc_byte c b = (crc_bit ^^ 8) (c XOR ucast b)"

definition crc32 :: "bytes \<Rightarrow> word32" where
  "crc32 bs = NOT (foldl crc_byte 0xFFFFFFFF bs)"

section \<open>SHA-256\<close>

definition sha_k :: "word32 list" where
  "sha_k =
    [0x428a2f98, 0x71374491, 0xb5c0fbcf, 0xe9b5dba5, 0x3956c25b, 0x59f111f1, 0x923f82a4, 0xab1c5ed5,
     0xd807aa98, 0x12835b01, 0x243185be, 0x550c7dc3, 0x72be5d74, 0x80deb1fe, 0x9bdc06a7, 0xc19bf174,
     0xe49b69c1, 0xefbe4786, 0x0fc19dc6, 0x240ca1cc, 0x2de92c6f, 0x4a7484aa, 0x5cb0a9dc, 0x76f988da,
     0x983e5152, 0xa831c66d, 0xb00327c8, 0xbf597fc7, 0xc6e00bf3, 0xd5a79147, 0x06ca6351, 0x14292967,
     0x27b70a85, 0x2e1b2138, 0x4d2c6dfc, 0x53380d13, 0x650a7354, 0x766a0abb, 0x81c2c92e, 0x92722c85,
     0xa2bfe8a1, 0xa81a664b, 0xc24b8b70, 0xc76c51a3, 0xd192e819, 0xd6990624, 0xf40e3585, 0x106aa070,
     0x19a4c116, 0x1e376c08, 0x2748774c, 0x34b0bcb5, 0x391c0cb3, 0x4ed8aa4a, 0x5b9cca4f, 0x682e6ff3,
     0x748f82ee, 0x78a5636f, 0x84c87814, 0x8cc70208, 0x90befffa, 0xa4506ceb, 0xbef9a3f7, 0xc67178f2]"

definition sha_h0 :: "word32 list" where
  "sha_h0 = [0x6a09e667, 0xbb67ae85, 0x3c6ef372, 0xa54ff53a, 0x510e527f, 0x9b05688c, 0x1f83d9ab, 0x5be0cd19]"

definition rotr :: "nat \<Rightarrow> word32 \<Rightarrow> word32" where
  "rotr n x = drop_bit n x OR push_bit (32 - n) x"

text \<open>Padding: the bit 1, zeros up to 56 modulo 64 bytes, the length in bits on 8 bytes.\<close>

fun be_bytes :: "nat \<Rightarrow> nat \<Rightarrow> bytes" where
  "be_bytes 0 n = []"
| "be_bytes (Suc k) n = be_bytes k (n div 256) @ [of_nat (n mod 256)]"

definition sha_pad :: "bytes \<Rightarrow> bytes" where
  "sha_pad bs =
     bs @ [0x80] @ replicate ((119 - length bs mod 64) mod 64) 0 @ be_bytes 8 (8 * length bs)"

fun words_of :: "bytes \<Rightarrow> word32 list" where
  "words_of (a # b # c # d # bs) =
     (push_bit 24 (ucast a) OR push_bit 16 (ucast b) OR push_bit 8 (ucast c) OR ucast d) # words_of bs"
| "words_of _ = []"

text \<open>The message schedule, newest word first.\<close>

fun sha_schedule :: "nat \<Rightarrow> word32 list \<Rightarrow> word32 list" where
  "sha_schedule 0 w = w"
| "sha_schedule (Suc n) w =
     (let w2 = w ! 1; w7 = w ! 6; w15 = w ! 14; w16 = w ! 15;
          s0 = rotr 7 w15 XOR rotr 18 w15 XOR drop_bit 3 w15;
          s1 = rotr 17 w2 XOR rotr 19 w2 XOR drop_bit 10 w2
      in sha_schedule n ((w16 + s0 + w7 + s1) # w))"

type_synonym sha_state = "word32 \<times> word32 \<times> word32 \<times> word32 \<times> word32 \<times> word32 \<times> word32 \<times> word32"

fun sha_round :: "sha_state \<Rightarrow> word32 \<times> word32 \<Rightarrow> sha_state" where
  "sha_round (a, b, c, d, e, f, g, h) (k, w) =
     (let s1 = rotr 6 e XOR rotr 11 e XOR rotr 25 e;
          ch = (e AND f) XOR (NOT e AND g);
          t1 = h + s1 + ch + k + w;
          s0 = rotr 2 a XOR rotr 13 a XOR rotr 22 a;
          maj = (a AND b) XOR (a AND c) XOR (b AND c)
      in (t1 + (s0 + maj), a, b, c, d + t1, e, f, g))"

fun sha_compress :: "word32 list \<Rightarrow> word32 list \<Rightarrow> word32 list" where
  "sha_compress [a, b, c, d, e, f, g, h] block =
     (let ws = rev (sha_schedule 48 (rev block));
          (a', b', c', d', e', f', g', h') = foldl sha_round (a, b, c, d, e, f, g, h) (zip sha_k ws)
      in [a + a', b + b', c + c', d + d', e + e', f + f', g + g', h + h'])"
| "sha_compress st block = st"

function sha_blocks :: "word32 list \<Rightarrow> word32 list \<Rightarrow> word32 list" where
  "sha_blocks st ws = (if ws = [] then st else sha_blocks (sha_compress st (take 16 ws)) (drop 16 ws))"
  by pat_completeness auto
termination
  by (relation "measure (\<lambda>(st, ws). length ws)") auto

declare sha_blocks.simps [simp del]

text \<open>\<^verbatim>\<open>hashlib.sha256(bs).hexdigest()\<close>\<close>

definition sha256_hex :: "bytes \<Rightarrow> string" where
  "sha256_hex bs = concat (map (\<lambda>w. fixed_hex 8 (unat w)) (sha_blocks sha_h0 (words_of (sha_pad bs))))"

lemma length_sha_compress: "length st = 8 \<Longrightarrow> length (sha_compress st block) = 8"
  by (induction st block rule: sha_compress.induct) (auto simp: Let_def split: prod.splits)

lemma length_sha_blocks: "length st = 8 \<Longrightarrow> length (sha_blocks st ws) = 8"
proof (induction st ws rule: sha_blocks.induct)
  case (1 st ws)
  then show ?case by (subst sha_blocks.simps) (simp add: length_sha_compress)
qed

lemma length_concat_same: "(\<And>x. x \<in> set xs \<Longrightarrow> length (f x) = n) \<Longrightarrow> length (concat (map f xs)) = n * length xs"
  by (induction xs) auto

text \<open>The hex digest has 64 characters whatever the content.\<close>

lemma length_sha256_hex: "length (sha256_hex bs) = 64"
  using length_sha_blocks [of sha_h0 "words_of (sha_pad bs)"]
  by (simp add: sha256_hex_def length_concat_same [where n = 8] sha_h0_def)

lemma sha256_hex_nonempty: "sha256_hex bs \<noteq> []"
  using length_sha256_hex [of bs] by auto

end
