(* ===== verification/Producer.thy ===== *)
theory Producer imports ApiConfig Hashes begin

text \<open>
  The event producer of \<^verbatim>\<open>api/src/producer.py\<close>: the sharding contract
  \<^verbatim>\<open>partition = hash(agency_id) % P\<close> and the publication of an event.  \<^verbatim>\<open>mmh3\<close> is a third-party
  module: its hash function is a parameter, \<^verbatim>\<open>None\<close> where the import fails and the module falls
  back to CRC32.  The broker is the log of the records it has been given, and its client's answer
  is an argument: it raises, or it hands back record metadata, or it hands back a future, which
  has none of the metadata's attributes.
\<close>

section \<open>Sharding\<close>

type_synonym murmur = "(string \<Rightarrow> int) option"

definition key_hash :: "murmur \<Rightarrow> pyval \<Rightarrow> int py_result" where
  "key_hash mm key =
     (case mm of
        Some h \<Rightarrow> (case key of PStr s \<Rightarrow> Inr \<bar>h s\<bar> | _ \<Rightarrow> Inl TypeError)
      | None \<Rightarrow> py_bind (py_encode key) (\<lambda>bs. Inr (int (unat (crc32 bs AND 0xFFFFFFFF)))))"

definition hash_key_to_partition :: "murmur \<Rightarrow> pyval \<Rightarrow> int \<Rightarrow> int py_result" where
  "hash_key_to_partition mm key num_partitions =
     py_bind (key_hash mm key) (\<lambda>h.
       if num_partitions = 0 then Inl ZeroDivisionError else Inr (h mod num_partitions))"

text \<open>A partition is one of the topic's, and only a string has one.\<close>

lemma hash_key_to_partition_range:
  "hash_key_to_partition mm key n = Inr p \<Longrightarrow> 0 < n \<Longrightarrow> 0 \<le> p \<and> p < n"
  by (auto simp: hash_key_to_partition_def py_bind_eq_Inr split: if_splits)

lemma hash_key_to_partition_total: "n \<noteq> 0 \<Longrightarrow> \<exists>p. hash_key_to_partition mm (PStr a) n = Inr p"
  by (auto simp: hash_key_to_partition_def key_hash_def split: option.split)

lemma key_hash_string: "key_hash mm key = Inr h \<Longrightarrow> \<exists>s. key = PStr s"
  by (cases key; cases mm) (auto simp: key_hash_def)

lemma hash_key_to_partition_string: "hash_key_to_partition mm key n = Inr p \<Longrightarrow> \<exists>s. key = PStr s"
  by (auto simp: hash_key_to_partition_def py_bind_eq_Inr dest: key_hash_string)

section \<open>The broker client\<close>

record kafka_record =
  rec_topic :: string
  rec_key :: bytes
  rec_value :: bytes
  rec_partition :: int

record producer =
  client_made :: bool
  connected :: bool
  sent :: "kafka_record list"

definition new_producer :: producer where
  "new_producer = \<lparr>client_made = False, connected = False, sent = []\<rparr>"

text \<open>The constructor and the connection can each raise; both are caught.\<close>

definition producer_start :: "bool \<Rightarrow> bool \<Rightarrow> producer \<Rightarrow> producer" where
  "producer_start made started p =
     (if made then p\<lparr>client_made := True, connected := started\<rparr> else p\<lparr>connected := False\<rparr>)"

definition producer_stop :: "bool \<Rightarrow> (producer, unit) op" where
  "producer_stop stops p =
     (if client_made p \<and> connected p
      then (if stops then (Inr (), p\<lparr>connected := False\<rparr>) else (Inl ExternalError, p))
      else (Inr (), p))"

datatype send_reply =
    SendRaised
  | SendFuture
  | SendMetadata string int int     \<comment> \<open>topic, partition, offset\<close>

record broker_meta =
  bm_topic :: string
  bm_partition :: int
  bm_offset :: int
  bm_status :: string

section \<open>Publication\<close>

text \<open>\<^verbatim>\<open>d[k] = v\<close> keeps the place of a key already there.\<close>

fun dict_put :: "string \<Rightarrow> pyval \<Rightarrow> (string \<times> pyval) list \<Rightarrow> (string \<times> pyval) list" where
  "dict_put k v [] = [(k, v)]"
| "dict_put k v (e # es) = (if fst e = k then (k, v) # es else e # dict_put k v es)"

definition with_sharding :: "settings \<Rightarrow> pyval \<Rightarrow> int \<Rightarrow> (string \<times> pyval) list \<Rightarrow> (string \<times> pyval) list" where
  "with_sharding cfg agency p payload =
     dict_put ''sharding''
       (PDict [(''routing_key'', agency),
               (''partition'', PInt p),
               (''total_partitions'', PInt (KAFKA_NUM_PARTITIONS cfg))])
       payload"

definition broker_send :: "send_reply \<Rightarrow> kafka_record \<Rightarrow> (producer, broker_meta) op" where
  "broker_send reply r p =
     (case reply of
        SendRaised \<Rightarrow> (Inl ExternalError, p)
      | SendFuture \<Rightarrow> (Inl AttributeError, p\<lparr>sent := sent p @ [r]\<rparr>)
      | SendMetadata topic part offset \<Rightarrow>
          (Inr \<lparr>bm_topic = topic, bm_partition = part, bm_offset = offset, bm_status = ''BUFFERED''\<rparr>,
           p\<lparr>sent := sent p @ [r]\<rparr>))"

definition send_audit_event ::
  "murmur \<Rightarrow> settings \<Rightarrow> send_reply \<Rightarrow> pyval \<Rightarrow> (string \<times> pyval) list \<Rightarrow> string \<Rightarrow> (producer, broker_meta) op" where
  "send_audit_event mm cfg reply agency payload topic =
     op_bind (op_lift (hash_key_to_partition mm agency (KAFKA_NUM_PARTITIONS cfg))) (\<lambda>partition.
     op_bind (op_lift (json_dumps False (PDict (with_sharding cfg agency partition payload)))) (\<lambda>text.
     op_bind (op_lift (py_encode agency)) (\<lambda>key.
     \<lambda>p. if connected p \<and> client_made p
         then broker_send reply
                \<lparr>rec_topic = topic, rec_key = key, rec_value = utf8 text, rec_partition = partition\<rparr> p
         else (Inr \<lparr>bm_topic = topic, bm_partition = partition, bm_offset = -1, bm_status = ''MOCK_PRODUCED''\<rparr>, p))))"

section \<open>What publication does\<close>

lemma dict_put_lookup [simp]: "map_of (dict_put k v es) = (map_of es)(k \<mapsto> v)"
  by (induction es) (auto simp: fun_eq_iff)

lemma broker_send_sent: "sent (snd (broker_send reply r p)) = sent p @ (if reply = SendRaised then [] else [r])"
  by (cases reply) (auto simp: broker_send_def)

lemma broker_send_frame [simp]:
  "connected (snd (broker_send reply r p)) = connected p" "client_made (snd (broker_send reply r p)) = client_made p"
  by (cases reply; simp add: broker_send_def)+

text \<open>What a published record carries: every record the producer ever hands to the broker has the
  agency as its key, the agency's partition, and a value that says so.\<close>

definition well_sharded :: "murmur \<Rightarrow> settings \<Rightarrow> kafka_record \<Rightarrow> bool" where
  "well_sharded mm cfg r \<longleftrightarrow>
     (\<exists>a payload. rec_key r = utf8 a \<and>
        hash_key_to_partition mm (PStr a) (KAFKA_NUM_PARTITIONS cfg) = Inr (rec_partition r) \<and>
        rec_value r = utf8 (json_text False (PDict (with_sharding cfg (PStr a) (rec_partition r) payload))))"

lemma send_audit_event_sent:
  assumes "send_audit_event mm cfg reply agency payload topic p = (r, p')"
  obtains "sent p' = sent p"
  | q where "sent p' = sent p @ [q]" "well_sharded mm cfg q" "rec_topic q = topic"
      "connected p" "client_made p"
proof (cases "hash_key_to_partition mm agency (KAFKA_NUM_PARTITIONS cfg)")
  case (Inl e)
  then show ?thesis using assms that(1) by (auto simp: send_audit_event_def op_bind_def op_lift_def)
next
  case (Inr part)
  then obtain a where a: "agency = PStr a" by (auto dest: hash_key_to_partition_string)
  show ?thesis
  proof (cases "json_dumps False (PDict (with_sharding cfg agency part payload))")
    case Inl2: (Inl e)
    then show ?thesis using assms Inr that(1) by (auto simp: send_audit_event_def op_bind_def op_lift_def)
  next
    case Inr2: (Inr js)
    let ?q = "\<lparr>rec_topic = topic, rec_key = utf8 a, rec_value = utf8 js, rec_partition = part\<rparr>"
    have run: "(r, p') = (if connected p \<and> client_made p then broker_send reply ?q p
      else (Inr \<lparr>bm_topic = topic, bm_partition = part, bm_offset = -1, bm_status = ''MOCK_PRODUCED''\<rparr>, p))"
      using assms Inr Inr2 a by (simp add: send_audit_event_def op_bind_def op_lift_def)
    have ok: "well_sharded mm cfg ?q"
      unfolding well_sharded_def using a Inr Inr2
      by (intro exI [of _ a] exI [of _ payload]) (auto simp: json_dumps_def split: if_splits)
    show ?thesis
    proof (cases "(connected p \<and> client_made p) \<and> reply \<noteq> SendRaised")
      case True
      then have "sent p' = sent p @ [?q]" using run broker_send_sent [of reply ?q p] by (metis snd_conv)
      then show ?thesis using ok True that(2) by auto
    next
      case False
      then have "sent p' = sent p" using run broker_send_sent [of reply ?q p]
        by (cases "connected p \<and> client_made p") (auto simp: broker_send_def)
      then show ?thesis by (rule that(1))
    qed
  qed
qed

lemma send_audit_event_returns:
  assumes "send_audit_event mm cfg reply agency payload topic p = (Inr bm, p')"
  shows "if connected p \<and> client_made p then (\<exists>t q off. reply = SendMetadata t q off)
         else bm_status bm = ''MOCK_PRODUCED'' \<and> bm_offset bm = -1 \<and> bm_topic bm = topic"
  using assms
  by (auto simp: send_audit_event_def op_Inr broker_send_def split: if_splits send_reply.splits)

lemma send_audit_event_frame:
  "connected (snd (send_audit_event mm cfg reply agency payload topic p)) = connected p \<and>
   client_made (snd (send_audit_event mm cfg reply agency payload topic p)) = client_made p"
  by (auto simp: send_audit_event_def op_bind_def op_lift_def split: sum.split prod.split)

end
