(* ===== verification/Storage.thy ===== *)
theory Storage imports ApiConfig Hashes begin

text \<open>
  The content-addressable store of \<^verbatim>\<open>api/src/storage.py\<close>: the \<^verbatim>\<open>blobs\<close> and \<^verbatim>\<open>tmp\<close> directories
  by file name, and the MinIO bucket by object key.  The file system's and MinIO's failures are
  an argument.  The local part of a save runs without an await, the upload is awaited in a
  thread, so \<^verbatim>\<open>save_local\<close> and \<^verbatim>\<open>put_remote\<close> are the two steps of \<^verbatim>\<open>save_document\<close>.
\<close>

section \<open>State and operations\<close>

record store =
  blob_files :: "string \<rightharpoonup> bytes"
  tmp_files :: "string \<rightharpoonup> bytes"
  objects :: "string \<rightharpoonup> bytes"
  has_client :: bool
  remote_available :: bool

text \<open>What goes wrong in one save: opening the temporary file fails, writing it stops after some
  bytes, renaming it fails, removing it fails, the upload fails.\<close>

record storage_env =
  se_uuid :: uuid
  se_open_fails :: bool
  se_written :: "nat option"
  se_replace_fails :: bool
  se_unlink_fails :: bool
  se_put :: fault

definition new_store :: "bool \<Rightarrow> store" where
  "new_store minio = \<lparr>
     blob_files = Map.empty, tmp_files = Map.empty, objects = Map.empty,
     has_client = minio, remote_available = False\<rparr>"

text \<open>\<^verbatim>\<open>start\<close>: the bucket is looked up, and made where it is missing; any exception leaves the
  store local.\<close>

definition storage_start :: "bool py_result \<Rightarrow> unit py_result \<Rightarrow> store \<Rightarrow> store" where
  "storage_start bucket_exists make_bucket s =
     (if \<not> has_client s then s
      else case bucket_exists of
             Inl _ \<Rightarrow> s\<lparr>remote_available := False\<rparr>
           | Inr True \<Rightarrow> s\<lparr>remote_available := True\<rparr>
           | Inr False \<Rightarrow> s\<lparr>remote_available := (case make_bucket of Inl _ \<Rightarrow> False | Inr _ \<Rightarrow> True)\<rparr>)"

definition blob_name :: "string \<Rightarrow> string" where
  "blob_name h = h @ ''.bin''"

definition blob_path :: "settings \<Rightarrow> string \<Rightarrow> string" where
  "blob_path cfg h = STORAGE_DIR cfg @ ''/blobs/'' @ blob_name h"

definition object_name :: "string \<Rightarrow> string" where
  "object_name h = ''documents/'' @ h @ ''.bin''"

definition tmp_name :: "string \<Rightarrow> uuid \<Rightarrow> string" where
  "tmp_name h u = h @ ''_'' @ uuid_hex u @ ''.tmp''"

text \<open>The \<^verbatim>\<open>try\<close> block of the save with its handler: a failure leaves no blob, and at most the
  temporary file.\<close>

definition write_blob :: "storage_env \<Rightarrow> string \<Rightarrow> bytes \<Rightarrow> store \<Rightarrow> store" where
  "write_blob env h content s =
     (let tmp = tmp_name h (se_uuid env);
          clean = (\<lambda>s. if tmp_files s tmp \<noteq> None \<and> \<not> se_unlink_fails env
                       then s\<lparr>tmp_files := (tmp_files s)(tmp := None)\<rparr> else s)
      in if se_open_fails env then clean s
         else case se_written env of
                Some n \<Rightarrow> clean (s\<lparr>tmp_files := (tmp_files s)(tmp \<mapsto> take n content)\<rparr>)
              | None \<Rightarrow>
                  (let s1 = s\<lparr>tmp_files := (tmp_files s)(tmp \<mapsto> content)\<rparr>
                   in if se_replace_fails env then clean s1
                      else s1\<lparr>tmp_files := (tmp_files s1)(tmp := None),
                              blob_files := (blob_files s1)(blob_name h \<mapsto> content)\<rparr>))"

text \<open>The part before the upload: \<^verbatim>\<open>Some\<close> the result where the save ends here.\<close>

definition save_local ::
  "settings \<Rightarrow> storage_env \<Rightarrow> bytes \<Rightarrow> (store, (string \<times> nat \<times> string) option) op" where
  "save_local cfg env content s =
     (if MAX_PAYLOAD_BYTES cfg < int (length content) then (Inl ValueError, s)
      else
        (let h = sha256_hex content
         in if blob_files s (blob_name h) \<noteq> None
            then (Inr (Some (h, length content, blob_path cfg h)), s)
            else
              (let s' = write_blob env h content s
               in if remote_available s' then (Inr None, s')
                  else (Inr (Some (h, length content, blob_path cfg h)), s'))))"

definition put_remote :: "storage_env \<Rightarrow> bytes \<Rightarrow> (store, string \<times> nat \<times> string) op" where
  "put_remote env content =
     with_fault (se_put env)
       (\<lambda>s. let h = sha256_hex content
            in (Inr (h, length content, object_name h),
                s\<lparr>objects := (objects s)(object_name h \<mapsto> content)\<rparr>))"

definition save_document ::
  "settings \<Rightarrow> storage_env \<Rightarrow> bytes \<Rightarrow> (store, string \<times> nat \<times> string) op" where
  "save_document cfg env content =
     op_bind (save_local cfg env content) (\<lambda>r.
       case r of
         Some triple \<Rightarrow> op_return triple
       | None \<Rightarrow> put_remote env content)"

definition read_document :: "bool \<Rightarrow> string \<Rightarrow> store \<Rightarrow> bytes py_result" where
  "read_document readable h s =
     (case blob_files s (blob_name h) of
        None \<Rightarrow> Inl FileNotFoundError
      | Some content \<Rightarrow> if readable then Inr content else Inl OSError)"

section \<open>The addressing invariant\<close>

text \<open>Whatever is stored under a digest's name has that digest.\<close>

definition cas_inv :: "store \<Rightarrow> bool" where
  "cas_inv s \<longleftrightarrow>
     (\<forall>n c. blob_files s n = Some c \<longrightarrow> n = blob_name (sha256_hex c)) \<and>
     (\<forall>n c. objects s n = Some c \<longrightarrow> n = object_name (sha256_hex c)) \<and>
     (remote_available s \<longrightarrow> has_client s)"

lemma blob_name_inj [simp]: "blob_name h = blob_name h' \<longleftrightarrow> h = h'"
  by (simp add: blob_name_def)

lemma object_name_inj [simp]: "object_name h = object_name h' \<longleftrightarrow> h = h'"
  by (simp add: object_name_def)

lemma cas_inv_new: "cas_inv (new_store minio)"
  by (simp add: cas_inv_def new_store_def)

lemma cas_inv_start: "cas_inv s \<Longrightarrow> cas_inv (storage_start r m s)"
  by (auto simp: cas_inv_def storage_start_def split: sum.split bool.split)

lemma write_blob_frame [simp]:
  "objects (write_blob env h c s) = objects s" "has_client (write_blob env h c s) = has_client s"
  "remote_available (write_blob env h c s) = remote_available s"
  by (auto simp: write_blob_def Let_def split: option.split)

definition write_ok :: "storage_env \<Rightarrow> bool" where
  "write_ok env \<longleftrightarrow> \<not> se_open_fails env \<and> se_written env = None \<and> \<not> se_replace_fails env"

text \<open>The file appears whole or not at all.\<close>

lemma write_blob_files:
  "blob_files (write_blob env h c s) =
     (if write_ok env then (blob_files s)(blob_name h \<mapsto> c) else blob_files s)"
  by (auto simp: write_blob_def write_ok_def Let_def split: option.split)

text \<open>No temporary file is left unless removing it failed.\<close>

lemma write_blob_tmp:
  assumes "\<not> se_unlink_fails env" "tmp_files s (tmp_name h (se_uuid env)) = None"
  shows "tmp_files (write_blob env h c s) = tmp_files s"
  using assms by (auto simp: write_blob_def Let_def fun_eq_iff split: option.split)

lemma keeps_save_local [op_keeps]: "keeps cas_inv (save_local cfg env c)"
  by (rule keepsI) (auto simp: save_local_def Let_def cas_inv_def write_blob_files)

lemma keeps_put_remote [op_keeps]: "keeps cas_inv (put_remote env c)"
  unfolding put_remote_def by (intro op_keeps) (auto simp: keeps_def Let_def cas_inv_def)

lemma keeps_save_document [op_keeps]: "keeps cas_inv (save_document cfg env c)"
  unfolding save_document_def
  by (intro op_keeps) (simp add: op_keeps split: option.split)

section \<open>What a save returns\<close>

lemma save_local_blob:
  assumes "int (length c) \<le> MAX_PAYLOAD_BYTES cfg"
  shows "blob_files (snd (save_local cfg env c s)) =
     (if blob_files s (blob_name (sha256_hex c)) = None \<and> write_ok env
      then (blob_files s)(blob_name (sha256_hex c) \<mapsto> c) else blob_files s)"
  using assms by (auto simp: save_local_def Let_def write_blob_files)

lemma put_remote_blob [simp]: "blob_files (snd (put_remote env c s)) = blob_files s"
  by (cases "se_put env") (simp_all add: put_remote_def Let_def)

lemma save_document_blob:
  assumes "int (length c) \<le> MAX_PAYLOAD_BYTES cfg"
  shows "blob_files (snd (save_document cfg env c s)) = blob_files (snd (save_local cfg env c s))"
  by (auto simp: save_document_def op_bind_def op_return_def split: prod.split sum.split option.split)

lemma save_document_result:
  assumes "save_document cfg env c s = (Inr (h, n, path), s')"
  shows "h = sha256_hex c \<and> n = length c \<and> int n \<le> MAX_PAYLOAD_BYTES cfg \<and>
    (path = blob_path cfg h \<or> remote_available s \<and> path = object_name h \<and> objects s' (object_name h) = Some c)"
  using assms
  by (cases "se_put env")
     (auto simp: save_document_def op_Inr save_local_def put_remote_def Let_def split: if_splits option.splits)

text \<open>The size check has been made by the caller: a save of an admitted body raises only when the
  upload does.\<close>

lemma save_document_raises:
  assumes "save_document cfg env c s = (Inl e, s')" "int (length c) \<le> MAX_PAYLOAD_BYTES cfg"
  shows "remote_available s \<and> se_put env \<noteq> NoFault \<and> e = ExternalError"
  using assms
  by (cases "se_put env")
     (auto simp: save_document_def op_bind_def op_return_def save_local_def put_remote_def Let_def split: if_splits)

lemma save_document_frame [simp]:
  "remote_available (snd (save_document cfg env c s)) = remote_available s"
  "has_client (snd (save_document cfg env c s)) = has_client s"
  by (cases "se_put env";
      auto simp: save_document_def op_bind_def op_return_def save_local_def put_remote_def Let_def)+

section \<open>Properties of the store\<close>

text \<open>A save in which nothing goes wrong.\<close>

definition calm :: storage_env where
  "calm = \<lparr>
     se_uuid = 0, se_open_fails = False, se_written = None, se_replace_fails = False,
     se_unlink_fails = False, se_put = NoFault\<rparr>"

lemma calm_facts [simp]:
  "write_ok calm" "se_put calm = NoFault" "\<not> write_ok (calm\<lparr>se_open_fails := True\<rparr>)"
  "write_ok (calm\<lparr>se_put := f\<rparr>)"
  by (simp_all add: calm_def write_ok_def)

lemma new_store_facts [simp]:
  "blob_files (new_store m) n = None" "objects (new_store m) n = None" "remote_available (new_store m) = False"
  "blob_files (storage_start r b (new_store m)) n = None" "objects (storage_start r b (new_store m)) n = None"
  by (auto simp: new_store_def storage_start_def split: sum.split bool.split)

lemma default_payload [simp]: "int (length [b]) \<le> MAX_PAYLOAD_BYTES default_settings"
  by (simp add: default_settings_def)

text \<open>C23: the store is content-addressed for ever: whatever is saved in whatever order, with whatever
  failures of the disk and of MinIO, every blob and every object lies under the digest of its own
  bytes; no reader ever finds other bytes, or half of them, under a digest.\<close>

theorem store_is_addressed_by_content:
  assumes "cas_inv s"
  shows "cas_inv (foldl (\<lambda>s x. snd (save_document cfg (fst x) (snd x) s)) s saves)"
  using assms
proof (induction saves arbitrary: s)
  case (Cons x saves)
  have "cas_inv (snd (save_document cfg (fst x) (snd x) s))"
    using keeps_save_document Cons.prems by (rule keepsD)
  then show ?case using Cons.IH by simp
qed simp

theorem store_is_addressed_by_content_witness:
  "cas_inv (foldl (\<lambda>s x. snd (save_document default_settings (fst x) (snd x) s)) (new_store True)
     [(calm\<lparr>se_written := Some 1, se_unlink_fails := True\<rparr>, [1, 2]), (calm, [1, 2])])"
  by (rule store_is_addressed_by_content [OF cas_inv_new])

text \<open>C24: what was saved is read back: a save without a failure returns the digest, the size and a path,
  and reading the digest then gives the same bytes, provided no other bytes of the same digest were
  stored before.\<close>

theorem saved_document_is_read_back:
  assumes "write_ok env" "se_put env = NoFault" "int (length c) \<le> MAX_PAYLOAD_BYTES cfg"
    "blob_files s (blob_name (sha256_hex c)) \<in> {None, Some c}"
  shows "\<exists>path s'. save_document cfg env c s = (Inr (sha256_hex c, length c, path), s') \<and>
    read_document True (sha256_hex c) s' = Inr c"
proof (cases "save_document cfg env c s")
  case (Pair r s')
  obtain v where r: "r = Inr v" using save_document_raises [of cfg env c s _ s'] Pair assms(2,3) by (cases r) auto
  obtain h n path where v: "v = (h, n, path)" by (cases v)
  have "h = sha256_hex c" "n = length c" using save_document_result [of cfg env c s h n path s'] Pair r v by simp_all
  moreover have "blob_files s' (blob_name (sha256_hex c)) = Some c"
    using save_document_blob [OF assms(3), of env s] save_local_blob [OF assms(3), of env s] Pair assms(1,4) by auto
  ultimately show ?thesis using Pair r v by (simp add: read_document_def)
qed

theorem saved_document_is_read_back_witness:
  "\<exists>path s'. save_document default_settings calm [7] (new_store False) = (Inr (sha256_hex [7], length [7 :: 8 word], path), s') \<and>
    read_document True (sha256_hex [7]) s' = Inr [7]"
  by (rule saved_document_is_read_back [OF calm_facts(1,2) default_payload]) simp

text \<open>A failed write is not noticed: without MinIO a save whose file could not be written still
  returns the path of a blob, and reading it raises FileNotFoundError.\<close>

theorem failed_write_is_accepted:
  assumes "\<not> write_ok env" "\<not> remote_available s" "int (length c) \<le> MAX_PAYLOAD_BYTES cfg"
    "blob_files s (blob_name (sha256_hex c)) = None"
  shows "\<exists>s'. save_document cfg env c s = (Inr (sha256_hex c, length c, blob_path cfg (sha256_hex c)), s') \<and>
    read_document True (sha256_hex c) s' = Inl FileNotFoundError"
proof -
  let ?s = "write_blob env (sha256_hex c) c s"
  have "save_document cfg env c s = (Inr (sha256_hex c, length c, blob_path cfg (sha256_hex c)), ?s)"
    using assms(2-4) by (simp add: save_document_def save_local_def Let_def op_return_def)
  moreover have "blob_files ?s (blob_name (sha256_hex c)) = None"
    using assms(1,4) by (simp add: write_blob_files)
  ultimately show ?thesis by (simp add: read_document_def)
qed

theorem failed_write_is_accepted_witness:
  "\<exists>s'. save_document default_settings (calm\<lparr>se_open_fails := True\<rparr>) [7] (new_store False) =
      (Inr (sha256_hex [7], length [7 :: 8 word], blob_path default_settings (sha256_hex [7])), s') \<and>
    read_document True (sha256_hex [7]) s' = Inl FileNotFoundError"
  by (rule failed_write_is_accepted [OF calm_facts(3) _ default_payload]) simp_all

text \<open>A failed upload is never made up for: the save whose upload failed raises, and when the client
  sends the document again the blob is found on disk, the save succeeds with the local path, and
  MinIO still has no object for it.\<close>

theorem failed_upload_is_skipped_later:
  assumes "cas_inv s" "remote_available s" "write_ok env" "se_put env = FailsBefore"
    "int (length c) \<le> MAX_PAYLOAD_BYTES cfg"
    "blob_files s (blob_name (sha256_hex c)) = None" "objects s (object_name (sha256_hex c)) = None"
  shows "\<exists>s'. save_document cfg env c s = (Inl ExternalError, s') \<and>
    save_document cfg env' c s' = (Inr (sha256_hex c, length c, blob_path cfg (sha256_hex c)), s') \<and>
    objects s' (object_name (sha256_hex c)) = None"
proof -
  let ?s = "write_blob env (sha256_hex c) c s"
  have "save_document cfg env c s = (Inl ExternalError, ?s)"
    using assms(2,4-6) by (simp add: save_document_def save_local_def put_remote_def Let_def)
  moreover have "blob_files ?s (blob_name (sha256_hex c)) = Some c" using assms(3) by (simp add: write_blob_files)
  then have "save_document cfg env' c ?s = (Inr (sha256_hex c, length c, blob_path cfg (sha256_hex c)), ?s)"
    using assms(5) by (simp add: save_document_def save_local_def Let_def op_return_def)
  ultimately show ?thesis using assms(7) by simp
qed

theorem failed_upload_is_skipped_later_witness:
  "\<exists>s'. save_document default_settings (calm\<lparr>se_put := FailsBefore\<rparr>) [7] (storage_start (Inr True) (Inr ()) (new_store True)) =
      (Inl ExternalError, s') \<and>
    save_document default_settings calm [7] s' =
      (Inr (sha256_hex [7], length [7 :: 8 word], blob_path default_settings (sha256_hex [7])), s') \<and>
    objects s' (object_name (sha256_hex [7])) = None"
proof (rule failed_upload_is_skipped_later [OF _ _ _ _ default_payload])
  show "cas_inv (storage_start (Inr True) (Inr ()) (new_store True))" by (rule cas_inv_start [OF cas_inv_new])
  show "remote_available (storage_start (Inr True) (Inr ()) (new_store True))"
    by (simp add: storage_start_def new_store_def)
qed simp_all

end
