(* ===== verification/Ingest.thy ===== *)
theory Ingest imports ApiRepository Limiter TokenBucket ApiMetrics Producer Storage begin

text \<open>
  The ingestion handler of \<^verbatim>\<open>api/src/main.py\<close> (\<^verbatim>\<open>POST /api/v1/ingest\<close>) with the API's state.
  The handler is cut where it awaits a service: \<^verbatim>\<open>phase\<close> is its program counter with the local
  variables that are live there, \<^verbatim>\<open>handler_step\<close> runs it from one cut to the next, and
  \<^verbatim>\<open>ingest\<close> runs one request to its response.  Clock readings, fresh identifiers and what
  the services do are the request's \<^verbatim>\<open>ingest_env\<close>.
\<close>

section \<open>The API's state\<close>

record app =
  a_limiter :: limiter
  a_buckets :: token_limiter
  a_store :: store
  a_producer :: producer
  a_pool :: bool
  a_db :: database
  local_job_cache :: "string \<rightharpoonup> (string \<times> pyval) list"
  local_idemp_cache :: "pykey \<rightharpoonup> string"
  a_metrics :: "metric_call list"

definition new_app :: "settings \<Rightarrow> bool \<Rightarrow> app" where
  "new_app cfg minio = \<lparr>
     a_limiter = adaptive_limiter cfg,
     a_buckets = token_bucket_limiter cfg,
     a_store = new_store minio,
     a_producer = new_producer,
     a_pool = False,
     a_db = empty_database,
     local_job_cache = Map.empty,
     local_idemp_cache = Map.empty,
     a_metrics = []\<rparr>"

text \<open>The start of the lifespan: the repository's failure is caught, the store and the producer
  catch their own.\<close>

definition app_startup ::
  "bool \<Rightarrow> bool py_result \<Rightarrow> unit py_result \<Rightarrow> bool \<Rightarrow> bool \<Rightarrow> app \<Rightarrow> app" where
  "app_startup db_ok bucket_exists make_bucket made started a = a\<lparr>
     a_pool := db_ok,
     a_store := storage_start bucket_exists make_bucket (a_store a),
     a_producer := producer_start made started (a_producer a)\<rparr>"

definition log_metrics :: "metric_call list \<Rightarrow> app \<Rightarrow> app" where
  "log_metrics ms a = a\<lparr>a_metrics := a_metrics a @ ms\<rparr>"

definition on_db :: "(database, 'a) op \<Rightarrow> (app, 'a) op" where
  "on_db m a = (case m (a_db a) of (r, d) \<Rightarrow> (r, a\<lparr>a_db := d\<rparr>))"

definition on_store :: "(store, 'a) op \<Rightarrow> (app, 'a) op" where
  "on_store m a = (case m (a_store a) of (r, s) \<Rightarrow> (r, a\<lparr>a_store := s\<rparr>))"

definition on_producer :: "(producer, 'a) op \<Rightarrow> (app, 'a) op" where
  "on_producer m a = (case m (a_producer a) of (r, p) \<Rightarrow> (r, a\<lparr>a_producer := p\<rparr>))"

section \<open>Requests and responses\<close>

record request =
  rq_content_type :: string
  rq_json :: "pyval py_result"
  rq_form :: "(string \<times> pyval) list py_result"
  rq_body :: "bytes py_result"
  rq_agency :: "string option"

record ingest_env =
  ev_start :: pyfloat
  ev_bucket_now :: pyfloat
  ev_storage :: storage_env
  ev_job :: uuid
  ev_ingested_at :: pyfloat
  ev_select :: fault
  ev_insert :: fault
  ev_ids :: new_ids
  ev_published_at :: pyfloat
  ev_send :: send_reply
  ev_update :: fault
  ev_update_now :: int
  ev_event_ids :: "uuid \<times> uuid \<times> uuid"
  ev_reject :: fault
  ev_publish_log :: fault
  ev_accept_log :: fault
  ev_done :: pyfloat
  ev_end :: pyfloat
  ev_client_exn :: string

record response =
  resp_status :: nat
  retry_after :: "string option"
  resp_body :: "(string \<times> pyval) list"

text \<open>A \<^verbatim>\<open>JSONResponse\<close> renders its content when it is made.\<close>

definition json_response :: "nat \<Rightarrow> string option \<Rightarrow> (string \<times> pyval) list \<Rightarrow> response py_result" where
  "json_response code hint body =
     py_bind (json_dumps False (PDict body)) (\<lambda>_.
       Inr \<lparr>resp_status = code, retry_after = hint, resp_body = body\<rparr>)"

definition endpoint :: string where
  "endpoint = ''/api/v1/ingest''"

definition exn_name :: "string \<Rightarrow> py_exn \<Rightarrow> string" where
  "exn_name client e =
     (case e of
        ValueError \<Rightarrow> ''ValueError'' | TypeError \<Rightarrow> ''TypeError''
      | AttributeError \<Rightarrow> ''AttributeError'' | KeyError \<Rightarrow> ''KeyError''
      | IndexError \<Rightarrow> ''IndexError'' | ZeroDivisionError \<Rightarrow> ''ZeroDivisionError''
      | AssertionError \<Rightarrow> ''AssertionError'' | RuntimeError \<Rightarrow> ''RuntimeError''
      | FileNotFoundError \<Rightarrow> ''FileNotFoundError'' | OSError \<Rightarrow> ''OSError''
      | HTTPException _ \<Rightarrow> ''HTTPException'' | ExternalError \<Rightarrow> client)"

text \<open>What an exception becomes: FastAPI renders an \<^verbatim>\<open>HTTPException\<close> with its status, and the
  global handler answers every other with 429.\<close>

definition exception_response :: "string \<Rightarrow> py_exn \<Rightarrow> response" where
  "exception_response client e =
     (case e of
        HTTPException code \<Rightarrow>
          \<lparr>resp_status = code, retry_after = None, resp_body = [(''detail'', PStr [])]\<rparr>
      | _ \<Rightarrow>
          \<lparr>resp_status = 429, retry_after = Some ''1'',
           resp_body =
             [(''status'', PStr ''REJECTED_TRANSIENT_BACKPRESSURE''),
              (''message'', PStr ''The pipeline is currently operating under high load. Please retry in 1 second.''),
              (''error_type'', PStr (exn_name client e))]\<rparr>)"

definition exception_metrics :: "py_exn \<Rightarrow> metric_call list" where
  "exception_metrics e = (case e of HTTPException _ \<Rightarrow> [] | _ \<Rightarrow> [HttpRequests endpoint ''POST'' 429])"

section \<open>Parsing\<close>

record parsed =
  p_agency :: pyval
  p_audit_type :: pyval
  p_year :: int
  p_auditor :: pyval
  p_key :: pyval
  p_content :: bytes

definition default_parsed :: parsed where
  "default_parsed = \<lparr>
     p_agency = PStr ''agency_default'',
     p_audit_type = PStr ''ISO_27001'',
     p_year = 2026,
     p_auditor = PStr ''Global Cyber Auditing Practice'',
     p_key = PNone,
     p_content = []\<rparr>"

definition braces :: bytes where
  "braces = utf8 ''{}''"

text \<open>\<^verbatim>\<open>d.get(k, default)\<close> on a dict's items\<close>

definition item :: "(string \<times> pyval) list \<Rightarrow> string \<Rightarrow> pyval \<Rightarrow> pyval" where
  "item kvs k d = (case map_of kvs k of None \<Rightarrow> d | Some v \<Rightarrow> v)"

definition json_content :: "(string \<times> pyval) list \<Rightarrow> bytes py_result" where
  "json_content kvs =
     (if item kvs ''content_raw'' PNone \<noteq> PNone then py_encode (item kvs ''content_raw'' PNone)
      else py_bind (json_dumps True (PDict kvs)) (\<lambda>t. Inr (utf8 t)))"

text \<open>
  A JSON body.  Any exception on the way makes the content \<^verbatim>\<open>b"{}"\<close>, and the fields assigned
  before it stay assigned.
\<close>

definition parse_json :: "pyval py_result \<Rightarrow> parsed" where
  "parse_json body =
     (let failed = (\<lambda>p. p\<lparr>p_content := braces\<rparr>) in
      case body of
        Inr (PDict kvs) \<Rightarrow>
          (let p1 = default_parsed\<lparr>
                 p_agency := item kvs ''agency_id'' (PStr ''agency_default''),
                 p_audit_type := item kvs ''audit_type'' (PStr ''ISO_27001'')\<rparr>
           in case py_int (item kvs ''report_year'' (PInt 2026)) of
                Inl _ \<Rightarrow> failed p1
              | Inr year \<Rightarrow>
                  (let p2 = p1\<lparr>
                         p_year := year,
                         p_auditor := item kvs ''auditor_org'' (PStr ''Global Cyber Auditing Practice''),
                         p_key := item kvs ''idempotency_key'' PNone\<rparr>
                   in case json_content kvs of
                        Inl _ \<Rightarrow> failed p2
                      | Inr content \<Rightarrow> p2\<lparr>p_content := content\<rparr>))
      | _ \<Rightarrow> failed default_parsed)"

text \<open>\<^verbatim>\<open>str(v)\<close> of a form field: a string, or the representation of an upload.\<close>

fun field_str :: "pyval \<Rightarrow> string" where
  "field_str (PStr s) = s"
| "field_str (PUpload _ r _) = r"
| "field_str _ = []"

definition form_content :: "(string \<times> pyval) list \<Rightarrow> pyval \<Rightarrow> pyval \<Rightarrow> int \<Rightarrow> bytes py_result" where
  "form_content kvs agency audit year =
     (case item kvs ''file'' PNone of
        PUpload _ _ content \<Rightarrow> content
      | _ \<Rightarrow> Inr (utf8 (field_str agency @ '':'' @ field_str audit @ '':'' @ int_str year)))"

definition parse_form :: "(string \<times> pyval) list py_result \<Rightarrow> parsed py_result" where
  "parse_form form =
     py_bind form (\<lambda>kvs.
     let agency = item kvs ''agency_id'' (PStr ''agency_default'');
         audit = item kvs ''audit_type'' (PStr ''ISO_27001'') in
     py_bind (py_int (item kvs ''report_year'' (PInt 2026))) (\<lambda>year.
     py_bind (form_content kvs agency audit year) (\<lambda>content.
     Inr \<lparr>
       p_agency = agency,
       p_audit_type = audit,
       p_year = year,
       p_auditor = item kvs ''auditor_org'' (PStr ''Global Cyber Auditing Practice''),
       p_key = item kvs ''idempotency_key'' PNone,
       p_content = content\<rparr>)))"

definition parse_raw :: "bytes py_result \<Rightarrow> string option \<Rightarrow> parsed py_result" where
  "parse_raw body agency =
     py_bind body (\<lambda>raw.
       Inr (default_parsed\<lparr>
         p_content := (if raw = [] then braces else raw),
         p_agency := PStr (case agency of None \<Rightarrow> ''agency_default'' | Some a \<Rightarrow> a)\<rparr>))"

definition parse_request :: "request \<Rightarrow> parsed py_result" where
  "parse_request rq =
     (if sublist ''application/json'' (rq_content_type rq) then Inr (parse_json (rq_json rq))
      else if sublist ''multipart/form-data'' (rq_content_type rq) then parse_form (rq_form rq)
      else parse_raw (rq_body rq) (rq_agency rq))"

section \<open>The local variables after storage\<close>

record draft =
  dr_parsed :: parsed
  dr_sha256 :: string
  dr_size :: nat
  dr_path :: string
  dr_job :: string
  dr_state :: "(string \<times> pyval) list"
  dr_partition :: int

definition idemp_id :: "parsed \<Rightarrow> string \<Rightarrow> pyval" where
  "idemp_id p sha = py_or (p_key p) (PStr sha)"

definition local_job_id :: "uuid \<Rightarrow> string" where
  "local_job_id u = ''job-'' @ take 12 (uuid_hex u)"

definition make_draft ::
  "murmur \<Rightarrow> settings \<Rightarrow> ingest_env \<Rightarrow> parsed \<Rightarrow> string \<times> nat \<times> string \<Rightarrow> draft py_result" where
  "make_draft mm cfg env p saved =
     (case saved of (sha, nbytes, path) \<Rightarrow>
      let job = local_job_id (ev_job env) in
      py_bind (hash_key_to_partition mm (p_agency p) (KAFKA_NUM_PARTITIONS cfg)) (\<lambda>partition.
      Inr \<lparr>
        dr_parsed = p, dr_sha256 = sha, dr_size = nbytes, dr_path = path, dr_job = job,
        dr_state =
          [(''job_id'', PStr job),
           (''agency_id'', p_agency p),
           (''audit_type'', p_audit_type p),
           (''report_year'', PStr (int_str (p_year p))),
           (''auditor_org'', p_auditor p),
           (''sha256_checksum'', PStr sha),
           (''status'', PStr ''QUEUED''),
           (''partition'', PStr (int_str partition)),
           (''file_size_bytes'', PStr (int_str (int nbytes))),
           (''ingested_at'', PStr (float_repr (ev_ingested_at env))),
           (''progress_pct'', PStr ''10'')],
        dr_partition = partition\<rparr>))"

definition new_document_of :: "draft \<Rightarrow> new_document" where
  "new_document_of d = \<lparr>
     nd_key = idemp_id (dr_parsed d) (dr_sha256 d),
     nd_agency = p_agency (dr_parsed d),
     nd_filename = ''upload'',
     nd_object_key = dr_path d,
     nd_sha256 = dr_sha256 d,
     nd_size = int (dr_size d),
     nd_audit_type = p_audit_type (dr_parsed d),
     nd_report_year = p_year (dr_parsed d),
     nd_auditor_org = p_auditor (dr_parsed d)\<rparr>"

text \<open>Adopting the database's record: its id and sequence number replace the local ones.\<close>

definition adopt_record :: "doc_row \<Rightarrow> draft \<Rightarrow> draft" where
  "adopt_record row d =
     (let job = uuid_str (document_id row) in
      d\<lparr>dr_job := job,
        dr_state := dict_put ''sequence_number'' (PStr (int_str (sequence_number row)))
                      (dict_put ''job_id'' (PStr job) (dr_state d))\<rparr>)"

definition cache_job :: "draft \<Rightarrow> app \<Rightarrow> app" where
  "cache_job d a = a\<lparr>local_job_cache := (local_job_cache a)(dr_job d \<mapsto> dr_state d)\<rparr>"

text \<open>The fallback on the in-memory maps.\<close>

definition record_locally :: "draft \<Rightarrow> (app, draft \<times> bool) op" where
  "record_locally d a =
     (case py_key (idemp_id (dr_parsed d) (dr_sha256 d)) of
        Inl e \<Rightarrow> (Inl e, a)
      | Inr k \<Rightarrow>
          (case local_idemp_cache a k of
             Some job \<Rightarrow> (Inr (d\<lparr>dr_job := job\<rparr>, True), a)
           | None \<Rightarrow>
               (Inr (d, False),
                cache_job d (a\<lparr>local_idemp_cache := (local_idemp_cache a)(k \<mapsto> dr_job d)\<rparr>))))"

definition sequence_of :: "pyval \<Rightarrow> draft \<Rightarrow> int py_result" where
  "sequence_of dflt d = py_int (item (dr_state d) ''sequence_number'' dflt)"

definition event_payload :: "ingest_env \<Rightarrow> draft \<Rightarrow> int \<Rightarrow> (string \<times> pyval) list" where
  "event_payload env d sequence =
     [(''job_id'', PStr (dr_job d)),
      (''agency_id'', p_agency (dr_parsed d)),
      (''audit_type'', p_audit_type (dr_parsed d)),
      (''report_year'', PInt (p_year (dr_parsed d))),
      (''auditor_org'', p_auditor (dr_parsed d)),
      (''sha256_checksum'', PStr (dr_sha256 d)),
      (''storage_path'', PStr (dr_path d)),
      (''file_size_bytes'', PInt (int (dr_size d))),
      (''object_key'', PStr (dr_path d)),
      (''sequence_number'', PInt sequence),
      (''ingested_at'', PFloat (ev_published_at env))]"

section \<open>The handler's steps\<close>

datatype phase =
    Arrive
  | Parsing
  | Checking parsed
  | Rejecting parsed pyfloat
  | Saving parsed
  | Uploading parsed
  | Recording parsed "string \<times> nat \<times> string"
  | Inserting draft
  | Publishing draft
  | Updating draft broker_meta
  | LoggingPublish draft broker_meta
  | Accepting draft broker_meta
  | LoggingAccept draft broker_meta
  | Unwinding "response py_result"
  | Finished response

text \<open>The end of the request: an exception goes to its handler.\<close>

definition finish :: "ingest_env \<Rightarrow> response py_result \<Rightarrow> app \<Rightarrow> phase \<times> app" where
  "finish env r a =
     (case r of
        Inr resp \<Rightarrow> (Finished resp, a)
      | Inl e \<Rightarrow> (Finished (exception_response (ev_client_exn env) e), log_metrics (exception_metrics e) a))"

definition or_one :: "pyfloat option \<Rightarrow> pyfloat" where
  "or_one h = (case h of None \<Rightarrow> 1 | Some x \<Rightarrow> if x = 0 then 1 else x)"

definition saturated_response :: "pyfloat \<Rightarrow> limiter \<Rightarrow> response py_result" where
  "saturated_response hint l =
     json_response 429 (Some (float_repr hint))
       [(''status'', PStr ''REJECTED_BACKPRESSURE''),
        (''reason'', PStr ''Pipeline concurrency capacity saturated. Shedding load gracefully.''),
        (''retry_after_seconds'', PFloat hint),
        (''current_limit'', PFloat (py_round (current_limit l) 2)),
        (''in_flight'', PInt (in_flight l))]"

definition step_arrive :: "ingest_env \<Rightarrow> app \<Rightarrow> phase \<times> app" where
  "step_arrive env a =
     (case acquire (a_limiter a) of
        ((True, _), l) \<Rightarrow> (Parsing, log_metrics [ActivePipelinesInc] (a\<lparr>a_limiter := l\<rparr>))
      | ((False, hint), l) \<Rightarrow>
          finish env (saturated_response (or_one hint) l)
            (log_metrics [BackpressureRejections ''concurrency_limit_exceeded'', HttpRequests endpoint ''POST'' 429]
               (a\<lparr>a_limiter := l\<rparr>)))"

definition step_parse :: "request \<Rightarrow> app \<Rightarrow> phase \<times> app" where
  "step_parse rq a = (case parse_request rq of Inl e \<Rightarrow> (Unwinding (Inl e), a) | Inr p \<Rightarrow> (Checking p, a))"

definition agency_response :: "parsed \<Rightarrow> pyfloat \<Rightarrow> response py_result" where
  "agency_response p wait =
     json_response 429 (Some (float_repr wait))
       [(''status'', PStr ''REJECTED_AGENCY_RATE_LIMIT''),
        (''agency_id'', p_agency p),
        (''reason'', PStr ''Agency submission burst threshold exceeded. Please throttle uploads.''),
        (''retry_after_seconds'', PFloat wait)]"

definition step_check :: "settings \<Rightarrow> ingest_env \<Rightarrow> parsed \<Rightarrow> app \<Rightarrow> phase \<times> app" where
  "step_check cfg env p a =
     (case check_agency_limit (ev_bucket_now env) (p_agency p) (a_buckets a) of
        (Inl e, t) \<Rightarrow> (Unwinding (Inl e), a\<lparr>a_buckets := t\<rparr>)
      | (Inr (False, wait), t) \<Rightarrow>
          (let a' = log_metrics [BackpressureRejections ''rate_limit_exceeded'', HttpRequests endpoint ''POST'' 429]
                      (a\<lparr>a_buckets := t\<rparr>)
           in if a_pool a' then (Rejecting p (or_one wait), a')
              else (Unwinding (agency_response p (or_one wait)), a'))
      | (Inr (True, _), t) \<Rightarrow>
          (if MAX_PAYLOAD_BYTES cfg < int (length (p_content p))
           then (Unwinding (Inl (HTTPException 413)),
                 log_metrics [HttpRequests endpoint ''POST'' 413] (a\<lparr>a_buckets := t\<rparr>))
           else (Saving p, log_metrics [IngestedBytes (length (p_content p))] (a\<lparr>a_buckets := t\<rparr>))))"

definition backpressure_event :: "parsed \<Rightarrow> pyfloat \<Rightarrow> new_event" where
  "backpressure_event p wait = \<lparr>
     ne_document = None, ne_agency = p_agency p, ne_sequence = None,
     ne_type = HTTP_429_BACKPRESSURE, ne_worker = None, ne_partition = None, ne_offset = None,
     ne_severity = WARNING,
     ne_message = ''Agency submission burst threshold exceeded.'',
     ne_metadata = PDict [(''retry_after_seconds'', PFloat wait), (''agency_id'', p_agency p)]\<rparr>"

definition step_reject :: "ingest_env \<Rightarrow> parsed \<Rightarrow> pyfloat \<Rightarrow> app \<Rightarrow> phase \<times> app" where
  "step_reject env p wait a =
     (case on_db (with_fault (ev_reject env) (append_event (backpressure_event p wait) (fst (ev_event_ids env)))) a of
        (Inl e, a') \<Rightarrow> (Unwinding (Inl e), a')
      | (Inr _, a') \<Rightarrow> (Unwinding (agency_response p wait), a'))"

definition step_save :: "settings \<Rightarrow> ingest_env \<Rightarrow> parsed \<Rightarrow> app \<Rightarrow> phase \<times> app" where
  "step_save cfg env p a =
     (case on_store (save_local cfg (ev_storage env) (p_content p)) a of
        (Inl e, a') \<Rightarrow> (Unwinding (Inl e), a')
      | (Inr (Some saved), a') \<Rightarrow> (Recording p saved, a')
      | (Inr None, a') \<Rightarrow> (Uploading p, a'))"

definition step_upload :: "ingest_env \<Rightarrow> parsed \<Rightarrow> app \<Rightarrow> phase \<times> app" where
  "step_upload env p a =
     (case on_store (put_remote (ev_storage env) (p_content p)) a of
        (Inl e, a') \<Rightarrow> (Unwinding (Inl e), a')
      | (Inr saved, a') \<Rightarrow> (Recording p saved, a'))"

definition latency_ms :: "ingest_env \<Rightarrow> pyfloat" where
  "latency_ms env = py_round ((ev_done env - ev_start env) * Fl 1000) 2"

definition duplicate_response :: "ingest_env \<Rightarrow> draft \<Rightarrow> response py_result" where
  "duplicate_response env d =
     json_response 200 None
       [(''job_id'', PStr (dr_job d)),
        (''status'', PStr ''DUPLICATE_ACCEPTED''),
        (''agency_id'', p_agency (dr_parsed d)),
        (''sha256_checksum'', PStr (dr_sha256 d)),
        (''is_idempotent_duplicate'', PBool True),
        (''message'', PStr ''Identical document already ingested and queued/processed.''),
        (''status_url'', PStr (''/api/v1/status/'' @ dr_job d)),
        (''latency_ms'', PFloat (latency_ms env))]"

text \<open>After the recording: a duplicate is answered at once, a new document is published.\<close>

definition after_record :: "ingest_env \<Rightarrow> draft \<times> bool \<Rightarrow> app \<Rightarrow> phase \<times> app" where
  "after_record env r a =
     (if snd r
      then (Unwinding (duplicate_response env (fst r)),
            log_metrics [HttpRequests endpoint ''POST'' 200,
                         HttpDuration endpoint ''POST'' (ev_done env - ev_start env)] a)
      else (Publishing (fst r), a))"

definition fall_back :: "ingest_env \<Rightarrow> draft \<Rightarrow> app \<Rightarrow> phase \<times> app" where
  "fall_back env d a =
     (case record_locally d a of
        (Inl e, a') \<Rightarrow> (Unwinding (Inl e), a')
      | (Inr r, a') \<Rightarrow> after_record env r a')"

definition step_record ::
  "murmur \<Rightarrow> settings \<Rightarrow> ingest_env \<Rightarrow> parsed \<Rightarrow> string \<times> nat \<times> string \<Rightarrow> app \<Rightarrow> phase \<times> app" where
  "step_record mm cfg env p saved a =
     (case make_draft mm cfg env p saved of
        Inl e \<Rightarrow> (Unwinding (Inl e), a)
      | Inr d \<Rightarrow>
          (if \<not> a_pool a then fall_back env d a
           else case on_db (with_fault (ev_select env) (cog_select (new_document_of d))) a of
                  (Inl _, a') \<Rightarrow> fall_back env d a'
                | (Inr (Some row), a') \<Rightarrow>
                    (let d' = adopt_record row d in after_record env (d', True) (cache_job d' a'))
                | (Inr None, a') \<Rightarrow> (Inserting d, a')))"

definition step_insert :: "ingest_env \<Rightarrow> draft \<Rightarrow> app \<Rightarrow> phase \<times> app" where
  "step_insert env d a =
     (case on_db (with_fault (ev_insert env) (cog_insert (new_document_of d) (ev_ids env))) a of
        (Inl _, a') \<Rightarrow> fall_back env d a'
      | (Inr row, a') \<Rightarrow>
          (let d' = adopt_record row d in after_record env (d', False) (cache_job d' a')))"

definition step_publish :: "murmur \<Rightarrow> settings \<Rightarrow> ingest_env \<Rightarrow> draft \<Rightarrow> app \<Rightarrow> phase \<times> app" where
  "step_publish mm cfg env d a =
     (case sequence_of (PStr ''0'') d of
        Inl e \<Rightarrow> (Unwinding (Inl e), a)
      | Inr sequence \<Rightarrow>
          (case on_producer (send_audit_event mm cfg (ev_send env) (p_agency (dr_parsed d))
                               (event_payload env d sequence) (KAFKA_TOPIC_INGEST cfg)) a of
             (Inl e, a') \<Rightarrow> (Unwinding (Inl e), a')
           | (Inr bm, a') \<Rightarrow> (if a_pool a' then (Updating d bm, a') else (Accepting d bm, a'))))"

definition published_update :: "broker_meta \<Rightarrow> metadata_update" where
  "published_update bm = \<lparr>
     mu_topic = Some (bm_topic bm), mu_partition = Some (bm_partition bm), mu_offset = Some (bm_offset bm),
     mu_worker = None, mu_status = Some QUEUED, mu_started_at = None, mu_completed_at = None,
     mu_duration_ms = None, mu_retry_count = None, mu_error_code = None\<rparr>"

definition step_update :: "ingest_env \<Rightarrow> draft \<Rightarrow> broker_meta \<Rightarrow> app \<Rightarrow> phase \<times> app" where
  "step_update env d bm a =
     (case on_db (with_fault (ev_update env)
                    (update_document_metadata (dr_job d) (published_update bm) (ev_update_now env))) a of
        (Inl e, a') \<Rightarrow> (Unwinding (Inl e), a')
      | (Inr _, a') \<Rightarrow> (LoggingPublish d bm, a'))"

definition published_event :: "draft \<Rightarrow> broker_meta \<Rightarrow> int \<Rightarrow> new_event" where
  "published_event d bm sequence = \<lparr>
     ne_document = Some (dr_job d), ne_agency = p_agency (dr_parsed d), ne_sequence = Some sequence,
     ne_type = KAFKA_PUBLISHED, ne_worker = None,
     ne_partition = Some (bm_partition bm), ne_offset = Some (bm_offset bm), ne_severity = INFO,
     ne_message = ''Document published to Kafka for asynchronous processing.'',
     ne_metadata = PDict [(''topic'', PStr (bm_topic bm)), (''partition'', PInt (bm_partition bm)),
                          (''offset'', PInt (bm_offset bm))]\<rparr>"

text \<open>\<^verbatim>\<open>int(job_state.get("sequence_number", 0) or 0)\<close>\<close>

definition event_sequence_of :: "draft \<Rightarrow> int py_result" where
  "event_sequence_of d = py_int (py_or (item (dr_state d) ''sequence_number'' (PInt 0)) (PInt 0))"

definition step_log_publish :: "ingest_env \<Rightarrow> draft \<Rightarrow> broker_meta \<Rightarrow> app \<Rightarrow> phase \<times> app" where
  "step_log_publish env d bm a =
     (case event_sequence_of d of
        Inl e \<Rightarrow> (Unwinding (Inl e), a)
      | Inr sequence \<Rightarrow>
          (case on_db (with_fault (ev_publish_log env)
                         (append_event (published_event d bm sequence) (fst (snd (ev_event_ids env))))) a of
             (Inl e, a') \<Rightarrow> (Unwinding (Inl e), a')
           | (Inr _, a') \<Rightarrow> (Accepting d bm, a')))"

definition accepted_response :: "ingest_env \<Rightarrow> draft \<Rightarrow> broker_meta \<Rightarrow> response py_result" where
  "accepted_response env d bm =
     json_response 202 None
       [(''job_id'', PStr (dr_job d)),
        (''status'', PStr ''ACCEPTED''),
        (''agency_id'', p_agency (dr_parsed d)),
        (''audit_type'', p_audit_type (dr_parsed d)),
        (''sha256_checksum'', PStr (dr_sha256 d)),
        (''partition'', PInt (dr_partition d)),
        (''broker_status'', PStr (bm_status bm)),
        (''estimated_wait_time_ms'', PInt 120),
        (''latency_ms'', PFloat (latency_ms env)),
        (''status_url'', PStr (''/api/v1/status/'' @ dr_job d))]"

definition step_accept :: "ingest_env \<Rightarrow> draft \<Rightarrow> broker_meta \<Rightarrow> app \<Rightarrow> phase \<times> app" where
  "step_accept env d bm a =
     (let a' = log_metrics [HttpRequests endpoint ''POST'' 202,
                            HttpDuration endpoint ''POST'' (ev_done env - ev_start env)] a
      in if a_pool a' then (LoggingAccept d bm, a') else (Unwinding (accepted_response env d bm), a'))"

definition accepted_event :: "ingest_env \<Rightarrow> draft \<Rightarrow> int \<Rightarrow> new_event" where
  "accepted_event env d sequence = \<lparr>
     ne_document = Some (dr_job d), ne_agency = p_agency (dr_parsed d), ne_sequence = Some sequence,
     ne_type = HTTP_202_ACCEPTED, ne_worker = None, ne_partition = None, ne_offset = None,
     ne_severity = INFO,
     ne_message = ''Request accepted for asynchronous processing.'',
     ne_metadata = PDict [(''status_code'', PInt 202), (''latency_ms'', PFloat (latency_ms env))]\<rparr>"

definition step_log_accept :: "ingest_env \<Rightarrow> draft \<Rightarrow> broker_meta \<Rightarrow> app \<Rightarrow> phase \<times> app" where
  "step_log_accept env d bm a =
     (case event_sequence_of d of
        Inl e \<Rightarrow> (Unwinding (Inl e), a)
      | Inr sequence \<Rightarrow>
          (case on_db (with_fault (ev_accept_log env)
                         (append_event (accepted_event env d sequence) (snd (snd (ev_event_ids env))))) a of
             (Inl e, a') \<Rightarrow> (Unwinding (Inl e), a')
           | (Inr _, a') \<Rightarrow> (Unwinding (accepted_response env d bm), a')))"

text \<open>The \<^verbatim>\<open>finally\<close> block, then the response or the exception's handler.\<close>

definition step_unwind :: "ingest_env \<Rightarrow> response py_result \<Rightarrow> app \<Rightarrow> phase \<times> app" where
  "step_unwind env r a =
     finish env r
       (log_metrics [ActivePipelinesDec]
          (a\<lparr>a_limiter := release ((ev_end env - ev_start env) * Fl 1000) (a_limiter a)\<rparr>))"

fun handler_step :: "murmur \<Rightarrow> settings \<Rightarrow> request \<Rightarrow> ingest_env \<Rightarrow> phase \<Rightarrow> app \<Rightarrow> phase \<times> app" where
  "handler_step mm cfg rq env Arrive a = step_arrive env a"
| "handler_step mm cfg rq env Parsing a = step_parse rq a"
| "handler_step mm cfg rq env (Checking p) a = step_check cfg env p a"
| "handler_step mm cfg rq env (Rejecting p wait) a = step_reject env p wait a"
| "handler_step mm cfg rq env (Saving p) a = step_save cfg env p a"
| "handler_step mm cfg rq env (Uploading p) a = step_upload env p a"
| "handler_step mm cfg rq env (Recording p saved) a = step_record mm cfg env p saved a"
| "handler_step mm cfg rq env (Inserting d) a = step_insert env d a"
| "handler_step mm cfg rq env (Publishing d) a = step_publish mm cfg env d a"
| "handler_step mm cfg rq env (Updating d bm) a = step_update env d bm a"
| "handler_step mm cfg rq env (LoggingPublish d bm) a = step_log_publish env d bm a"
| "handler_step mm cfg rq env (Accepting d bm) a = step_accept env d bm a"
| "handler_step mm cfg rq env (LoggingAccept d bm) a = step_log_accept env d bm a"
| "handler_step mm cfg rq env (Unwinding r) a = step_unwind env r a"
| "handler_step mm cfg rq env (Finished resp) a = (Finished resp, a)"

text \<open>One request run to its end with no other in between.  A handler has at most thirteen steps.\<close>

definition ingest_fuel :: nat where
  "ingest_fuel = 13"

definition ingest :: "murmur \<Rightarrow> settings \<Rightarrow> request \<Rightarrow> ingest_env \<Rightarrow> app \<Rightarrow> phase \<times> app" where
  "ingest mm cfg rq env a = run_phases (handler_step mm cfg rq env) ingest_fuel (Arrive, a)"

end
