(* ===== verification/IngestSteps.thy ===== *)
theory IngestSteps imports Ingest begin

text \<open>
  What one step of the ingestion handler does to the API's state: which parts it may touch, what
  it keeps, and when it takes and gives back the limiter's slot.
\<close>

section \<open>Frames\<close>

lemma log_metrics_frame [simp]:
  "a_limiter (log_metrics ms a) = a_limiter a" "a_buckets (log_metrics ms a) = a_buckets a"
  "a_store (log_metrics ms a) = a_store a" "a_producer (log_metrics ms a) = a_producer a"
  "a_pool (log_metrics ms a) = a_pool a" "a_db (log_metrics ms a) = a_db a"
  "local_job_cache (log_metrics ms a) = local_job_cache a"
  "local_idemp_cache (log_metrics ms a) = local_idemp_cache a"
  "a_metrics (log_metrics ms a) = a_metrics a @ ms"
  by (simp_all add: log_metrics_def)

lemma cache_job_frame [simp]:
  "a_limiter (cache_job d a) = a_limiter a" "a_buckets (cache_job d a) = a_buckets a"
  "a_store (cache_job d a) = a_store a" "a_producer (cache_job d a) = a_producer a"
  "a_pool (cache_job d a) = a_pool a" "a_db (cache_job d a) = a_db a"
  "local_idemp_cache (cache_job d a) = local_idemp_cache a" "a_metrics (cache_job d a) = a_metrics a"
  by (simp_all add: cache_job_def)

lemma on_db_Pair: "on_db m a = (r, a') \<longleftrightarrow> (\<exists>d. m (a_db a) = (r, d) \<and> a' = a\<lparr>a_db := d\<rparr>)"
  by (auto simp: on_db_def split: prod.splits)

lemma on_store_Pair: "on_store m a = (r, a') \<longleftrightarrow> (\<exists>s. m (a_store a) = (r, s) \<and> a' = a\<lparr>a_store := s\<rparr>)"
  by (auto simp: on_store_def split: prod.splits)

lemma on_producer_Pair: "on_producer m a = (r, a') \<longleftrightarrow> (\<exists>p. m (a_producer a) = (r, p) \<and> a' = a\<lparr>a_producer := p\<rparr>)"
  by (auto simp: on_producer_def split: prod.splits)

lemmas on_service = on_db_Pair on_store_Pair on_producer_Pair

lemma finish_frame [simp]:
  "a_limiter (snd (finish env r a)) = a_limiter a" "a_buckets (snd (finish env r a)) = a_buckets a"
  "a_store (snd (finish env r a)) = a_store a" "a_producer (snd (finish env r a)) = a_producer a"
  "a_pool (snd (finish env r a)) = a_pool a" "a_db (snd (finish env r a)) = a_db a"
  "active_pipelines (a_metrics (snd (finish env r a))) = active_pipelines (a_metrics a)"
  by (auto simp: finish_def exception_metrics_def split: sum.split py_exn.split)

lemma record_locally_frame [simp]:
  "a_limiter (snd (record_locally d a)) = a_limiter a" "a_buckets (snd (record_locally d a)) = a_buckets a"
  "a_store (snd (record_locally d a)) = a_store a" "a_producer (snd (record_locally d a)) = a_producer a"
  "a_pool (snd (record_locally d a)) = a_pool a" "a_db (snd (record_locally d a)) = a_db a"
  "a_metrics (snd (record_locally d a)) = a_metrics a"
  by (auto simp: record_locally_def split: sum.split option.split)

lemma after_record_frame [simp]:
  "a_limiter (snd (after_record env r a)) = a_limiter a" "a_buckets (snd (after_record env r a)) = a_buckets a"
  "a_store (snd (after_record env r a)) = a_store a" "a_producer (snd (after_record env r a)) = a_producer a"
  "a_pool (snd (after_record env r a)) = a_pool a" "a_db (snd (after_record env r a)) = a_db a"
  "active_pipelines (a_metrics (snd (after_record env r a))) = active_pipelines (a_metrics a)"
  by (auto simp: after_record_def)

lemma fall_back_frame [simp]:
  "a_limiter (snd (fall_back env d a)) = a_limiter a" "a_buckets (snd (fall_back env d a)) = a_buckets a"
  "a_store (snd (fall_back env d a)) = a_store a" "a_producer (snd (fall_back env d a)) = a_producer a"
  "a_pool (snd (fall_back env d a)) = a_pool a" "a_db (snd (fall_back env d a)) = a_db a"
  "active_pipelines (a_metrics (snd (fall_back env d a))) = active_pipelines (a_metrics a)"
  using record_locally_frame [of d a]
  by (cases "record_locally d a"; cases "fst (record_locally d a)";
      simp add: fall_back_def del: record_locally_frame)+

text \<open>The splits of the steps' nested cases.\<close>

lemmas step_splits = prod.split sum.split option.split bool.split if_splits

lemmas step_defs = step_arrive_def step_parse_def step_check_def step_reject_def step_save_def
  step_upload_def step_record_def step_insert_def step_publish_def step_update_def
  step_log_publish_def step_accept_def step_log_accept_def step_unwind_def

lemma handler_pool [simp]: "a_pool (snd (handler_step mm cfg rq env ph a)) = a_pool a"
  by (cases ph) (auto simp: step_defs Let_def on_service split: step_splits)

section \<open>The database\<close>

text \<open>
  The contract between the repository and its clients: a property of databases that the API's
  statements keep.  The handler keeps it then at every step that inserts no document.
\<close>

locale statement_invariant =
  fixes P :: "database \<Rightarrow> bool"
  assumes keeps_update: "keeps P (update_document_metadata job (published_update bm) now)"
    and keeps_append: "keeps P (append_event ne fresh)"
begin

lemma on_db_keeps: "keeps P m \<Longrightarrow> P (a_db a) \<Longrightarrow> on_db (with_fault f m) a = (r, a') \<Longrightarrow> P (a_db a')"
  using keepsD [OF keeps_with_fault, of P m "a_db a" f] by (auto simp: on_db_Pair)

lemma step_keeps:
  assumes "P (a_db a)" "\<And>d. ph \<noteq> Inserting d"
  shows "P (a_db (snd (handler_step mm cfg rq env ph a)))"
proof (cases ph)
  case Arrive
  then show ?thesis using assms by (auto simp: step_arrive_def split: step_splits)
next
  case Parsing
  then show ?thesis using assms by (auto simp: step_parse_def split: step_splits)
next
  case (Checking p)
  then show ?thesis using assms by (auto simp: step_check_def Let_def split: step_splits)
next
  case (Rejecting p wait)
  then show ?thesis using assms on_db_keeps [OF keeps_append]
    by (fastforce simp: step_reject_def split: step_splits)
next
  case (Saving p)
  then show ?thesis using assms by (auto simp: step_save_def on_service split: step_splits)
next
  case (Uploading p)
  then show ?thesis using assms by (auto simp: step_upload_def on_service split: step_splits)
next
  case (Recording p saved)
  then show ?thesis using assms on_db_keeps [OF keeps_cog_select]
    by (fastforce simp: step_record_def Let_def split: step_splits)
next
  case (Publishing d)
  then show ?thesis using assms by (auto simp: step_publish_def on_service split: step_splits)
next
  case (Updating d bm)
  then show ?thesis using assms on_db_keeps [OF keeps_update]
    by (fastforce simp: step_update_def split: step_splits)
next
  case (LoggingPublish d bm)
  then show ?thesis using assms on_db_keeps [OF keeps_append]
    by (fastforce simp: step_log_publish_def split: step_splits)
next
  case (Accepting d bm)
  then show ?thesis using assms by (auto simp: step_accept_def Let_def)
next
  case (LoggingAccept d bm)
  then show ?thesis using assms on_db_keeps [OF keeps_append]
    by (fastforce simp: step_log_accept_def split: step_splits)
qed (use assms in \<open>auto simp: step_unwind_def\<close>)

end

text \<open>A property that the insertion of a document keeps as well.\<close>

locale admission_invariant = statement_invariant +
  assumes keeps_insert: "keeps P (cog_insert nd ids)"
begin

lemma handler_keeps:
  assumes "P (a_db a)" shows "P (a_db (snd (handler_step mm cfg rq env ph a)))"
proof (cases "\<exists>d. ph = Inserting d")
  case True
  then show ?thesis using assms on_db_keeps [OF keeps_insert]
    by (fastforce simp: step_insert_def Let_def split: step_splits)
qed (use assms step_keeps in blast)

lemma run_keeps:
  "P (a_db (snd c)) \<Longrightarrow> P (a_db (snd (run_phases (handler_step mm cfg rq env) n c)))"
  by (induction n arbitrary: c) (simp_all add: handler_keeps)

end

lemma agency_sequence_update [simp]:
  assumes "keeps_identity f" shows "agency_sequence a (snd (update_document i f db)) = agency_sequence a db"
proof -
  have "map sequence_number (filter (\<lambda>d. doc_agency d = a) (map (\<lambda>d. if document_id d = i then f d else d) ds))
      = map sequence_number (filter (\<lambda>d. doc_agency d = a) ds)" for ds
    using assms by (induction ds) (auto simp: keeps_identity_def)
  then show ?thesis by (simp add: agency_sequence_def update_document_def)
qed

lemma agency_sequence_event [simp]: "agency_sequence a (snd (insert_event e db)) = agency_sequence a db"
  by (simp add: agency_sequence_def)

lemma keeps_dense_update: "keeps sequences_dense (update_document_metadata job u now)"
  unfolding update_document_metadata_def
  by (intro op_keeps) (simp add: keeps_def sequences_dense_def keeps_identity_apply_update)

lemma keeps_dense_append: "keeps sequences_dense (append_event ne fresh)"
  unfolding append_event_def by (intro op_keeps) (simp add: keeps_def sequences_dense_def)

interpretation constraints: admission_invariant db_inv
  by unfold_locales (rule op_keeps)+

interpretation numbering: admission_invariant sequences_dense
  by unfold_locales (rule keeps_dense_cog_insert keeps_dense_update keeps_dense_append)+

section \<open>The other parts of the state\<close>

lemma check_agency_limit_run: "check_agency_limit now v t = (r, t') \<Longrightarrow> bucket_inv t \<Longrightarrow> bucket_inv t'"
  by (metis check_agency_limit_inv snd_conv)

lemma handler_buckets: "bucket_inv (a_buckets a) \<Longrightarrow> bucket_inv (a_buckets (snd (handler_step mm cfg rq env ph a)))"
  by (cases ph) (auto simp: step_defs Let_def on_service split: step_splits dest: check_agency_limit_run)

lemma handler_store: "cas_inv (a_store a) \<Longrightarrow> cas_inv (a_store (snd (handler_step mm cfg rq env ph a)))"
  by (cases ph)
     (auto simp: step_defs Let_def on_service split: step_splits
       dest: keeps_run [OF keeps_save_local] keeps_run [OF keeps_put_remote])

definition sharded_log :: "murmur \<Rightarrow> settings \<Rightarrow> producer \<Rightarrow> bool" where
  "sharded_log mm cfg p \<longleftrightarrow> (\<forall>r \<in> set (sent p). well_sharded mm cfg r \<and> rec_topic r = KAFKA_TOPIC_INGEST cfg)"

lemma handler_sharded:
  assumes "sharded_log mm cfg (a_producer a)"
  shows "sharded_log mm cfg (a_producer (snd (handler_step mm cfg rq env ph a)))"
proof -
  have "sharded_log mm cfg p'"
    if "send_audit_event mm cfg reply ag pl (KAFKA_TOPIC_INGEST cfg) (a_producer a) = (r, p')" for reply ag pl r p'
    using assms by (cases rule: send_audit_event_sent [OF that]) (auto simp: sharded_log_def)
  then show ?thesis using assms
    by (cases ph) (auto simp: step_defs Let_def on_service split: step_splits)
qed

section \<open>The limiter's slot\<close>

text \<open>A handler holds a slot from its admission to the end of its \<^verbatim>\<open>finally\<close> block.\<close>

fun holds_slot :: "phase \<Rightarrow> bool" where
  "holds_slot Arrive = False"
| "holds_slot (Finished _) = False"
| "holds_slot _ = True"

definition slots :: "phase \<Rightarrow> int" where
  "slots ph = (if holds_slot ph then 1 else 0)"

lemma finish_slots [simp]: "slots (fst (finish env r a)) = 0"
  by (simp add: finish_def slots_def split: sum.split)

lemma after_record_slots [simp]: "slots (fst (after_record env r a)) = 1"
  by (simp add: after_record_def slots_def)

lemma fall_back_slots [simp]: "slots (fst (fall_back env d a)) = 1"
  by (auto simp: fall_back_def slots_def after_record_def split: step_splits)

lemma inner_step:
  assumes "ph \<noteq> Arrive" "\<And>r. ph \<noteq> Unwinding r" "\<And>r. ph \<noteq> Finished r"
  shows "slots (fst (handler_step mm cfg rq env ph a)) = 1 \<and>
    a_limiter (snd (handler_step mm cfg rq env ph a)) = a_limiter a \<and>
    active_pipelines (a_metrics (snd (handler_step mm cfg rq env ph a))) = active_pipelines (a_metrics a)"
  using assms
  by (cases ph)
     (auto simp: step_defs Let_def on_service slots_def [of "Unwinding _"] slots_def [of "Checking _"]
        slots_def [of "Rejecting _ _"] slots_def [of "Saving _"] slots_def [of "Uploading _"]
        slots_def [of "Recording _ _"] slots_def [of "Inserting _"] slots_def [of "Updating _ _"]
        slots_def [of "Accepting _ _"] slots_def [of "LoggingPublish _ _"] slots_def [of "LoggingAccept _ _"]
        split: step_splits)

lemma arrive_step:
  fixes mm cfg rq env a
  defines "s \<equiv> handler_step mm cfg rq env Arrive a"
  shows "a_limiter (snd s) = snd (acquire (a_limiter a))"
    "in_flight (a_limiter (snd s)) = in_flight (a_limiter a) + slots (fst s)"
    "active_pipelines (a_metrics (snd s)) = active_pipelines (a_metrics a) + slots (fst s)"
  unfolding s_def
  by (cases "a_limiter a" rule: acquire_cases;
      auto simp: step_arrive_def Let_def slots_def [of Parsing])+

lemma unwind_step:
  "a_limiter (snd (handler_step mm cfg rq env (Unwinding r) a)) =
     release ((ev_end env - ev_start env) * Fl 1000) (a_limiter a)"
  "active_pipelines (a_metrics (snd (handler_step mm cfg rq env (Unwinding r) a))) = active_pipelines (a_metrics a) - 1"
  "slots (fst (handler_step mm cfg rq env (Unwinding r) a)) = 0"
  by (simp_all add: step_unwind_def)

text \<open>The monotonic clock: the request's end is not before its start.\<close>

definition env_ok :: "ingest_env \<Rightarrow> bool" where
  "env_ok env \<longleftrightarrow> ev_start env \<le> ev_end env"

lemma env_ok_rtt: "env_ok env \<Longrightarrow> 0 \<le> (ev_end env - ev_start env) * Fl 1000"
proof -
  assume "env_ok env"
  moreover have "0 \<le> Fl 1000" by code_simp
  ultimately show ?thesis by (intro pyf.mul_nonneg) (auto simp: env_ok_def pyf.sub_nonneg)
qed

lemma handler_limiter:
  assumes "limiter_inv (a_limiter a)" "env_ok env"
  shows "limiter_inv (a_limiter (snd (handler_step mm cfg rq env ph a)))"
proof (cases "ph = Arrive \<or> (\<exists>r. ph = Unwinding r) \<or> (\<exists>r. ph = Finished r)")
  case True
  then show ?thesis using assms arrive_step(1) unwind_step(1) by (auto simp: acquire_inv release_inv env_ok_rtt)
next
  case False
  then show ?thesis using assms inner_step [of ph] by auto
qed

lemma handler_slots:
  assumes "slots ph \<le> in_flight (a_limiter a)"
  shows "in_flight (a_limiter (snd (handler_step mm cfg rq env ph a))) - slots (fst (handler_step mm cfg rq env ph a))
           = in_flight (a_limiter a) - slots ph"
    "active_pipelines (a_metrics (snd (handler_step mm cfg rq env ph a))) - slots (fst (handler_step mm cfg rq env ph a))
           = active_pipelines (a_metrics a) - slots ph"
proof -
  let ?s = "handler_step mm cfg rq env ph a"
  consider "ph = Arrive" | r where "ph = Unwinding r" | r where "ph = Finished r"
    | "ph \<noteq> Arrive" "\<And>r. ph \<noteq> Unwinding r" "\<And>r. ph \<noteq> Finished r" by blast
  then have "in_flight (a_limiter (snd ?s)) - slots (fst ?s) = in_flight (a_limiter a) - slots ph \<and>
    active_pipelines (a_metrics (snd ?s)) - slots (fst ?s) = active_pipelines (a_metrics a) - slots ph"
  proof cases
    case 4
    then have "holds_slot ph" by (cases ph) auto
    then show ?thesis using inner_step [OF 4, of mm cfg rq env a] by (simp add: slots_def)
  next
    case 1
    then show ?thesis using arrive_step(2,3) [of mm cfg rq env a] by (simp add: slots_def [of Arrive])
  next
    case 2
    then show ?thesis using assms unwind_step [of mm cfg rq env r a]
      by (simp add: slots_def [of "Unwinding _"] del: handler_step.simps)
  qed simp
  then show "in_flight (a_limiter (snd ?s)) - slots (fst ?s) = in_flight (a_limiter a) - slots ph"
    "active_pipelines (a_metrics (snd ?s)) - slots (fst ?s) = active_pipelines (a_metrics a) - slots ph" by auto
qed

end
