(* ===== verification/IngestOutcomes.thy ===== *)
theory IngestOutcomes imports IngestSteps begin

text \<open>
  What the ingestion handler answers: it always ends, its statuses, the hint of every refusal, the
  request each phase's local variables come from, and the document a request lays claim to.
\<close>

section \<open>The handler ends\<close>

fun phase_rank :: "phase \<Rightarrow> nat" where
  "phase_rank Arrive = 13"
| "phase_rank Parsing = 12"
| "phase_rank (Checking _) = 11"
| "phase_rank (Rejecting _ _) = 2"
| "phase_rank (Saving _) = 10"
| "phase_rank (Uploading _) = 9"
| "phase_rank (Recording _ _) = 8"
| "phase_rank (Inserting _) = 7"
| "phase_rank (Publishing _) = 6"
| "phase_rank (Updating _ _) = 5"
| "phase_rank (LoggingPublish _ _) = 4"
| "phase_rank (Accepting _ _) = 3"
| "phase_rank (LoggingAccept _ _) = 2"
| "phase_rank (Unwinding _) = 1"
| "phase_rank (Finished _) = 0"

lemma after_record_rank: "phase_rank (fst (after_record env r a)) \<le> 6"
  by (simp add: after_record_def)

lemma fall_back_rank: "phase_rank (fst (fall_back env d a)) \<le> 6"
  by (auto simp: fall_back_def after_record_rank split: step_splits)

lemma finish_rank [simp]: "phase_rank (fst (finish env r a)) = 0"
  by (simp add: finish_def split: sum.split)

lemma handler_rank: "phase_rank (fst (handler_step mm cfg rq env ph a)) \<le> phase_rank ph - 1"
  using fall_back_rank after_record_rank
  by (cases ph) (auto simp: step_defs Let_def split: step_splits intro: le_SucI order_trans [of _ 6])

fun is_finished :: "phase \<Rightarrow> bool" where
  "is_finished (Finished _) = True"
| "is_finished _ = False"

lemma is_finished_iff: "is_finished ph \<longleftrightarrow> (\<exists>resp. ph = Finished resp)"
  by (cases ph) auto

interpretation handler: coroutine "handler_step mm cfg rq env" phase_rank is_finished for mm cfg rq env
proof unfold_locales
  show "is_finished ph" if "phase_rank ph = 0" for ph using that by (cases ph) auto
  show "phase_rank (fst (handler_step mm cfg rq env ph a)) \<le> phase_rank ph - 1" for mm cfg rq env ph a
    by (rule handler_rank)
qed (auto simp: is_finished_iff)

section \<open>Statuses and hints\<close>

text \<open>An operation that raises no \<^verbatim>\<open>HTTPException\<close>.\<close>

definition quiet :: "'a py_result \<Rightarrow> bool" where
  "quiet r \<longleftrightarrow> (\<forall>c. r \<noteq> Inl (HTTPException c))"

lemma quiet_simps [simp]:
  "quiet (Inr v)" "quiet (Inl ValueError)" "quiet (Inl TypeError)" "quiet (Inl AttributeError)"
  "quiet (Inl ZeroDivisionError)" "quiet (Inl ExternalError)" "\<not> quiet (Inl (HTTPException c))"
  by (simp_all add: quiet_def)

lemma quiet_py_bind: "quiet r \<Longrightarrow> (\<And>v. quiet (f v)) \<Longrightarrow> quiet (py_bind r f)"
  by (cases r) (auto simp: quiet_def)

lemma quiet_py_key: "quiet (py_key v)"
  by (cases v) (auto simp: quiet_def)

lemma quiet_int_of_str: "quiet (py_int_of_str base s)"
  by (auto simp: quiet_def py_int_of_str_def Let_def split: option.splits)

lemma quiet_py_int: "quiet (py_int v)"
  using quiet_int_of_str [of 10] by (cases v) simp_all

lemma quiet_py_encode: "quiet (py_encode v)"
  by (cases v) (auto simp: quiet_def)

lemma quiet_json_dumps: "quiet (json_dumps b v)"
  by (simp add: json_dumps_def)

lemma quiet_json_response: "quiet (json_response c h b)"
  unfolding json_response_def by (intro quiet_py_bind quiet_json_dumps) simp

lemma quiet_hash: "quiet (hash_key_to_partition mm v n)"
  unfolding hash_key_to_partition_def key_hash_def
  by (intro quiet_py_bind) (auto simp: quiet_py_encode quiet_py_bind split: option.split pyval.split)

lemma quiet_check: "quiet (fst (check_agency_limit now v t))"
  using quiet_py_key [of v]
  by (auto simp: check_agency_limit_def check_key_def Let_def quiet_def split: sum.split option.split)

lemma quiet_op_bind: "quiet (fst (m s)) \<Longrightarrow> (\<And>v s. quiet (fst (f v s))) \<Longrightarrow> quiet (fst (op_bind m f s))"
  by (auto simp: op_bind_def quiet_def split: prod.split sum.split)

lemma quiet_op_lift: "quiet r \<Longrightarrow> quiet (fst (op_lift r s))"
  by (simp add: op_lift_def)

lemma quiet_transaction: "quiet (fst (m s)) \<Longrightarrow> quiet (fst (transaction m s))"
  by (auto simp: transaction_def quiet_def split: prod.split sum.split)

lemma quiet_with_fault: "quiet (fst (m s)) \<Longrightarrow> quiet (fst (with_fault f m s))"
  by (cases f) auto

lemma quiet_parse_uuid: "quiet (parse_uuid s)"
  by (auto simp: parse_uuid_def Let_def intro!: quiet_py_bind quiet_int_of_str)

lemma quiet_update: "quiet (fst (update_document_metadata job u now db))"
  unfolding update_document_metadata_def
  by (intro quiet_transaction quiet_op_bind quiet_op_lift quiet_parse_uuid) (simp add: update_document_def)

lemma quiet_append: "quiet (fst (append_event ne fresh db))"
proof -
  have "quiet (opt_uuid x)" for x
    by (auto simp: opt_uuid_def quiet_parse_uuid intro!: quiet_py_bind split: option.split)
  moreover have "quiet (pg_text v)" for v by (cases v) (simp_all add: pg_text_def)
  moreover have "quiet (fst (insert_event e s))" for e s by (simp add: insert_event_def)
  ultimately show ?thesis
    unfolding append_event_def by (intro quiet_op_bind quiet_op_lift quiet_json_dumps)
qed

lemma quiet_save_local: "quiet (fst (save_local cfg env c s))"
  by (simp add: save_local_def Let_def)

lemma quiet_put_remote: "quiet (fst (put_remote env c s))"
  by (auto simp: put_remote_def Let_def intro: quiet_with_fault)

lemma quiet_send: "quiet (fst (send_audit_event mm cfg reply v pl topic p))"
  unfolding send_audit_event_def
  by (intro quiet_op_bind quiet_op_lift quiet_hash quiet_json_dumps quiet_py_encode)
     (simp add: broker_send_def split: send_reply.split)

lemma quiet_record_locally: "quiet (fst (record_locally d a))"
  using quiet_py_key [of "idemp_id (dr_parsed d) (dr_sha256 d)"]
  by (auto simp: record_locally_def quiet_def split: sum.split option.split)

lemma quiet_make_draft: "quiet (make_draft mm cfg env p saved)"
  by (auto simp: make_draft_def Let_def intro!: quiet_py_bind quiet_hash split: prod.split)

text \<open>Starlette's form parser raises an \<^verbatim>\<open>HTTPException\<close> of status 400 on a malformed form, and
  reading the body raises none.\<close>

definition only_400 :: "'a py_result \<Rightarrow> bool" where
  "only_400 r \<longleftrightarrow> (\<forall>c. r = Inl (HTTPException c) \<longrightarrow> c = 400)"

definition request_ok :: "request \<Rightarrow> bool" where
  "request_ok rq \<longleftrightarrow> only_400 (rq_form rq) \<and> quiet (rq_body rq) \<and>
     (case rq_form rq of
        Inr kvs \<Rightarrow> (case item kvs ''file'' PNone of PUpload _ _ content \<Rightarrow> quiet content | _ \<Rightarrow> True)
      | Inl _ \<Rightarrow> True)"

lemma parse_request_only_400: "request_ok rq \<Longrightarrow> only_400 (parse_request rq)"
proof -
  assume ok: "request_ok rq"
  have "only_400 (parse_form (rq_form rq))"
  proof (cases "rq_form rq")
    case (Inr kvs)
    have "quiet (form_content kvs ag au y)" for ag au y
      using ok Inr by (auto simp: form_content_def request_ok_def split: pyval.split)
    then have "quiet (parse_form (rq_form rq))"
      unfolding parse_form_def Inr py_bind_simps Let_def by (intro quiet_py_bind quiet_py_int) auto
    then show ?thesis by (auto simp: quiet_def only_400_def)
  qed (use ok in \<open>auto simp: parse_form_def request_ok_def only_400_def\<close>)
  moreover have "quiet (parse_raw (rq_body rq) (rq_agency rq))"
    unfolding parse_raw_def using ok by (intro quiet_py_bind) (auto simp: request_ok_def)
  ultimately show ?thesis by (auto simp: parse_request_def only_400_def quiet_def)
qed

definition is_hint :: "string \<Rightarrow> bool" where
  "is_hint h \<longleftrightarrow> h = ''1'' \<or> (\<exists>x. h = float_repr x \<and> Fl (5/100) \<le> x)"

definition response_ok :: "response \<Rightarrow> bool" where
  "response_ok resp \<longleftrightarrow>
     resp_status resp \<in> {200, 202, 400, 413, 429} \<and>
     (if resp_status resp = 429 then \<exists>h. retry_after resp = Some h \<and> is_hint h else retry_after resp = None)"

definition outcome_ok :: "response py_result \<Rightarrow> bool" where
  "outcome_ok r \<longleftrightarrow>
     (case r of Inr resp \<Rightarrow> response_ok resp | Inl e \<Rightarrow> \<forall>c. e = HTTPException c \<longrightarrow> c = 400 \<or> c = 413)"

fun phase_ok :: "phase \<Rightarrow> bool" where
  "phase_ok (Rejecting p wait) = (Fl (5/100) \<le> wait)"
| "phase_ok (Unwinding r) = outcome_ok r"
| "phase_ok (Finished resp) = response_ok resp"
| "phase_ok _ = True"

lemma quiet_outcome: "quiet r \<Longrightarrow> (\<And>resp. r = Inr resp \<Longrightarrow> response_ok resp) \<Longrightarrow> outcome_ok r"
  by (auto simp: quiet_def outcome_ok_def split: sum.split)

lemma quiet_outcome_Inl: "quiet (Inl e :: 'a py_result) \<Longrightarrow> outcome_ok (Inl e)"
  by (auto simp: quiet_def outcome_ok_def)

lemma outcome_413 [simp]: "outcome_ok (Inl (HTTPException 413))"
  by (simp add: outcome_ok_def)

lemma json_response_Inr:
  "json_response c h b = Inr resp \<longleftrightarrow> serialisable (PDict b) \<and> resp = \<lparr>resp_status = c, retry_after = h, resp_body = b\<rparr>"
  by (auto simp: json_response_def json_dumps_def)

lemma json_outcome:
  assumes "c \<in> {200, 202} \<and> h = None \<or> c = 429 \<and> (\<exists>x. h = Some (float_repr x) \<and> Fl (5/100) \<le> x)"
  shows "outcome_ok (json_response c h b)"
  using assms by (intro quiet_outcome quiet_json_response) (auto simp: json_response_Inr response_ok_def is_hint_def)

lemma or_one_min: "Fl (5/100) \<le> x \<Longrightarrow> Fl (5/100) \<le> or_one (Some x)"
proof -
  have "Fl (5/100) \<le> (1 :: pyfloat)" by (simp add: le_fval, code_simp)
  then show "Fl (5/100) \<le> x \<Longrightarrow> Fl (5/100) \<le> or_one (Some x)" by (simp add: or_one_def)
qed

lemma finish_ok: "outcome_ok r \<Longrightarrow> phase_ok (fst (finish env r a))"
  by (cases r)
     (auto simp: finish_def outcome_ok_def exception_response_def response_ok_def is_hint_def split: py_exn.split)

lemma after_record_ok: "phase_ok (fst (after_record env r a))"
  by (auto simp: after_record_def duplicate_response_def intro: json_outcome)

lemma fall_back_ok: "phase_ok (fst (fall_back env d a))"
  using quiet_record_locally [of d a] after_record_ok
  by (auto simp: fall_back_def split: step_splits intro!: quiet_outcome_Inl)

lemma arrive_hint:
  assumes "acquire l = ((False, hint), l')" shows "\<exists>x. or_one hint = x \<and> Fl (5/100) \<le> x"
  using assms retry_hint_min [of l] or_one_min by (auto simp: acquire_def split: if_splits)

lemma check_hint:
  assumes "check_agency_limit now v t = (Inr (False, wait), t')" shows "Fl (5/100) \<le> or_one wait"
  using assms check_key_hint [of now _ t wait] or_one_min
  by (auto simp: check_agency_limit_def split: sum.splits) (metis fst_conv)

lemma quiet_run: "x = (Inl e, s') \<Longrightarrow> quiet (fst x) \<Longrightarrow> outcome_ok (Inl e)"
  by (simp add: quiet_outcome_Inl)

lemma on_db_quiet:
  "(\<And>s. quiet (fst (m s))) \<Longrightarrow> on_db (with_fault f m) a = (Inl e, a') \<Longrightarrow> outcome_ok (Inl e)"
  by (auto simp: on_db_Pair dest!: quiet_run intro: quiet_with_fault)

lemma sequence_quiet: "sequence_of x d = Inl e \<Longrightarrow> outcome_ok (Inl e)" "event_sequence_of d = Inl e \<Longrightarrow> outcome_ok (Inl e)"
  unfolding sequence_of_def event_sequence_of_def using quiet_py_int by (metis quiet_outcome_Inl)+

lemma handler_phase_ok:
  assumes "phase_ok ph" "request_ok rq"
  shows "phase_ok (fst (handler_step mm cfg rq env ph a))"
proof (cases ph)
  case Arrive
  then show ?thesis using arrive_hint [of "a_limiter a"]
    by (auto simp: step_arrive_def saturated_response_def split: step_splits intro!: finish_ok json_outcome)
next
  case Parsing
  then show ?thesis using parse_request_only_400 [OF assms(2)]
    by (auto simp: step_parse_def only_400_def outcome_ok_def split: sum.split)
next
  case (Checking p)
  then show ?thesis
    using quiet_run [OF _ quiet_check] check_hint
    by (auto simp: step_check_def Let_def agency_response_def split: step_splits intro!: json_outcome)
next
  case (Rejecting p wait)
  then show ?thesis using assms(1) on_db_quiet [OF quiet_append]
    by (auto simp: step_reject_def agency_response_def split: step_splits intro!: json_outcome)
next
  case (Saving p)
  then show ?thesis using quiet_run [OF _ quiet_save_local]
    by (auto simp: step_save_def on_service split: step_splits)
next
  case (Uploading p)
  then show ?thesis using quiet_run [OF _ quiet_put_remote]
    by (auto simp: step_upload_def on_service split: step_splits)
next
  case (Recording p saved)
  then show ?thesis using quiet_make_draft [of mm cfg env p saved] fall_back_ok after_record_ok
    by (auto simp: step_record_def Let_def quiet_outcome_Inl split: step_splits)
next
  case (Inserting d)
  then show ?thesis using fall_back_ok after_record_ok
    by (auto simp: step_insert_def Let_def split: step_splits)
next
  case (Publishing d)
  then show ?thesis using quiet_run [OF _ quiet_send] sequence_quiet
    by (auto simp: step_publish_def on_service split: step_splits)
next
  case (Updating d bm)
  then show ?thesis using on_db_quiet [OF quiet_update]
    by (auto simp: step_update_def split: step_splits)
next
  case (LoggingPublish d bm)
  then show ?thesis using on_db_quiet [OF quiet_append] sequence_quiet
    by (auto simp: step_log_publish_def split: step_splits)
next
  case (Accepting d bm)
  then show ?thesis by (auto simp: step_accept_def Let_def accepted_response_def intro!: json_outcome)
next
  case (LoggingAccept d bm)
  then show ?thesis using on_db_quiet [OF quiet_append] sequence_quiet
    by (auto simp: step_log_accept_def accepted_response_def split: step_splits intro!: json_outcome)
qed (use assms(1) in \<open>auto simp: step_unwind_def finish_ok\<close>)

section \<open>Where the local variables come from\<close>

text \<open>The phase's local variables are those of its request.\<close>

definition draft_from :: "request \<Rightarrow> draft \<Rightarrow> bool" where
  "draft_from rq d \<longleftrightarrow>
     parse_request rq = Inr (dr_parsed d) \<and> dr_sha256 d = sha256_hex (p_content (dr_parsed d))"

fun phase_from :: "request \<Rightarrow> phase \<Rightarrow> bool" where
  "phase_from rq (Checking p) = (parse_request rq = Inr p)"
| "phase_from rq (Rejecting p _) = (parse_request rq = Inr p)"
| "phase_from rq (Saving p) = (parse_request rq = Inr p)"
| "phase_from rq (Uploading p) = (parse_request rq = Inr p)"
| "phase_from rq (Recording p saved) = (parse_request rq = Inr p \<and> fst saved = sha256_hex (p_content p))"
| "phase_from rq (Inserting d) = (draft_from rq d \<and> (\<exists>u. dr_job d = local_job_id u))"
| "phase_from rq (Publishing d) = draft_from rq d"
| "phase_from rq (Updating d _) = draft_from rq d"
| "phase_from rq (LoggingPublish d _) = draft_from rq d"
| "phase_from rq (Accepting d _) = draft_from rq d"
| "phase_from rq (LoggingAccept d _) = draft_from rq d"
| "phase_from rq _ = True"

lemma finish_from [simp]: "phase_from rq (fst (finish env r a))"
  by (simp add: finish_def split: sum.split)

lemma make_draft_from:
  "make_draft mm cfg env p saved = Inr d \<Longrightarrow>
     dr_parsed d = p \<and> dr_sha256 d = fst saved \<and> dr_job d = local_job_id (ev_job env)"
  by (cases saved) (auto simp: make_draft_def Let_def py_bind_eq_Inr)

lemma adopt_record_from [simp]:
  "dr_parsed (adopt_record row d) = dr_parsed d" "dr_sha256 (adopt_record row d) = dr_sha256 d"
  "dr_job (adopt_record row d) = uuid_str (document_id row)"
  by (simp_all add: adopt_record_def Let_def)

lemma record_locally_cases:
  assumes "record_locally d a = (r, a')"
  obtains e where "r = Inl e" | job where "r = Inr (d\<lparr>dr_job := job\<rparr>, True)" | "r = Inr (d, False)"
  using assms by (auto simp: record_locally_def split: sum.splits option.splits)

text \<open>The fallback ends in a duplicate's answer, an exception, or the publication of the draft as
  it is.\<close>

lemma fall_back_cases:
  obtains e where "fst (fall_back env d a) = Unwinding (Inl e)"
  | job where "fst (fall_back env d a) = Unwinding (duplicate_response env (d\<lparr>dr_job := job\<rparr>))"
  | "fst (fall_back env d a) = Publishing d"
proof (cases "record_locally d a")
  case (Pair r a')
  then show ?thesis
    by (cases rule: record_locally_cases [OF Pair])
       (auto simp: fall_back_def after_record_def intro: that)
qed

lemma fall_back_from: "draft_from rq d \<Longrightarrow> phase_from rq (fst (fall_back env d a))"
  by (cases rule: fall_back_cases [of env d a]) auto

lemma save_local_sha: "save_local cfg env c s = (Inr (Some saved), s') \<Longrightarrow> fst saved = sha256_hex c"
  by (auto simp: save_local_def Let_def split: if_splits)

lemma put_remote_sha: "put_remote env c s = (Inr saved, s') \<Longrightarrow> fst saved = sha256_hex c"
  by (cases "se_put env") (auto simp: put_remote_def Let_def)

lemma handler_from:
  assumes "phase_from rq ph" shows "phase_from rq (fst (handler_step mm cfg rq env ph a))"
proof (cases ph)
  case (Recording p saved)
  show ?thesis
  proof (cases "make_draft mm cfg env p saved")
    case (Inr d)
    then have "draft_from rq d" "\<exists>u. dr_job d = local_job_id u"
      using assms Recording make_draft_from [OF Inr] by (auto simp: draft_from_def)
    then show ?thesis using Recording Inr fall_back_from
      by (auto simp: step_record_def Let_def after_record_def split: step_splits)
  qed (use Recording in \<open>simp add: step_record_def\<close>)
next
  case (Inserting d)
  then have "draft_from rq (adopt_record row d)" for row using assms by (simp add: draft_from_def)
  then show ?thesis using Inserting assms fall_back_from
    by (auto simp: step_insert_def Let_def after_record_def split: step_splits)
qed (use assms in \<open>auto simp: step_arrive_def step_parse_def step_check_def step_reject_def step_save_def
  step_upload_def step_publish_def step_update_def step_log_publish_def step_accept_def
  step_log_accept_def step_unwind_def Let_def on_service
  dest: save_local_sha put_remote_sha split: step_splits\<close>)

end
