(* ===== verification/IngestClaims.thy ===== *)
theory IngestClaims imports IngestOutcomes begin

text \<open>
  A handler lays claim to a document from the moment it is the one to publish it until its 202 is
  out.  The claim is the document's id; the identifiers of the local fallback are none.
\<close>

definition response_job :: "response \<Rightarrow> string option" where
  "response_job resp =
     (if resp_status resp = 202
      then (case map_of (resp_body resp) ''job_id'' of Some (PStr j) \<Rightarrow> Some j | _ \<Rightarrow> None)
      else None)"

fun claimed_job :: "phase \<Rightarrow> string option" where
  "claimed_job (Publishing d) = Some (dr_job d)"
| "claimed_job (Updating d _) = Some (dr_job d)"
| "claimed_job (LoggingPublish d _) = Some (dr_job d)"
| "claimed_job (Accepting d _) = Some (dr_job d)"
| "claimed_job (LoggingAccept d _) = Some (dr_job d)"
| "claimed_job (Unwinding (Inr resp)) = response_job resp"
| "claimed_job (Finished resp) = response_job resp"
| "claimed_job _ = None"

definition job_uuid :: "string option \<Rightarrow> uuid option" where
  "job_uuid j =
     (case j of
        None \<Rightarrow> None
      | Some s \<Rightarrow> (case parse_uuid s of Inl _ \<Rightarrow> None | Inr u \<Rightarrow> Some u))"

definition claimed :: "phase \<Rightarrow> uuid option" where
  "claimed ph = job_uuid (claimed_job ph)"

lemma parse_local_job_id: "parse_uuid (local_job_id u) = Inl ValueError"
proof -
  have "is_digits 16 (uuid_hex u)" "length (uuid_hex u) = 32"
    by (simp_all add: uuid_hex_def is_digits_fixed_hex)
  then show ?thesis
    unfolding local_job_id_def by (intro parse_uuid_job) (auto simp: is_digits_def dest: in_set_takeD)
qed

lemma job_uuid_simps [simp]:
  "job_uuid None = None" "job_uuid (Some (uuid_str u)) = Some u" "job_uuid (Some (local_job_id u)) = None"
  by (simp_all add: job_uuid_def parse_uuid_str parse_local_job_id)

lemma response_job_simps [simp]:
  "duplicate_response env d = Inr resp \<Longrightarrow> response_job resp = None"
  "accepted_response env d bm = Inr resp \<Longrightarrow> response_job resp = Some (dr_job d)"
  "agency_response p w = Inr resp \<Longrightarrow> response_job resp = None"
  "saturated_response h l = Inr resp \<Longrightarrow> response_job resp = None"
  "response_job (exception_response x e) = None"
  by (auto simp: duplicate_response_def accepted_response_def agency_response_def saturated_response_def
      json_response_Inr response_job_def exception_response_def split: py_exn.split)

lemma claimed_duplicate [simp]: "claimed (Unwinding (duplicate_response env d)) = None"
  by (cases "duplicate_response env d") (auto simp: claimed_def)

lemma claimed_agency [simp]: "claimed (Unwinding (agency_response p w)) = None"
  by (cases "agency_response p w") (auto simp: claimed_def)

lemma claimed_raised [simp]: "claimed (Unwinding (Inl e)) = None"
  by (simp add: claimed_def)

lemma claimed_accepted:
  "claimed (Unwinding (accepted_response env d bm)) = None \<or>
   claimed (Unwinding (accepted_response env d bm)) = job_uuid (Some (dr_job d))"
  by (cases "accepted_response env d bm") (auto simp: claimed_def)

lemma claimed_finish: "claimed (fst (finish env r a)) = claimed (Unwinding r)"
  by (cases r) (auto simp: finish_def claimed_def)

lemma claimed_saturated [simp]: "claimed (Unwinding (saturated_response h l)) = None"
  by (cases "saturated_response h l") (auto simp: claimed_def)

lemma claimed_fall_back: "dr_job d = local_job_id u \<Longrightarrow> claimed (fst (fall_back env d a)) = None"
  by (cases rule: fall_back_cases [of env d a]) (auto simp: claimed_def [of "Publishing _"])

text \<open>A claim is new only where the handler has just inserted the document.\<close>

lemmas claimed_unfold = claimed_def [of "Checking _"] claimed_def [of "Saving _"] claimed_def [of "Uploading _"]
  claimed_def [of "Rejecting _ _"] claimed_def [of "Recording _ _"] claimed_def [of "Inserting _"]
  claimed_def [of "Publishing _"] claimed_def [of "Updating _ _"] claimed_def [of "LoggingPublish _ _"]
  claimed_def [of "LoggingAccept _ _"] claimed_def [of "Accepting _ _"] claimed_def [of "Finished _"]
  claimed_def [of Arrive] claimed_def [of Parsing]

lemma handler_claim_frame:
  assumes "\<And>d. ph \<noteq> Inserting d"
  shows "claimed (fst (handler_step mm cfg rq env ph a)) = None \<or>
    claimed (fst (handler_step mm cfg rq env ph a)) = claimed ph"
proof (cases ph)
  case Arrive
  then show ?thesis
    by (cases "a_limiter a" rule: acquire_cases)
       (simp_all add: step_arrive_def claimed_finish claimed_unfold)
next
  case (Recording p saved)
  have local: "dr_job d = local_job_id (ev_job env)" if "make_draft mm cfg env p saved = Inr d" for d
    using make_draft_from [OF that] by simp
  show ?thesis using Recording claimed_fall_back [OF local]
    by (auto simp: step_record_def Let_def after_record_def claimed_unfold split: step_splits)
next
  case (LoggingAccept d bm)
  then show ?thesis using claimed_accepted
    by (auto simp: step_log_accept_def claimed_unfold split: step_splits)
next
  case (Accepting d bm)
  then show ?thesis using claimed_accepted
    by (auto simp: step_accept_def Let_def claimed_unfold)
qed (use assms in \<open>auto simp: step_parse_def step_check_def step_reject_def step_save_def
  step_upload_def step_publish_def step_update_def step_log_publish_def
  step_unwind_def Let_def on_service claimed_finish claimed_unfold split: step_splits\<close>)

lemma handler_claim:
  assumes "claimed (fst (handler_step mm cfg rq env ph a)) = Some u" "phase_from rq ph" "db_inv (a_db a)"
  obtains "claimed ph = Some u"
  | d row where "ph = Inserting d" "document_id row = u" "\<not> document_exists u (a_db a)"
      "documents (a_db (snd (handler_step mm cfg rq env ph a))) = documents (a_db a) @ [row]"
      "idemp_id (dr_parsed d) (dr_sha256 d) = PStr (idempotency_key row)"
proof (cases "\<exists>d. ph = Inserting d")
  case False
  then show ?thesis using handler_claim_frame [of ph mm cfg rq env a] assms(1) that(1) by auto
next
  case True
  then obtain d where Inserting: "ph = Inserting d" by blast
  then obtain v where v: "dr_job d = local_job_id v" using assms(2) Inserting by auto
  let ?m = "on_db (with_fault (ev_insert env) (cog_insert (new_document_of d) (ev_ids env))) a"
  show ?thesis
  proof (cases "fst ?m")
    case (Inl e)
    then show ?thesis using assms(1) Inserting claimed_fall_back [OF v]
      by (cases ?m) (simp add: step_insert_def)
  next
    case (Inr row)
    then obtain db where ok: "cog_insert (new_document_of d) (ev_ids env) (a_db a) = (Inr row, db)"
      and m: "?m = (Inr row, a\<lparr>a_db := db\<rparr>)"
      by (cases "cog_insert (new_document_of d) (ev_ids env) (a_db a)"; cases "ev_insert env")
        (auto simp: on_db_def)
    have s: "fst (handler_step mm cfg rq env ph a) = Publishing (adopt_record row d)"
      "a_db (snd (handler_step mm cfg rq env ph a)) = db"
      using Inserting m by (simp_all add: step_insert_def Let_def after_record_def)
    have dbi: "db_inv db" using keeps_run [OF keeps_cog_insert assms(3) ok] .
    show ?thesis
    proof (cases rule: cog_insert_cases [of "new_document_of d" "ev_ids env" "a_db a"])
      case (2 row' db')
      then have eq: "row' = row" "db' = db" using ok by auto
      have "document_id row = u" using assms(1) s by (simp add: claimed_def)
      moreover have "\<not> document_exists (document_id row) (a_db a)"
        using dbi 2(2) eq by (auto simp: db_inv_def document_exists_def image_iff)
      ultimately show ?thesis using 2 eq s Inserting that(2) [of d row] by (simp add: new_document_of_def)
    qed (use ok in auto)
  qed
qed

text \<open>With a pool, a 202 answers only a document of the database.\<close>

fun claim_due :: "phase \<Rightarrow> bool" where
  "claim_due (LoggingPublish _ _) = True"
| "claim_due (Accepting _ _) = True"
| "claim_due (LoggingAccept _ _) = True"
| "claim_due (Unwinding (Inr resp)) = (resp_status resp = 202)"
| "claim_due (Finished resp) = (resp_status resp = 202)"
| "claim_due _ = False"

lemma update_parses: "update_document_metadata job u now db = (Inr v, db') \<Longrightarrow> \<exists>i. parse_uuid job = Inr i"
  by (auto simp: update_document_metadata_def op_Inr)

lemma claim_due_json: "c \<noteq> 202 \<Longrightarrow> \<not> claim_due (Unwinding (json_response c h b))"
  by (auto simp: json_response_def json_dumps_def)

lemma claim_due_quiet [simp]:
  "\<not> claim_due (Unwinding (duplicate_response env d))" "\<not> claim_due (Unwinding (agency_response p w))"
  "\<not> claim_due (Unwinding (saturated_response h l))"
  by (simp_all add: duplicate_response_def agency_response_def saturated_response_def claim_due_json)

lemma claim_due_fall_back [simp]: "\<not> claim_due (fst (fall_back env d a))"
  by (cases rule: fall_back_cases [of env d a]) auto

lemma claim_due_finish:
  "outcome_ok r \<Longrightarrow> claim_due (fst (finish env r a)) \<Longrightarrow> claim_due (Unwinding r)"
  by (cases r) (auto simp: finish_def exception_response_def outcome_ok_def split: py_exn.splits)

lemma claimed_accepted_due:
  "claim_due (Unwinding (accepted_response env d bm)) \<Longrightarrow>
   claimed (Unwinding (accepted_response env d bm)) = job_uuid (Some (dr_job d))"
  by (cases "accepted_response env d bm") (auto simp: claimed_def)

lemma handler_claim_due:
  assumes "claim_due ph \<longrightarrow> claimed ph \<noteq> None" "phase_ok ph" "a_pool a"
  shows "claim_due (fst (handler_step mm cfg rq env ph a)) \<longrightarrow> claimed (fst (handler_step mm cfg rq env ph a)) \<noteq> None"
proof (cases ph)
  case Arrive
  have "outcome_ok (saturated_response (or_one (Some (retry_hint l))) l)" for l
    using retry_hint_min [of l] or_one_min by (auto simp: saturated_response_def intro!: json_outcome)
  then have "\<not> claim_due (fst (finish env (saturated_response (or_one (Some (retry_hint l))) l) b))" for l b
    using claim_due_finish claim_due_quiet(3) by blast
  then show ?thesis using Arrive
    by (cases "a_limiter a" rule: acquire_cases) (simp_all add: step_arrive_def)
next
  case (Updating d bm)
  show ?thesis
  proof (cases "on_db (with_fault (ev_update env)
      (update_document_metadata (dr_job d) (published_update bm) (ev_update_now env))) a")
    case (Pair r a')
    then have "\<exists>i. parse_uuid (dr_job d) = Inr i" if "r = Inr v" for v
      using that update_parses by (cases "ev_update env") (auto simp: on_db_Pair)
    then show ?thesis using Updating Pair
      by (cases r) (auto simp: step_update_def claimed_def job_uuid_def)
  qed
next
  case (LoggingPublish d bm)
  then show ?thesis using assms by (auto simp: step_log_publish_def claimed_unfold split: step_splits)
next
  case (Accepting d bm)
  then show ?thesis using assms by (auto simp: step_accept_def Let_def claimed_unfold)
next
  case (LoggingAccept d bm)
  then show ?thesis using assms claimed_accepted_due
    by (auto simp: step_log_accept_def claimed_unfold split: step_splits)
next
  case (Unwinding r)
  then show ?thesis using assms(1,2) claim_due_finish [of r]
    by (auto simp: step_unwind_def claimed_finish)
next
  case (Finished resp)
  then show ?thesis using assms(1) by simp
next
  case (Publishing d)
  then show ?thesis using assms(3) by (auto simp: step_publish_def on_service split: step_splits)
qed (auto simp: step_parse_def step_check_def step_reject_def step_save_def
  step_upload_def step_record_def step_insert_def step_publish_def after_record_def Let_def on_service split: step_splits)

end
