(* ===== verification/ApiSystem.thy ===== *)
theory ApiSystem imports IngestClaims begin

text \<open>
  The API under concurrency: requests arrive at any time, and the event loop runs any of the
  handlers in progress to its next await.  \<^verbatim>\<open>sys_step\<close> is that relation, \<^verbatim>\<open>sys_inv\<close> what holds in
  every state it reaches.
\<close>

section \<open>The step relation\<close>

type_synonym call = "request \<times> ingest_env \<times> phase"

record system =
  sys_app :: app
  sys_calls :: "call list"

inductive sys_step :: "murmur \<Rightarrow> settings \<Rightarrow> system \<Rightarrow> system \<Rightarrow> bool" for mm cfg where
  arrives: "env_ok env \<Longrightarrow> request_ok rq \<Longrightarrow>
    sys_step mm cfg s (s\<lparr>sys_calls := sys_calls s @ [(rq, env, Arrive)]\<rparr>)"
| advances: "i < length (sys_calls s) \<Longrightarrow> sys_calls s ! i = (rq, env, ph) \<Longrightarrow>
    handler_step mm cfg rq env ph (sys_app s) = (ph', a') \<Longrightarrow>
    sys_step mm cfg s \<lparr>sys_app = a', sys_calls = (sys_calls s)[i := (rq, env, ph')]\<rparr>"

inductive_cases sys_step_cases: "sys_step mm cfg s s'"

text \<open>The states the API reaches once it has started.\<close>

inductive reachable :: "murmur \<Rightarrow> settings \<Rightarrow> app \<Rightarrow> system \<Rightarrow> bool" for mm cfg a0 where
  start: "reachable mm cfg a0 \<lparr>sys_app = a0, sys_calls = []\<rparr>"
| step: "reachable mm cfg a0 s \<Longrightarrow> sys_step mm cfg s s' \<Longrightarrow> reachable mm cfg a0 s'"

section \<open>Counting over the calls\<close>

definition held :: "call list \<Rightarrow> int" where
  "held cs = (\<Sum>c \<leftarrow> cs. slots (snd (snd c)))"

lemma sum_list_swap:
  fixes f :: "'a \<Rightarrow> int"
  shows "i < length xs \<Longrightarrow> (\<Sum>x \<leftarrow> xs[i := y]. f x) = (\<Sum>x \<leftarrow> xs. f x) - f (xs ! i) + f y"
  by (induction xs arbitrary: i) (auto split: nat.split)

lemma held_update:
  "i < length cs \<Longrightarrow> held (cs[i := c]) = held cs - slots (snd (snd (cs ! i))) + slots (snd (snd c))"
  by (simp add: held_def sum_list_swap)

lemma slots_bounds: "0 \<le> slots ph" "slots ph \<le> 1"
  by (simp_all add: slots_def)

lemma held_ge:
  assumes "c \<in> set cs" shows "slots (snd (snd c)) \<le> held cs"
proof -
  have "0 \<le> held cs" for cs by (induction cs) (auto simp: held_def slots_bounds)
  then show ?thesis using assms by (induction cs) (fastforce simp: held_def slots_bounds add_increasing2 add_increasing)+
qed

section \<open>The invariant\<close>

definition call_ok :: "call \<Rightarrow> bool" where
  "call_ok c \<longleftrightarrow> (case c of (rq, env, ph) \<Rightarrow> env_ok env \<and> request_ok rq \<and> phase_ok ph \<and> phase_from rq ph)"

text \<open>The key under which a request's document is stored.\<close>

definition request_key :: "request \<Rightarrow> pyval option" where
  "request_key rq =
     (case parse_request rq of
        Inl _ \<Rightarrow> None
      | Inr p \<Rightarrow> Some (idemp_id p (sha256_hex (p_content p))))"

definition has_document :: "uuid \<Rightarrow> string \<Rightarrow> database \<Rightarrow> bool" where
  "has_document u k db \<longleftrightarrow> (\<exists>d \<in> set (documents db). document_id d = u \<and> idempotency_key d = k)"

text \<open>A call's claim is a document stored under its request's key, and with a pool a 202 needs one.\<close>

definition claim_ok :: "app \<Rightarrow> call \<Rightarrow> bool" where
  "claim_ok a c \<longleftrightarrow>
     (case c of (rq, env, ph) \<Rightarrow>
        (\<forall>u. claimed ph = Some u \<longrightarrow> (\<exists>k. request_key rq = Some (PStr k) \<and> has_document u k (a_db a))) \<and>
        (a_pool a \<longrightarrow> claim_due ph \<longrightarrow> claimed ph \<noteq> None))"

definition claims_distinct :: "call list \<Rightarrow> bool" where
  "claims_distinct cs \<longleftrightarrow>
     (\<forall>i < length cs. \<forall>j < length cs. \<forall>u. i \<noteq> j \<longrightarrow> claimed (snd (snd (cs ! i))) = Some u \<longrightarrow>
        claimed (snd (snd (cs ! j))) \<noteq> Some u)"

definition app_inv :: "murmur \<Rightarrow> settings \<Rightarrow> app \<Rightarrow> bool" where
  "app_inv mm cfg a \<longleftrightarrow>
     limiter_inv (a_limiter a) \<and> bucket_inv (a_buckets a) \<and> cas_inv (a_store a) \<and>
     sharded_log mm cfg (a_producer a) \<and> db_inv (a_db a) \<and> sequences_dense (a_db a)"

definition sys_inv :: "murmur \<Rightarrow> settings \<Rightarrow> system \<Rightarrow> bool" where
  "sys_inv mm cfg s \<longleftrightarrow>
     app_inv mm cfg (sys_app s) \<and>
     in_flight (a_limiter (sys_app s)) = held (sys_calls s) \<and>
     active_pipelines (a_metrics (sys_app s)) = held (sys_calls s) \<and>
     (\<forall>c \<in> set (sys_calls s). call_ok c \<and> claim_ok (sys_app s) c) \<and>
     claims_distinct (sys_calls s)"

text \<open>A state to start from: nothing in flight, no metric recorded, the parts well-formed.\<close>

definition fresh_app :: "murmur \<Rightarrow> settings \<Rightarrow> app \<Rightarrow> bool" where
  "fresh_app mm cfg a \<longleftrightarrow> app_inv mm cfg a \<and> in_flight (a_limiter a) = 0 \<and> active_pipelines (a_metrics a) = 0"

lemma handler_app_inv:
  "app_inv mm cfg a \<Longrightarrow> env_ok env \<Longrightarrow> app_inv mm cfg (snd (handler_step mm cfg rq env ph a))"
  unfolding app_inv_def
  by (simp add: handler_limiter handler_buckets handler_store handler_sharded
        constraints.handler_keeps numbering.handler_keeps)

lemma has_document_update:
  "keeps_identity f \<Longrightarrow> has_document u k db \<Longrightarrow> has_document u k (snd (update_document i f db))"
  unfolding has_document_def update_document_def keeps_identity_def
  by (elim bexE, rule_tac x = "if document_id d = i then f d else d" in bexI) auto

lemma keeps_has_document:
  "keeps (has_document u k) (cog_insert nd ids)"
  "keeps (has_document u k) (update_document_metadata job m now)"
  "keeps (has_document u k) (append_event ne fresh)"
proof -
  show "keeps (has_document u k) (cog_insert nd ids)"
  proof (rule keepsI)
    fix db assume "has_document u k db"
    then show "has_document u k (snd (cog_insert nd ids db))"
      by (cases rule: cog_insert_cases [of nd ids db]) (auto simp: has_document_def)
  qed
  show "keeps (has_document u k) (update_document_metadata job m now)"
    unfolding update_document_metadata_def
    by (intro op_keeps) (auto simp: keeps_def keeps_identity_apply_update intro: has_document_update)
  show "keeps (has_document u k) (append_event ne fresh)"
    unfolding append_event_def by (intro op_keeps) (simp add: keeps_def has_document_def)
qed

interpretation retention: admission_invariant "has_document u k" for u k
  by unfold_locales (rule keeps_has_document)+

text \<open>One handler's step from a state of the invariant: the claim it has afterwards is its own, or
  a document that was not there.\<close>

lemma step_claim_ok:
  assumes "claim_ok a (rq, env, ph)" "phase_from rq ph" "phase_ok ph" "db_inv (a_db a)"
    "handler_step mm cfg rq env ph a = (ph', a')"
  shows "claim_ok a' (rq, env, ph')"
proof -
  have s: "ph' = fst (handler_step mm cfg rq env ph a)" "a' = snd (handler_step mm cfg rq env ph a)"
    using assms(5) by simp_all
  have "\<exists>k. request_key rq = Some (PStr k) \<and> has_document u k (a_db a')" if u: "claimed ph' = Some u" for u
  proof (cases rule: handler_claim [OF u [unfolded s] assms(2,4)])
    case 1
    then show ?thesis using assms(1) retention.handler_keeps [of u _ a] s by (auto simp: claim_ok_def)
  next
    case (2 d row)
    then have "draft_from rq d" using assms(2) by simp
    then have "request_key rq = Some (PStr (idempotency_key row))"
      using 2(5) by (simp add: request_key_def draft_from_def)
    then show ?thesis using 2 s by (auto simp: has_document_def)
  qed
  moreover have "a_pool a' \<longrightarrow> claim_due ph' \<longrightarrow> claimed ph' \<noteq> None"
    using handler_claim_due [of ph a mm cfg rq env] assms(1,3) handler_pool [of mm cfg rq env ph a] s
    by (auto simp: claim_ok_def)
  ultimately show ?thesis by (simp add: claim_ok_def)
qed

lemma other_claim_ok:
  assumes "claim_ok a c" "handler_step mm cfg rq env ph a = (ph', a')" shows "claim_ok a' c"
  using assms retention.handler_keeps [of _ _ a mm cfg rq env ph] handler_pool [of mm cfg rq env ph a]
  by (cases c) (fastforce simp: claim_ok_def)

lemma claims_distinct_update:
  assumes "claims_distinct cs" "i < length cs"
    "\<And>u j. claimed ph' = Some u \<Longrightarrow> j < length cs \<Longrightarrow> j \<noteq> i \<Longrightarrow> claimed (snd (snd (cs ! j))) \<noteq> Some u"
  shows "claims_distinct (cs[i := (rq, env, ph')])"
proof -
  let ?c = "\<lambda>n. claimed (snd (snd (cs[i := (rq, env, ph')] ! n)))"
  have "?c l \<noteq> Some u" if "j < length cs" "l < length cs" "j \<noteq> l" "?c j = Some u" for j l u
  proof (cases "j = i")
    case True
    then show ?thesis using that assms(2,3) by simp
  next
    case j: False
    show ?thesis
    proof (cases "l = i")
      case True
      then show ?thesis using that j assms(2) assms(3) [of u j] by auto
    next
      case False
      then show ?thesis using that j assms(1) unfolding claims_distinct_def by simp
    qed
  qed
  then show ?thesis unfolding claims_distinct_def by simp
qed

lemma claims_distinct_snoc:
  assumes "claims_distinct cs" "claimed (snd (snd c)) = None" shows "claims_distinct (cs @ [c])"
proof -
  let ?c = "\<lambda>n. claimed (snd (snd ((cs @ [c]) ! n)))"
  have n: "?c n = (if n < length cs then claimed (snd (snd (cs ! n))) else None)" if "n < Suc (length cs)" for n
    using that assms(2) by (auto simp: nth_append less_Suc_eq)
  have "?c l \<noteq> Some u" if "j < Suc (length cs)" "l < Suc (length cs)" "j \<noteq> l" "?c j = Some u" for j l u
    using that(3,4) assms(1) unfolding n [OF that(1)] n [OF that(2)] claims_distinct_def
    by (simp split: if_splits)
  then show ?thesis unfolding claims_distinct_def by simp
qed

lemma sys_inv_start: "fresh_app mm cfg a \<Longrightarrow> sys_inv mm cfg \<lparr>sys_app = a, sys_calls = []\<rparr>"
  by (simp add: sys_inv_def fresh_app_def held_def claims_distinct_def)

lemma sys_inv_arrives:
  assumes "sys_inv mm cfg s" "env_ok env" "request_ok rq"
  shows "sys_inv mm cfg (s\<lparr>sys_calls := sys_calls s @ [(rq, env, Arrive)]\<rparr>)"
proof -
  let ?c = "(rq, env, Arrive)"
  have "held (sys_calls s @ [?c]) = held (sys_calls s)" by (simp add: held_def slots_def)
  moreover have "call_ok ?c" "claim_ok (sys_app s) ?c"
    using assms(2,3) by (simp_all add: call_ok_def claim_ok_def claimed_def)
  moreover have "claims_distinct (sys_calls s @ [?c])"
    using assms(1) by (intro claims_distinct_snoc) (simp_all add: sys_inv_def claimed_def)
  ultimately show ?thesis using assms(1) by (auto simp: sys_inv_def)
qed

lemma sys_inv_advances:
  assumes inv: "sys_inv mm cfg s" and i: "i < length (sys_calls s)" "sys_calls s ! i = (rq, env, ph)"
    and h: "handler_step mm cfg rq env ph (sys_app s) = (ph', a')"
  shows "sys_inv mm cfg \<lparr>sys_app = a', sys_calls = (sys_calls s)[i := (rq, env, ph')]\<rparr>"
proof -
  let ?a = "sys_app s" and ?cs = "sys_calls s"
  have c: "(rq, env, ph) \<in> set ?cs" using i by (metis nth_mem)
  then have ok: "call_ok (rq, env, ph)" "claim_ok ?a (rq, env, ph)" and a: "app_inv mm cfg ?a"
    and n: "in_flight (a_limiter ?a) = held ?cs" "active_pipelines (a_metrics ?a) = held ?cs"
    and d: "claims_distinct ?cs" and all: "\<forall>c \<in> set ?cs. call_ok c \<and> claim_ok ?a c"
    using inv by (auto simp: sys_inv_def)
  have p: "env_ok env" "request_ok rq" "phase_ok ph" "phase_from rq ph" using ok by (auto simp: call_ok_def)
  have s: "ph' = fst (handler_step mm cfg rq env ph ?a)" "a' = snd (handler_step mm cfg rq env ph ?a)"
    using h by simp_all
  have dbi: "db_inv (a_db ?a)" using a by (simp add: app_inv_def)
  have "slots ph \<le> in_flight (a_limiter ?a)" using held_ge [OF c] n by simp
  from handler_slots [OF this, of mm cfg rq env]
  have "in_flight (a_limiter a') = held (?cs[i := (rq, env, ph')])"
    "active_pipelines (a_metrics a') = held (?cs[i := (rq, env, ph')])"
    using held_update [OF i(1)] i(2) n s by auto
  moreover have "app_inv mm cfg a'" unfolding s(2) using a p(1) by (rule handler_app_inv)
  moreover have "call_ok (rq, env, ph')"
    using p s handler_phase_ok handler_from by (simp add: call_ok_def)
  moreover have "claim_ok a' (rq, env, ph')" using ok(2) p(4,3) dbi h by (rule step_claim_ok)
  moreover have "claims_distinct (?cs[i := (rq, env, ph')])"
  proof (rule claims_distinct_update [OF d i(1)])
    fix u j assume u: "claimed ph' = Some u" and j: "j < length ?cs" "j \<noteq> i"
    show "claimed (snd (snd (?cs ! j))) \<noteq> Some u"
    proof (cases rule: handler_claim [OF u [unfolded s] p(4) dbi])
      case 1
      then show ?thesis using d i j unfolding claims_distinct_def by (metis snd_conv)
    next
      case (2 e row)
      have "claim_ok ?a (?cs ! j)" using all j by simp
      then show ?thesis using 2(3)
        by (cases "?cs ! j") (auto simp: claim_ok_def has_document_def document_exists_def)
    qed
  qed
  moreover have "\<forall>c \<in> set (?cs[i := (rq, env, ph')]). call_ok c \<and> claim_ok a' c"
    using all calculation other_claim_ok [OF _ h] by (auto dest!: set_update_subset_insert [THEN subsetD])
  ultimately show ?thesis by (simp add: sys_inv_def)
qed

lemma sys_step_inv: "sys_step mm cfg s s' \<Longrightarrow> sys_inv mm cfg s \<Longrightarrow> sys_inv mm cfg s'"
  by (erule sys_step_cases) (auto intro: sys_inv_arrives sys_inv_advances)

lemma reachable_inv: "reachable mm cfg a0 s \<Longrightarrow> fresh_app mm cfg a0 \<Longrightarrow> sys_inv mm cfg s"
  by (induction rule: reachable.induct) (auto intro: sys_inv_start sys_step_inv)

lemma sys_step_pool: "sys_step mm cfg s s' \<Longrightarrow> a_pool (sys_app s') = a_pool (sys_app s)"
  by (elim sys_step_cases) (simp, metis handler_pool snd_conv system.select_convs(1))

lemma reachable_pool: "reachable mm cfg a0 s \<Longrightarrow> a_pool (sys_app s) = a_pool a0"
  by (induction rule: reachable.induct) (simp_all add: sys_step_pool)

lemma reachable_limits:
  "reachable mm cfg a0 s \<Longrightarrow>
   max_limit (a_limiter (sys_app s)) = max_limit (a_limiter a0) \<and>
   min_limit (a_limiter (sys_app s)) = min_limit (a_limiter a0)"
proof (induction rule: reachable.induct)
  case (step s s')
  have "max_limit (a_limiter (snd (handler_step mm cfg rq env ph a))) = max_limit (a_limiter a) \<and>
    min_limit (a_limiter (snd (handler_step mm cfg rq env ph a))) = min_limit (a_limiter a)" for rq env ph a
  proof (cases "ph = Arrive \<or> (\<exists>r. ph = Unwinding r) \<or> (\<exists>r. ph = Finished r)")
    case True
    then show ?thesis using arrive_step(1) unwind_step(1) by auto
  next
    case False
    then show ?thesis using inner_step [of ph] by auto
  qed
  with step(2,3) show ?case by (elim sys_step_cases) (simp, metis snd_conv system.select_convs(1))
qed simp

end
