(* ===== verification/Endpoints.thy ===== *)
theory Endpoints imports ApiSystem begin

text \<open>
  The read-only endpoints of \<^verbatim>\<open>api/src/main.py\<close>: health, statistics, the metrics scrape, the
  operations console and the status of a job; and the states the API starts in.
\<close>

section \<open>Health and statistics\<close>

record health =
  health_status :: string
  h_broker :: bool
  h_database :: bool
  h_storage :: bool

definition health_check :: "app \<Rightarrow> health" where
  "health_check a =
     (let broker = connected (a_producer a);
          db = a_pool a;
          objs = remote_available (a_store a)
      in \<lparr>health_status =
            (if broker \<and> db \<and> objs then ''HEALTHY''
             else if broker \<or> db \<or> objs then ''DEGRADED'' else ''UNHEALTHY''),
          h_broker = broker, h_database = db, h_storage = objs\<rparr>)"

definition metrics_endpoint :: "app \<Rightarrow> app" where
  "metrics_endpoint a = log_metrics [ConcurrencyLimit (current_limit (a_limiter a))] a"

record capacity_config =
  cc_burst_volume :: int
  cc_burst_window :: pyfloat
  cc_target_p95_ms :: pyfloat
  cc_partitions :: int
  cc_max_concurrent :: int

definition stats_endpoint :: "settings \<Rightarrow> app \<Rightarrow> limiter_stats \<times> capacity_config" where
  "stats_endpoint cfg a =
     (get_stats (a_limiter a),
      \<lparr>cc_burst_volume = BURST_VOLUME cfg,
       cc_burst_window = BURST_WINDOW_SECONDS cfg,
       cc_target_p95_ms = TARGET_P95_LATENCY_SECONDS cfg * Fl 1000,
       cc_partitions = KAFKA_NUM_PARTITIONS cfg,
       cc_max_concurrent = MAX_CONCURRENT_REQUESTS cfg\<rparr>)"

section \<open>The console and the job status\<close>

definition empty_console :: console_data where
  "empty_console = \<lparr>cd_counts = [], cd_documents = [], cd_workers = [], cd_events = []\<rparr>"

text \<open>A failing query leaves the empty snapshot.\<close>

definition console_endpoint :: "fault \<Rightarrow> app \<Rightarrow> console_data \<times> limiter_stats \<times> bool" where
  "console_endpoint f a =
     ((if a_pool a then (if f = NoFault then console_snapshot (a_db a) else empty_console) else empty_console),
      get_stats (a_limiter a), connected (a_producer a))"

datatype job_view =
    FromDatabase doc_row "pyval option"
  | FromCache "(string \<times> pyval) list"

definition job_in_database :: "fault \<Rightarrow> string \<Rightarrow> app \<Rightarrow> job_view option" where
  "job_in_database f job a =
     (if \<not> a_pool a \<or> f \<noteq> NoFault then None
      else case get_document job (a_db a) of
             Inr (Some (d, r)) \<Rightarrow> Some (FromDatabase d r)
           | _ \<Rightarrow> None)"

definition get_job_status :: "fault \<Rightarrow> string \<Rightarrow> app \<Rightarrow> job_view py_result" where
  "get_job_status f job a =
     (case job_in_database f job a of
        Some v \<Rightarrow> Inr v
      | None \<Rightarrow>
          (case local_job_cache a job of
             Some st \<Rightarrow> Inr (FromCache st)
           | None \<Rightarrow> Inl (HTTPException 404)))"

lemma get_document_found:
  assumes "db_inv db" "d \<in> set (documents db)"
  shows "\<exists>r. get_document (uuid_str (document_id d)) db = Inr (Some (d, r))"
proof -
  have "distinct (map document_id (documents db))" using assms(1) by (simp add: db_inv_def)
  then have "find_document (document_id d) db = Some d"
    using assms(2) by (simp add: find_document_def find_distinct)
  then show ?thesis by (simp add: get_document_def parse_uuid_str)
qed

section \<open>The start\<close>

text \<open>The end of the lifespan: the producer's and the pool's close can raise, and what comes after
  then does not run.\<close>

definition app_shutdown :: "bool \<Rightarrow> bool \<Rightarrow> (app, unit) op" where
  "app_shutdown stops closes =
     op_bind (on_producer (producer_stop stops)) (\<lambda>_ a.
       if a_pool a then (if closes then (Inr (), a\<lparr>a_pool := False\<rparr>) else (Inl ExternalError, a))
       else (Inr (), a))"

text \<open>The settings under which the parts start well-formed.\<close>

definition settings_ok :: "settings \<Rightarrow> bool" where
  "settings_ok cfg \<longleftrightarrow>
     0 \<le> ADAPTIVE_MIN_LIMIT cfg \<and> 2 * ADAPTIVE_MIN_LIMIT cfg \<le> ADAPTIVE_MAX_LIMIT cfg \<and>
     ADAPTIVE_MAX_LIMIT cfg \<le> 2 ^ 53 \<and> 0 \<le> ADAPTIVE_RTT_TARGET_MS cfg \<and>
     0 \<le> ADAPTIVE_AIMD_ALPHA cfg \<and> 0 \<le> ADAPTIVE_AIMD_BETA cfg \<and> ADAPTIVE_AIMD_BETA cfg \<le> 1 \<and>
     1 \<le> RATE_LIMIT_AGENCY_BURST cfg \<and> RATE_LIMIT_AGENCY_BURST cfg \<le> 2 ^ 53 \<and>
     0 < RATE_LIMIT_AGENCY_RATE cfg"

lemma settings_ok_default: "settings_ok default_settings"
proof -
  have "0 \<le> Fl 100" "0 \<le> Fl 2" "0 \<le> Fl (8/10)" "Fl (8/10) \<le> 1" "0 < Fl 20" by code_simp+
  then show ?thesis by (simp add: settings_ok_def default_settings_def)
qed

lemma sequences_dense_empty: "sequences_dense empty_database"
  by (simp add: sequences_dense_def agency_sequence_def empty_database_def)

lemma fresh_app_start:
  assumes "settings_ok cfg"
  shows "fresh_app mm cfg (app_startup db_ok be mb made started (new_app cfg minio))"
proof -
  have "limiter_inv (adaptive_limiter cfg)"
    using assms unfolding adaptive_limiter_def settings_ok_def by (intro limiter_inv_new) auto
  moreover have "bucket_inv (token_bucket_limiter cfg)"
    using assms unfolding settings_ok_def by (intro bucket_inv_new) auto
  ultimately show ?thesis
    by (simp add: fresh_app_def app_inv_def app_startup_def new_app_def cas_inv_start cas_inv_new
          db_inv_empty sequences_dense_empty sharded_log_def producer_start_def new_producer_def
          adaptive_limiter_def new_limiter_def)
qed

end
