(* ===== verification/Idempotency.thy ===== *)
theory Idempotency imports IngestSteps begin

text \<open>
  The promise of idempotent admission, as a contract that both stores of the API keep: the
  in-memory maps of \<^verbatim>\<open>main.py\<close> and the \<^verbatim>\<open>documents\<close> table behind
  \<^verbatim>\<open>repository.create_or_get\<close>.  A submission carries a key; recording it answers with a job and
  whether that job was there before.
\<close>

section \<open>The contract\<close>

text \<open>A list of submissions run one after the other, and what each is answered.\<close>

fun record_all :: "('d \<Rightarrow> ('s, string \<times> bool) op) \<Rightarrow> 'd list \<Rightarrow> 's \<Rightarrow> (string \<times> bool) py_result list" where
  "record_all rec [] s = []"
| "record_all rec (d # ds) s = fst (rec d s) # record_all rec ds (snd (rec d s))"

definition new_admissions :: "('d \<Rightarrow> 'k option) \<Rightarrow> 'k \<Rightarrow> 'd list \<Rightarrow> (string \<times> bool) py_result list \<Rightarrow> nat" where
  "new_admissions key k ds rs =
     length (filter (\<lambda>x. key (fst x) = Some k \<and> (\<exists>j. snd x = Inr (j, False))) (zip ds rs))"

definition answered_jobs :: "('d \<Rightarrow> 'k option) \<Rightarrow> 'k \<Rightarrow> 'd list \<Rightarrow> (string \<times> bool) py_result list \<Rightarrow> string set" where
  "answered_jobs key k ds rs = {j. \<exists>b. \<exists>x \<in> set (zip ds rs). key (fst x) = Some k \<and> snd x = Inr (j, b)}"

locale idempotency_store =
  fixes lookup :: "'s \<Rightarrow> 'k \<Rightarrow> string option"
    and record_one :: "'d \<Rightarrow> ('s, string \<times> bool) op"
    and key_of :: "'d \<Rightarrow> 'k option"
  assumes known: "key_of d = Some k \<Longrightarrow> lookup s k = Some j \<Longrightarrow>
      fst (record_one d s) = Inr (j, True) \<and> lookup (snd (record_one d s)) = lookup s"
    and unknown: "key_of d = Some k \<Longrightarrow> lookup s k = None \<Longrightarrow> record_one d s = (r, s') \<Longrightarrow>
      (\<exists>j. r = Inr (j, False) \<and> lookup s' = (lookup s)(k \<mapsto> j)) \<or> (\<exists>e. r = Inl e \<and> lookup s' = lookup s)"
    and keyless: "key_of d = None \<Longrightarrow> \<exists>e. fst (record_one d s) = Inl e \<and> lookup (snd (record_one d s)) = lookup s"
begin

text \<open>A key once recorded is answered with the same job for ever, and never admitted anew.\<close>

lemma after_known:
  "lookup s k = Some j \<Longrightarrow>
   new_admissions key_of k ds (record_all record_one ds s) = 0 \<and>
   answered_jobs key_of k ds (record_all record_one ds s) \<subseteq> {j}"
proof (induction ds arbitrary: s)
  case Nil
  then show ?case by (simp add: new_admissions_def answered_jobs_def)
next
  case (Cons d ds)
  let ?s' = "snd (record_one d s)"
  have "lookup ?s' k = Some j"
  proof (cases "key_of d")
    case None
    then show ?thesis using keyless [of d s] Cons.prems by auto
  next
    case (Some k')
    show ?thesis
    proof (cases "lookup s k'")
      case None
      then show ?thesis using unknown [OF Some None, of "fst (record_one d s)" ?s'] Cons.prems by auto
    next
      case (Some j')
      then show ?thesis using known [OF \<open>key_of d = Some k'\<close>] Cons.prems by simp
    qed
  qed
  note IH = Cons.IH [OF this]
  have "fst (record_one d s) = Inr (j, True)" if "key_of d = Some k"
    using known [OF that Cons.prems] by simp
  then show ?case using IH by (auto simp: new_admissions_def answered_jobs_def)
qed

lemma admitted_once_one_job:
  "new_admissions key_of k ds (record_all record_one ds s) \<le> 1 \<and>
   (\<exists>j. answered_jobs key_of k ds (record_all record_one ds s) \<subseteq> {j})"
proof (induction ds arbitrary: s)
  case Nil
  then show ?case by (simp add: new_admissions_def answered_jobs_def)
next
  case (Cons d ds)
  let ?r = "fst (record_one d s)" and ?s' = "snd (record_one d s)"
  show ?case
  proof (cases "key_of d = Some k")
    case False
    then have "new_admissions key_of k (d # ds) (?r # rs) = new_admissions key_of k ds rs"
      "answered_jobs key_of k (d # ds) (?r # rs) = answered_jobs key_of k ds rs" for rs
      by (auto simp: new_admissions_def answered_jobs_def)
    then show ?thesis using Cons.IH [of ?s'] by simp
  next
    case key: True
    show ?thesis
    proof (cases "lookup s k")
      case (Some j)
      then show ?thesis using after_known [of s k j "d # ds"] by auto
    next
      case None
      then consider j where "?r = Inr (j, False)" "lookup ?s' k = Some j" | e where "?r = Inl e"
        using unknown [OF key None, of ?r ?s'] by auto
      then show ?thesis
      proof cases
        case 1
        then show ?thesis using after_known [OF 1(2), of ds] key
          by (auto simp: new_admissions_def answered_jobs_def)
      next
        case 2
        then have "new_admissions key_of k (d # ds) (?r # rs) = new_admissions key_of k ds rs"
          "answered_jobs key_of k (d # ds) (?r # rs) = answered_jobs key_of k ds rs" for rs
          by (auto simp: new_admissions_def answered_jobs_def)
        then show ?thesis using Cons.IH [of ?s'] by simp
      qed
    qed
  qed
qed

lemma admitted_once: "new_admissions key_of k ds (record_all record_one ds s) \<le> 1"
  using admitted_once_one_job by blast

lemma one_job: "\<exists>j. answered_jobs key_of k ds (record_all record_one ds s) \<subseteq> {j}"
  using admitted_once_one_job by blast

end

section \<open>The in-memory maps\<close>

definition cache_lookup :: "app \<Rightarrow> pykey \<Rightarrow> string option" where
  "cache_lookup a = local_idemp_cache a"

definition cache_record :: "draft \<Rightarrow> (app, string \<times> bool) op" where
  "cache_record d = op_bind (record_locally d) (\<lambda>r. op_return (dr_job (fst r), snd r))"

definition cache_key :: "draft \<Rightarrow> pykey option" where
  "cache_key d = (case py_key (idemp_id (dr_parsed d) (dr_sha256 d)) of Inl _ \<Rightarrow> None | Inr k \<Rightarrow> Some k)"

interpretation cache: idempotency_store cache_lookup cache_record cache_key
  by unfold_locales
     (auto simp: cache_lookup_def cache_record_def cache_key_def record_locally_def op_bind_def op_return_def
       cache_job_def split: sum.splits option.splits)

section \<open>The documents table\<close>

definition table_lookup :: "database \<Rightarrow> string \<Rightarrow> string option" where
  "table_lookup db k = map_option (\<lambda>d. uuid_str (document_id d)) (find_by_key k db)"

definition table_record :: "new_document \<times> new_ids \<Rightarrow> (database, string \<times> bool) op" where
  "table_record x =
     op_bind (create_or_get (fst x) (snd x)) (\<lambda>r. op_return (uuid_str (document_id (fst r)), snd r))"

definition table_key :: "new_document \<times> new_ids \<Rightarrow> string option" where
  "table_key x = (case pg_text (nd_key (fst x)) of Inr (Some k) \<Rightarrow> Some k | _ \<Rightarrow> None)"

lemma create_or_get_found:
  "pg_text (nd_key nd) = Inr (Some k) \<Longrightarrow> find_by_key k db = Some row \<Longrightarrow>
   create_or_get nd ids db = (Inr (row, True), db)"
  by (simp add: create_or_get_def transaction_def op_bind_def cog_select_def op_return_def)

lemma create_or_get_absent:
  assumes "pg_text (nd_key nd) = Inr (Some k)" "find_by_key k db = None"
  shows "create_or_get nd ids db =
    (case cog_insert nd ids db of (Inl e, _) \<Rightarrow> (Inl e, db) | (Inr row, db') \<Rightarrow> (Inr (row, False), db'))"
  using assms
  by (auto simp: create_or_get_def transaction_def op_bind_def cog_select_def op_return_def split: prod.split sum.split)

lemma create_or_get_keyless:
  assumes "table_key (nd, ids) = None"
  shows "\<exists>e. create_or_get nd ids db = (Inl e, db)"
proof (cases "pg_text (nd_key nd)")
  case (Inl e)
  then show ?thesis by (simp add: create_or_get_def transaction_def op_bind_def cog_select_def)
next
  case (Inr v)
  then have "v = None" using assms by (auto simp: table_key_def split: option.splits)
  then have "pg_not_null (pg_text (nd_key nd)) = Inl ExternalError" using Inr by (simp add: pg_not_null_def)
  then show ?thesis using Inr \<open>v = None\<close>
    by (simp add: create_or_get_def transaction_def op_bind_def cog_select_def cog_insert_def op_lift_def)
qed

lemma find_append: "find P (xs @ ys) = (case find P xs of None \<Rightarrow> find P ys | Some x \<Rightarrow> Some x)"
  by (induction xs) auto

lemma find_by_key_snoc:
  assumes "documents db' = documents db @ [row]" "find_by_key (idempotency_key row) db = None"
  shows "find_by_key k db' = (if k = idempotency_key row then Some row else find_by_key k db)"
  using assms by (auto simp: find_by_key_def find_append split: option.split)

interpretation table: idempotency_store table_lookup table_record table_key
proof unfold_locales
  fix x k db j
  assume k: "table_key x = Some k"
  then have kt: "pg_text (nd_key (fst x)) = Inr (Some k)"
    by (auto simp: table_key_def split: sum.splits option.splits)
  { assume "table_lookup db k = Some j"
    then obtain row where "find_by_key k db = Some row" "j = uuid_str (document_id row)"
      by (auto simp: table_lookup_def)
    then show "fst (table_record x db) = Inr (j, True) \<and> table_lookup (snd (table_record x db)) = table_lookup db"
      using create_or_get_found [OF kt] by (simp add: table_record_def op_bind_def op_return_def) }
  { fix r db'
    assume "table_lookup db k = None" and run: "table_record x db = (r, db')"
    then have none: "find_by_key k db = None" by (simp add: table_lookup_def)
    show "(\<exists>j. r = Inr (j, False) \<and> table_lookup db' = (table_lookup db)(k \<mapsto> j)) \<or>
      (\<exists>e. r = Inl e \<and> table_lookup db' = table_lookup db)"
    proof (cases rule: cog_insert_cases [of "fst x" "snd x" db])
      case (1 e)
      then show ?thesis using run create_or_get_absent [OF kt none, of "snd x"]
        by (auto simp: table_record_def op_bind_def)
    next
      case (2 row db2)
      have "idempotency_key row = k" using 2(5) kt by (simp add: pg_text_def split: if_splits)
      then have "table_lookup db2 = (table_lookup db)(k \<mapsto> uuid_str (document_id row))"
        using find_by_key_snoc [OF 2(2,4)] by (auto simp: table_lookup_def fun_eq_iff)
      then show ?thesis using run 2(1) create_or_get_absent [OF kt none, of "snd x"]
        by (auto simp: table_record_def op_bind_def op_return_def)
    qed }
next
  fix x db assume "table_key x = None"
  then show "\<exists>e. fst (table_record x db) = Inl e \<and> table_lookup (snd (table_record x db)) = table_lookup db"
    using create_or_get_keyless [of "fst x" "snd x" db] by (auto simp: table_record_def op_bind_def)
qed

section \<open>Both stores admit a key once\<close>

text \<open>C13: whatever submissions come in whatever order, and however often their inserts fail, the
  documents table admits a key as new at most once, and all its successful answers for the key name
  one job.\<close>

theorem table_admits_once:
  "new_admissions table_key k xs (record_all table_record xs db) \<le> 1 \<and>
   (\<exists>j. answered_jobs table_key k xs (record_all table_record xs db) \<subseteq> {j})"
  using table.admitted_once table.one_job by blast

text \<open>C14: the in-memory maps of an API without a database keep the same promise.\<close>

theorem cache_admits_once:
  "new_admissions cache_key k ds (record_all cache_record ds a) \<le> 1 \<and>
   (\<exists>j. answered_jobs cache_key k ds (record_all cache_record ds a) \<subseteq> {j})"
  using cache.admitted_once cache.one_job by blast

end
