(* ===== verification/IngestRuns.thy ===== *)
theory IngestRuns imports Endpoints Idempotency begin

text \<open>
  Whole runs of the ingestion handler, stage by stage: what a request that nothing disturbs goes
  through from its arrival to its 202, and a resubmission to its 200.
\<close>

section \<open>The undisturbed run\<close>

text \<open>No service fails and the broker's client answers with metadata.\<close>

definition undisturbed :: "ingest_env \<Rightarrow> bool" where
  "undisturbed env \<longleftrightarrow>
     write_ok (ev_storage env) \<and> se_put (ev_storage env) = NoFault \<and>
     ev_select env = NoFault \<and> ev_insert env = NoFault \<and> ev_update env = NoFault \<and>
     ev_publish_log env = NoFault \<and> ev_accept_log env = NoFault \<and>
     (\<exists>t p off. ev_send env = SendMetadata t p off)"

text \<open>The identifiers drawn for the request are new to the database.\<close>

definition new_identifiers :: "ingest_env \<Rightarrow> database \<Rightarrow> bool" where
  "new_identifiers env db \<longleftrightarrow>
     \<not> document_exists (ni_document (ev_ids env)) db \<and>
     distinct [ni_event (ev_ids env), fst (snd (ev_event_ids env)), snd (snd (ev_event_ids env))] \<and>
     (\<forall>e \<in> set (events db). event_id e \<notin>
        {ni_event (ev_ids env), fst (snd (ev_event_ids env)), snd (snd (ev_event_ids env))})"

definition clean :: "string \<Rightarrow> bool" where
  "clean s \<longleftrightarrow> CHR 0x00 \<notin> set s"

text \<open>A request of strings that PostgreSQL can store.\<close>

definition storable :: "parsed \<Rightarrow> string \<Rightarrow> bool" where
  "storable p key \<longleftrightarrow>
     (\<exists>ag au org. p_agency p = PStr ag \<and> p_audit_type p = PStr au \<and> p_auditor p = PStr org \<and>
        clean ag \<and> clean au \<and> clean org) \<and>
     p_key p = PStr key \<and> key \<noteq> [] \<and> clean key \<and>
     - (2 ^ 31) \<le> p_year p \<and> p_year p < 2 ^ 31"

lemma pg_text_clean [simp]: "clean s \<Longrightarrow> pg_text (PStr s) = Inr (Some s)"
  by (simp add: pg_text_def clean_def)

lemma pg_int4_in [simp]: "- (2 ^ 31) \<le> i \<Longrightarrow> i < 2 ^ 31 \<Longrightarrow> pg_int4 i = Inr i"
  by (simp add: pg_int4_def)

text \<open>The recording of a storable request with a new key.\<close>

lemma cog_insert_new:
  assumes "storable (dr_parsed d) key" "find_by_key key db = None" "new_identifiers env db" "db_inv db"
  obtains row db' where
    "cog_insert (new_document_of d) (ev_ids env) db = (Inr row, db')"
    "documents db' = documents db @ [row]"
    "events db' = events db @ [submitted_event (ev_ids env) (doc_agency row) (sequence_number row)]"
    "document_id row = ni_document (ev_ids env)" "idempotency_key row = key" "doc_status row = QUEUED"
    "PStr (doc_agency row) = p_agency (dr_parsed d)"
    "sequence_number row = next_sequence (doc_agency row) db" "results db' = results db"
proof -
  obtain ag au org where p: "p_agency (dr_parsed d) = PStr ag" "p_audit_type (dr_parsed d) = PStr au"
    "p_auditor (dr_parsed d) = PStr org" "clean ag" "clean au" "clean org"
    and k: "p_key (dr_parsed d) = PStr key" "key \<noteq> []" "clean key"
    and y: "- (2 ^ 31) \<le> p_year (dr_parsed d)" "p_year (dr_parsed d) < 2 ^ 31"
    using assms(1) unfolding storable_def by blast
  let ?row = "new_row (new_document_of d) (ev_ids env) key ag au (p_year (dr_parsed d)) (Some org) (next_sequence ag db)"
  let ?e = "submitted_event (ev_ids env) ag (next_sequence ag db)"
  have idk: "idemp_id (dr_parsed d) (dr_sha256 d) = PStr key" using k by (simp add: idemp_id_def py_or_def)
  have ins: "insert_document ?row db = (Inr (), db\<lparr>documents := documents db @ [?row]\<rparr>)"
    using assms(2,3) next_sequence_upper [of _ db ag]
    by (force simp: insert_document_def new_row_def new_identifiers_def document_exists_def find_by_key_None)
  have ev: "insert_event ?e (db\<lparr>documents := documents db @ [?row]\<rparr>) =
      (Inr (), db\<lparr>documents := documents db @ [?row], events := events db @ [?e]\<rparr>)"
    using assms(3) by (auto simp: insert_event_def submitted_event_def document_exists_def new_row_def new_identifiers_def)
  have "cog_insert (new_document_of d) (ev_ids env) db =
      (Inr ?row, db\<lparr>documents := documents db @ [?row], events := events db @ [?e]\<rparr>)"
    unfolding cog_insert_def Let_def op_Inr
    using p k y idk ins ev by (simp add: new_document_of_def pg_not_null_def)
  then show ?thesis using that p(1) by (simp add: new_row_def)
qed

lemma with_fault_NoFault: "f = NoFault \<Longrightarrow> with_fault f m = m"
  by (simp add: fun_eq_iff)

text \<open>An event about a stored document, with a fresh identifier, is written.\<close>

lemma append_event_ok:
  assumes "ne_document ne = Some (uuid_str u)" "ne_agency ne = PStr ag" "clean ag" "document_exists u db"
    "\<forall>e \<in> set (events db). event_id e \<noteq> i" "serialisable (ne_metadata ne)"
  obtains e where "append_event ne i db = (Inr (), db\<lparr>events := events db @ [e]\<rparr>)" "event_id e = i"
proof -
  have "uuid_str u \<noteq> []" using parse_uuid_str [of u] by (auto simp: parse_uuid_def strip_with_def)
  then have "opt_uuid (ne_document ne) = Inr (Some u)" by (simp add: assms(1) opt_uuid_def parse_uuid_str)
  moreover have "\<exists>t. json_dumps False (py_or (ne_metadata ne) (PDict [])) = Inr t"
    using assms(6) by (auto simp: json_dumps_def py_or_def)
  ultimately show ?thesis using assms(2-5) that
    by (auto simp: append_event_def op_bind_def op_lift_def insert_event_def)
qed

section \<open>Its stages\<close>

text \<open>Where a run from a phase ends.\<close>

definition runs_to :: "murmur \<Rightarrow> settings \<Rightarrow> request \<Rightarrow> ingest_env \<Rightarrow> phase \<times> app \<Rightarrow> phase \<times> app" where
  "runs_to mm cfg rq env c = run_phases (handler_step mm cfg rq env) ingest_fuel c"

lemma phase_rank_le: "phase_rank ph \<le> ingest_fuel"
  by (cases ph) (simp_all add: ingest_fuel_def)

lemma runs_to_step: "runs_to mm cfg rq env (ph, a) = runs_to mm cfg rq env (handler_step mm cfg rq env ph a)"
  using handler.run_step [OF phase_rank_le, where c = "(ph, a)"] by (simp add: runs_to_def)

lemma runs_to_finished [simp]: "runs_to mm cfg rq env (Finished resp, a) = (Finished resp, a)"
  unfolding runs_to_def by (rule handler.run_final) simp

definition same_services :: "app \<Rightarrow> app \<Rightarrow> bool" where
  "same_services a a' \<longleftrightarrow> a_pool a' = a_pool a \<and> a_db a' = a_db a \<and> a_producer a' = a_producer a \<and>
     local_idemp_cache a' = local_idemp_cache a"

text \<open>From the arrival to the store.\<close>

lemma admission_stage:
  assumes "in_flight (a_limiter a) < py_floor (current_limit (a_limiter a))"
    "parse_request rq = Inr p" "int (length (p_content p)) \<le> MAX_PAYLOAD_BYTES cfg"
    "fst (check_agency_limit (ev_bucket_now env) (p_agency p) (a_buckets a)) = Inr (True, w)"
  obtains a' where "runs_to mm cfg rq env (Arrive, a) = runs_to mm cfg rq env (Saving p, a')"
    "same_services a a'" "a_store a' = a_store a"
proof -
  let ?a1 = "log_metrics [ActivePipelinesInc] (a\<lparr>a_limiter := (a_limiter a)\<lparr>in_flight := in_flight (a_limiter a) + 1\<rparr>\<rparr>)"
  obtain t where t: "check_agency_limit (ev_bucket_now env) (p_agency p) (a_buckets a) = (Inr (True, w), t)"
    using assms(4) by (metis prod.collapse)
  let ?a2 = "log_metrics [IngestedBytes (length (p_content p))] (?a1\<lparr>a_buckets := t\<rparr>)"
  have "runs_to mm cfg rq env (Arrive, a) = runs_to mm cfg rq env (Parsing, ?a1)"
    using assms(1) by (subst runs_to_step) (simp add: step_arrive_def acquire_def)
  also have "\<dots> = runs_to mm cfg rq env (Checking p, ?a1)"
    using assms(2) by (subst runs_to_step) (simp add: step_parse_def)
  also have "\<dots> = runs_to mm cfg rq env (Saving p, ?a2)"
    using assms(3) t by (subst runs_to_step) (simp add: step_check_def)
  finally show ?thesis by (rule that) (simp_all add: same_services_def)
qed

text \<open>From the store to the recording.\<close>

lemma storage_stage:
  assumes "int (length (p_content p)) \<le> MAX_PAYLOAD_BYTES cfg" "se_put (ev_storage env) = NoFault"
  obtains a' saved where "runs_to mm cfg rq env (Saving p, a) = runs_to mm cfg rq env (Recording p saved, a')"
    "same_services a a'" "fst saved = sha256_hex (p_content p)"
proof (cases "save_local cfg (ev_storage env) (p_content p) (a_store a)")
  case (Pair r s)
  then obtain v where v: "r = Inr v" using assms(1) by (auto simp: save_local_def Let_def split: if_splits)
  show ?thesis
  proof (cases v)
    case (Some saved)
    have "runs_to mm cfg rq env (Saving p, a) = runs_to mm cfg rq env (Recording p saved, a\<lparr>a_store := s\<rparr>)"
      using Pair v Some by (subst runs_to_step) (simp add: step_save_def on_store_def split: prod.split)
    then show ?thesis using that Pair v Some save_local_sha by (auto simp: same_services_def)
  next
    case None
    let ?saved = "(sha256_hex (p_content p), length (p_content p), object_name (sha256_hex (p_content p)))"
    obtain s' where s': "put_remote (ev_storage env) (p_content p) s = (Inr ?saved, s')"
      using assms(2) by (simp add: put_remote_def Let_def)
    have "runs_to mm cfg rq env (Saving p, a) = runs_to mm cfg rq env (Uploading p, a\<lparr>a_store := s\<rparr>)"
      using Pair v None by (subst runs_to_step) (simp add: step_save_def on_store_def)
    also have "\<dots> = runs_to mm cfg rq env (Recording p ?saved, a\<lparr>a_store := s'\<rparr>)"
      using s' by (subst runs_to_step) (simp add: step_upload_def on_store_def)
    finally show ?thesis by (rule that) (simp_all add: same_services_def)
  qed
qed

text \<open>From the recording to the publication, for a new key.\<close>

lemma recording_stage:
  assumes "a_pool a" "undisturbed env" "storable p key" "KAFKA_NUM_PARTITIONS cfg \<noteq> 0"
    "find_by_key key (a_db a) = None" "new_identifiers env (a_db a)" "db_inv (a_db a)"
  obtains a' d row where "runs_to mm cfg rq env (Recording p saved, a) = runs_to mm cfg rq env (Publishing d, a')"
    "a_pool a'" "a_producer a' = a_producer a" "dr_parsed d = p"
    "dr_job d = uuid_str (ni_document (ev_ids env))"
    "\<And>v. item (dr_state d) ''sequence_number'' v = PStr (int_str (sequence_number row))"
    "documents (a_db a') = documents (a_db a) @ [row]"
    "events (a_db a') = events (a_db a) @ [submitted_event (ev_ids env) (doc_agency row) (sequence_number row)]"
    "document_id row = ni_document (ev_ids env)" "idempotency_key row = key" "doc_status row = QUEUED"
    "PStr (doc_agency row) = p_agency p" "sequence_number row = next_sequence (doc_agency row) (a_db a)"
    "results (a_db a') = results (a_db a)"
proof -
  obtain ag where ag: "p_agency p = PStr ag" using assms(3) by (auto simp: storable_def)
  obtain n where "hash_key_to_partition mm (PStr ag) (KAFKA_NUM_PARTITIONS cfg) = Inr n"
    using hash_key_to_partition_total [OF assms(4)] by blast
  then obtain d where d: "make_draft mm cfg env p saved = Inr d"
    by (cases saved) (simp add: make_draft_def ag Let_def)
  note dp = make_draft_from [OF d]
  have key: "idemp_id (dr_parsed d) (dr_sha256 d) = PStr key" "clean key"
    using assms(3) dp by (auto simp: storable_def idemp_id_def py_or_def)
  obtain row db' where r: "cog_insert (new_document_of d) (ev_ids env) (a_db a) = (Inr row, db')"
    and facts: "documents db' = documents (a_db a) @ [row]"
      "events db' = events (a_db a) @ [submitted_event (ev_ids env) (doc_agency row) (sequence_number row)]"
      "document_id row = ni_document (ev_ids env)" "idempotency_key row = key" "doc_status row = QUEUED"
      "PStr (doc_agency row) = p_agency (dr_parsed d)" "sequence_number row = next_sequence (doc_agency row) (a_db a)"
      "results db' = results (a_db a)"
    using cog_insert_new [of d key "a_db a" env] assms(3,5-7) dp by metis
  have sel: "cog_select (new_document_of d) (a_db a) = (Inr None, a_db a)"
    using key assms(5) by (simp add: cog_select_def new_document_of_def)
  have f: "ev_select env = NoFault" "ev_insert env = NoFault" using assms(2) by (simp_all add: undisturbed_def)
  let ?d = "adopt_record row d"
  have "runs_to mm cfg rq env (Recording p saved, a) = runs_to mm cfg rq env (Inserting d, a)"
    using d assms(1) sel f by (subst runs_to_step) (simp add: step_record_def on_db_def with_fault_NoFault)
  also have "\<dots> = runs_to mm cfg rq env (Publishing ?d, cache_job ?d (a\<lparr>a_db := db'\<rparr>))"
    using r f by (subst runs_to_step) (simp add: step_insert_def on_db_def with_fault_NoFault Let_def after_record_def)
  finally show ?thesis
    using facts dp assms(1)
    by (intro that [of ?d "cache_job ?d (a\<lparr>a_db := db'\<rparr>)" row]) (simp_all add: adopt_record_def Let_def item_def)
qed

text \<open>From the publication to the response.\<close>

definition broker_answers :: "ingest_env \<Rightarrow> bool" where
  "broker_answers env \<longleftrightarrow> (\<exists>t p off. ev_send env = SendMetadata t p off)"

text \<open>A record that publishes a payload: it is in its agency's partition, and its value is the JSON
  text of the payload with the sharding added.\<close>

definition carries :: "murmur \<Rightarrow> settings \<Rightarrow> parsed \<Rightarrow> (string \<times> pyval) list \<Rightarrow> kafka_record \<Rightarrow> bool" where
  "carries mm cfg p pl q \<longleftrightarrow>
     hash_key_to_partition mm (p_agency p) (KAFKA_NUM_PARTITIONS cfg) = Inr (rec_partition q) \<and>
     rec_value q = utf8 (json_text False (PDict (with_sharding cfg (p_agency p) (rec_partition q) pl)))"

lemma send_publishes:
  assumes "storable p key" "KAFKA_NUM_PARTITIONS cfg \<noteq> 0" "broker_answers env" "dr_parsed d = p"
  obtains bm q where
    "send_audit_event mm cfg (ev_send env) (p_agency p) (event_payload env d sequence) topic pr =
       (Inr bm, if connected pr \<and> client_made pr then pr\<lparr>sent := sent pr @ [q]\<rparr> else pr)"
    "rec_topic q = topic" "carries mm cfg p (event_payload env d sequence) q"
proof -
  obtain ag au org where p: "p_agency p = PStr ag" "p_audit_type p = PStr au" "p_auditor p = PStr org"
    using assms(1) by (auto simp: storable_def)
  obtain n where n: "hash_key_to_partition mm (PStr ag) (KAFKA_NUM_PARTITIONS cfg) = Inr n"
    using hash_key_to_partition_total [OF assms(2)] by blast
  obtain t pt off where sm: "ev_send env = SendMetadata t pt off" using assms(3) by (auto simp: broker_answers_def)
  let ?pl = "with_sharding cfg (PStr ag) n (event_payload env d sequence)"
  have "serialisable (PDict ?pl)" using p assms(4) by (simp add: with_sharding_def event_payload_def)
  then have j: "json_dumps False (PDict ?pl) = Inr (json_text False (PDict ?pl))"
    by (simp only: json_dumps_def if_True)
  let ?q = "\<lparr>rec_topic = topic, rec_key = utf8 ag, rec_value = utf8 (json_text False (PDict ?pl)), rec_partition = n\<rparr>"
  let ?mock = "\<lparr>bm_topic = topic, bm_partition = n, bm_offset = -1, bm_status = ''MOCK_PRODUCED''\<rparr>"
  have "send_audit_event mm cfg (ev_send env) (p_agency p) (event_payload env d sequence) topic pr =
      (if connected pr \<and> client_made pr then broker_send (ev_send env) ?q pr else (Inr ?mock, pr))"
    by (simp add: send_audit_event_def op_bind_def op_lift_def p n j)
  then show ?thesis
    by (cases "connected pr \<and> client_made pr")
       (intro that [of "\<lparr>bm_topic = t, bm_partition = pt, bm_offset = off, bm_status = ''BUFFERED''\<rparr>" ?q],
        simp_all add: sm broker_send_def carries_def p n, intro that [of ?mock ?q], simp_all add: sm carries_def p n)
qed

lemma send_succeeds:
  assumes "storable p key" "KAFKA_NUM_PARTITIONS cfg \<noteq> 0" "broker_answers env" "dr_parsed d = p"
  obtains bm q where
    "send_audit_event mm cfg (ev_send env) (p_agency p) (event_payload env d sequence) topic pr =
       (Inr bm, if connected pr \<and> client_made pr then pr\<lparr>sent := sent pr @ [q]\<rparr> else pr)"
  by (rule send_publishes [OF assms, of mm sequence topic pr]) (rule that)

text \<open>The statements that follow a publication: the update and two events.\<close>

lemma publication_statements:
  assumes "p_agency (dr_parsed d) = PStr ag" "clean ag" "dr_job d = uuid_str u" "document_exists u db"
    "i1 \<noteq> i2" "\<forall>e \<in> set (events db). event_id e \<notin> {i1, i2}"
  obtains db1 db2 db3 where
    "update_document_metadata (dr_job d) (published_update bm) now db = (Inr (), db1)"
    "append_event (published_event d bm n) i1 db1 = (Inr (), db2)"
    "append_event (accepted_event env d n) i2 db2 = (Inr (), db3)"
    "documents db3 = map (\<lambda>d. if document_id d = u then apply_update (published_update bm) now d else d) (documents db)"
    "event_id ` set (events db3) = event_id ` set (events db) \<union> {i1, i2}" "results db3 = results db"
proof -
  define db1 where "db1 = snd (update_document u (apply_update (published_update bm) now) db)"
  have up: "update_document_metadata (dr_job d) (published_update bm) now db = (Inr (), db1)"
    by (simp add: update_document_metadata_def transaction_def op_bind_def op_lift_def assms(3) parse_uuid_str
        db1_def update_document_def)
  have ev1: "events db1 = events db" by (simp add: db1_def update_document_def)
  have ex: "document_exists u db1"
    using assms(4) document_exists_update [OF keeps_identity_apply_update] by (simp add: db1_def)
  obtain e1 where e1: "append_event (published_event d bm n) i1 db1 = (Inr (), db1\<lparr>events := events db1 @ [e1]\<rparr>)" "event_id e1 = i1"
    by (rule append_event_ok [of "published_event d bm n" u ag db1])
       (use ex ev1 assms in \<open>auto simp: published_event_def\<close>)
  let ?db2 = "db1\<lparr>events := events db1 @ [e1]\<rparr>"
  have i2: "\<forall>e \<in> set (events ?db2). event_id e \<noteq> i2" "document_exists u ?db2"
    using assms(5,6) ev1 e1(2) ex by (auto simp: document_exists_def)
  obtain e2 where e2: "append_event (accepted_event env d n) i2 ?db2 = (Inr (), ?db2\<lparr>events := events ?db2 @ [e2]\<rparr>)" "event_id e2 = i2"
    by (rule append_event_ok [of "accepted_event env d n" u ag ?db2])
       (use i2 assms(1-3) in \<open>simp_all add: accepted_event_def\<close>)
  show ?thesis by (rule that [OF up e1(1) e2(1)]) (use e1(2) e2(2) ev1 in \<open>auto simp: db1_def update_document_def\<close>)
qed

text \<open>When they all succeed the request ends as accepted.\<close>

lemma publication_run:
  assumes "a_pool a" "undisturbed env"
    "sequence_of (PStr ''0'') d = Inr n" "event_sequence_of d = Inr n"
    "send_audit_event mm cfg (ev_send env) (p_agency (dr_parsed d)) (event_payload env d n) (KAFKA_TOPIC_INGEST cfg) (a_producer a) = (Inr bm, pr)"
    "update_document_metadata (dr_job d) (published_update bm) (ev_update_now env) (a_db a) = (Inr (), db1)"
    "append_event (published_event d bm n) (fst (snd (ev_event_ids env))) db1 = (Inr (), db2)"
    "append_event (accepted_event env d n) (snd (snd (ev_event_ids env))) db2 = (Inr (), db3)"
    "accepted_response env d bm = Inr resp"
  shows "\<exists>a'. runs_to mm cfg rq env (Publishing d, a) = (Finished resp, a') \<and> a_producer a' = pr \<and> a_db a' = db3"
proof -
  have f: "ev_update env = NoFault" "ev_publish_log env = NoFault" "ev_accept_log env = NoFault"
    using assms(2) by (simp_all add: undisturbed_def)
  let ?a1 = "a\<lparr>a_producer := pr\<rparr>" and ?a2 = "a\<lparr>a_producer := pr, a_db := db1\<rparr>"
  let ?a3 = "a\<lparr>a_producer := pr, a_db := db2\<rparr>"
  let ?a4 = "log_metrics [HttpRequests endpoint ''POST'' 202, HttpDuration endpoint ''POST'' (ev_done env - ev_start env)] ?a3"
  let ?a5 = "?a4\<lparr>a_db := db3\<rparr>"
  let ?a6 = "log_metrics [ActivePipelinesDec]
    (?a5\<lparr>a_limiter := release ((ev_end env - ev_start env) * Fl 1000) (a_limiter ?a5)\<rparr>)"
  have "runs_to mm cfg rq env (Publishing d, a) = runs_to mm cfg rq env (Updating d bm, ?a1)"
    using assms(1,3,5) by (subst runs_to_step) (simp add: step_publish_def on_producer_def)
  also have "\<dots> = runs_to mm cfg rq env (LoggingPublish d bm, ?a2)"
    using assms(6) f by (subst runs_to_step) (simp add: step_update_def on_db_def with_fault_NoFault)
  also have "\<dots> = runs_to mm cfg rq env (Accepting d bm, ?a3)"
    using assms(4,7) f by (subst runs_to_step) (simp add: step_log_publish_def on_db_def with_fault_NoFault)
  also have "\<dots> = runs_to mm cfg rq env (LoggingAccept d bm, ?a4)"
    using assms(1) by (subst runs_to_step) (simp add: step_accept_def)
  also have "\<dots> = runs_to mm cfg rq env (Unwinding (accepted_response env d bm), ?a5)"
    using assms(4,8) f by (subst runs_to_step) (simp add: step_log_accept_def on_db_def with_fault_NoFault)
  also have "\<dots> = (Finished resp, ?a6)"
    unfolding assms(9) by (subst runs_to_step) (simp add: step_unwind_def finish_def)
  finally show ?thesis by (intro exI [of _ ?a6]) simp
qed

lemma publication_stage:
  assumes "a_pool a" "undisturbed env" "storable (dr_parsed d) key" "KAFKA_NUM_PARTITIONS cfg \<noteq> 0"
    "dr_job d = uuid_str u" "\<And>v. item (dr_state d) ''sequence_number'' v = PStr (int_str n)"
    "py_int_of_str 10 (int_str n) = Inr n" "int_str n \<noteq> []"
    "document_exists u (a_db a)"
    "fst (snd (ev_event_ids env)) \<noteq> snd (snd (ev_event_ids env))"
    "\<forall>e \<in> set (events (a_db a)). event_id e \<notin> {fst (snd (ev_event_ids env)), snd (snd (ev_event_ids env))}"
  obtains resp a' bm q where "runs_to mm cfg rq env (Publishing d, a) = (Finished resp, a')"
    "resp_status resp = 202" "response_job resp = Some (uuid_str u)"
    "documents (a_db a') = map (\<lambda>d. if document_id d = u then apply_update (published_update bm) (ev_update_now env) d else d)
                             (documents (a_db a))"
    "sent (a_producer a') =
       sent (a_producer a) @ (if connected (a_producer a) \<and> client_made (a_producer a) then [q] else [])"
    "event_id ` set (events (a_db a')) = event_id ` set (events (a_db a)) \<union>
       {fst (snd (ev_event_ids env)), snd (snd (ev_event_ids env))}"
    "results (a_db a') = results (a_db a)" "rec_topic q = KAFKA_TOPIC_INGEST cfg"
    "carries mm cfg (dr_parsed d) (event_payload env d n) q"
proof -
  have f: "ev_update env = NoFault" "ev_publish_log env = NoFault" "ev_accept_log env = NoFault" "broker_answers env"
    using assms(2) by (simp_all add: undisturbed_def broker_answers_def)
  obtain ag au where ag: "p_agency (dr_parsed d) = PStr ag" "clean ag" "p_audit_type (dr_parsed d) = PStr au"
    using assms(3) by (auto simp: storable_def)
  let ?P = "a_producer a"
  obtain bm q where snd: "send_audit_event mm cfg (ev_send env) (p_agency (dr_parsed d)) (event_payload env d n)
      (KAFKA_TOPIC_INGEST cfg) ?P = (Inr bm, if connected ?P \<and> client_made ?P then ?P\<lparr>sent := sent ?P @ [q]\<rparr> else ?P)"
    and q: "rec_topic q = KAFKA_TOPIC_INGEST cfg"
      "carries mm cfg (dr_parsed d) (event_payload env d n) q"
    by (rule send_publishes [OF assms(3,4) f(4) refl])
  define pr where "pr = (if connected ?P \<and> client_made ?P then ?P\<lparr>sent := sent ?P @ [q]\<rparr> else ?P)"
  obtain db1 db2 db3 where
    up: "update_document_metadata (dr_job d) (published_update bm) (ev_update_now env) (a_db a) = (Inr (), db1)"
    and e1: "append_event (published_event d bm n) (fst (snd (ev_event_ids env))) db1 = (Inr (), db2)"
    and e2: "append_event (accepted_event env d n) (snd (snd (ev_event_ids env))) db2 = (Inr (), db3)"
    and db: "documents db3 = map (\<lambda>d. if document_id d = u then apply_update (published_update bm) (ev_update_now env) d else d)
        (documents (a_db a))"
      "event_id ` set (events db3) = event_id ` set (events (a_db a)) \<union> {fst (snd (ev_event_ids env)), snd (snd (ev_event_ids env))}"
      "results db3 = results (a_db a)"
    by (rule publication_statements [OF ag(1,2) assms(5,9-11)])
  have seq: "event_sequence_of d = Inr n"
    using assms(6-8) by (simp add: event_sequence_of_def py_or_def)
  obtain resp where resp: "accepted_response env d bm = Inr resp"
    using ag by (simp add: accepted_response_def json_response_def json_dumps_def)
  have "sequence_of (PStr ''0'') d = Inr n" using assms(6,7) by (simp add: sequence_of_def)
  from publication_run [OF assms(1,2) this seq snd [folded pr_def] up e1 e2 resp] obtain a'
    where a': "runs_to mm cfg rq env (Publishing d, a) = (Finished resp, a')" "a_producer a' = pr" "a_db a' = db3" by blast
  show ?thesis
  proof (rule that [OF a'(1)])
    show "resp_status resp = 202" "response_job resp = Some (uuid_str u)"
      using resp assms(5) by (auto simp: accepted_response_def json_response_Inr response_job_def)
    show "sent (a_producer a') = sent ?P @ (if connected ?P \<and> client_made ?P then [q] else [])"
      by (simp add: a' pr_def)
    show "documents (a_db a') = map (\<lambda>d. if document_id d = u then apply_update (published_update bm) (ev_update_now env) d else d)
        (documents (a_db a))" by (simp add: a' db)
    show "event_id ` set (events (a_db a')) = event_id ` set (events (a_db a)) \<union>
        {fst (snd (ev_event_ids env)), snd (snd (ev_event_ids env))}" by (simp add: a' db)
    show "results (a_db a') = results (a_db a)" by (simp add: a' db)
  qed (rule q)+
qed

text \<open>The recording of a key that is there ends the request.\<close>

lemma duplicate_stage:
  assumes "a_pool a" "ev_select env = NoFault" "storable p key" "KAFKA_NUM_PARTITIONS cfg \<noteq> 0"
    "find_by_key key (a_db a) = Some row"
  obtains resp a' where "runs_to mm cfg rq env (Recording p saved, a) = (Finished resp, a')"
    "resp_status resp = 200" "map_of (resp_body resp) ''job_id'' = Some (PStr (uuid_str (document_id row)))"
    "a_db a' = a_db a" "a_producer a' = a_producer a"
proof -
  obtain ag where ag: "p_agency p = PStr ag" using assms(3) by (auto simp: storable_def)
  obtain n where "hash_key_to_partition mm (PStr ag) (KAFKA_NUM_PARTITIONS cfg) = Inr n"
    using hash_key_to_partition_total [OF assms(4)] by blast
  then obtain d where d: "make_draft mm cfg env p saved = Inr d"
    by (cases saved) (simp add: make_draft_def ag Let_def)
  note dp = make_draft_from [OF d]
  have key: "idemp_id (dr_parsed d) (dr_sha256 d) = PStr key" "clean key"
    using assms(3) dp by (auto simp: storable_def idemp_id_def py_or_def)
  have sel: "cog_select (new_document_of d) (a_db a) = (Inr (Some row), a_db a)"
    using key assms(5) by (simp add: cog_select_def new_document_of_def)
  let ?d = "adopt_record row d"
  let ?a1 = "log_metrics [HttpRequests endpoint ''POST'' 200, HttpDuration endpoint ''POST'' (ev_done env - ev_start env)]
    (cache_job ?d a)"
  obtain resp where resp: "duplicate_response env ?d = Inr resp"
    using ag dp by (simp add: duplicate_response_def json_response_def json_dumps_def)
  have "runs_to mm cfg rq env (Recording p saved, a) = runs_to mm cfg rq env (Unwinding (Inr resp), ?a1)"
    using d assms(1,2) sel resp
    by (subst runs_to_step) (simp add: step_record_def on_db_def with_fault_NoFault Let_def after_record_def)
  also have "\<dots> = (Finished resp, snd (step_unwind env (Inr resp) ?a1))"
    by (subst runs_to_step) (simp add: step_unwind_def finish_def)
  finally show ?thesis
    using resp by (elim that) (auto simp: duplicate_response_def json_response_Inr step_unwind_def)
qed

section \<open>Whole runs\<close>

text \<open>A request that the limiter and its agency's bucket admit, small enough, of storable fields.\<close>

definition admissible :: "settings \<Rightarrow> request \<Rightarrow> ingest_env \<Rightarrow> parsed \<Rightarrow> string \<Rightarrow> app \<Rightarrow> bool" where
  "admissible cfg rq env p key a \<longleftrightarrow>
     in_flight (a_limiter a) < py_floor (current_limit (a_limiter a)) \<and>
     parse_request rq = Inr p \<and> int (length (p_content p)) \<le> MAX_PAYLOAD_BYTES cfg \<and>
     (\<exists>w. fst (check_agency_limit (ev_bucket_now env) (p_agency p) (a_buckets a)) = Inr (True, w)) \<and>
     storable p key \<and> KAFKA_NUM_PARTITIONS cfg \<noteq> 0"

lemma admitted_to_recording:
  assumes "admissible cfg rq env p key a" "se_put (ev_storage env) = NoFault"
  obtains a' saved where "runs_to mm cfg rq env (Arrive, a) = runs_to mm cfg rq env (Recording p saved, a')"
    "same_services a a'"
proof -
  obtain w where "fst (check_agency_limit (ev_bucket_now env) (p_agency p) (a_buckets a)) = Inr (True, w)"
    using assms(1) by (auto simp: admissible_def)
  then obtain a1 where 1: "runs_to mm cfg rq env (Arrive, a) = runs_to mm cfg rq env (Saving p, a1)" "same_services a a1"
    using admission_stage [of a rq p cfg env w mm] assms(1) unfolding admissible_def by metis
  obtain a2 saved where 2: "runs_to mm cfg rq env (Saving p, a1) = runs_to mm cfg rq env (Recording p saved, a2)"
    "same_services a1 a2"
    using storage_stage [of p cfg env mm rq a1] assms unfolding admissible_def by metis
  show ?thesis using 1 2 by (intro that [of saved a2]) (auto simp: same_services_def)
qed

lemma sequence_text:
  assumes "1 \<le> n" "n < 2 ^ 63"
  shows "py_int_of_str 10 (int_str n) = Inr n" "int_str n \<noteq> []"
proof -
  have "nat n < 2 ^ 63" using assms by (simp add: nat_less_iff)
  also have "\<dots> \<le> (10 :: nat) ^ 20" by simp
  also have "\<dots> \<le> 10 ^ 4300" by (rule power_increasing) simp_all
  finally have "py_int_of_str 10 (nat_str (nat n)) = Inr (int (nat n))" by (rule py_int_of_nat_str)
  then show "py_int_of_str 10 (int_str n) = Inr n" using assms(1) by (simp add: int_str_def)
  show "int_str n \<noteq> []" by (simp add: int_str_def)
qed

lemma agency_sequence_length: "length (agency_sequence a db) \<le> length (documents db)"
  by (simp add: agency_sequence_def)

lemma ingest_runs_to: "ingest mm cfg rq env a = runs_to mm cfg rq env (Arrive, a)"
  by (simp add: ingest_def runs_to_def)

lemma find_map_same: "(\<And>x. P (f x) = P x) \<Longrightarrow> find P (map f xs) = map_option f (find P xs)"
  by (induction xs) auto

lemma found_after_update:
  assumes "find_by_key key db = None" "idempotency_key row = key" "documents db' = map u (documents db @ [row])"
    "\<And>d. idempotency_key (u d) = idempotency_key d"
  shows "find_by_key key db' = Some (u row)"
proof -
  have "find_by_key key db' = map_option u (find (\<lambda>d. idempotency_key d = key) (documents db @ [row]))"
    unfolding find_by_key_def assms(3) by (rule find_map_same) (simp only: assms(4))
  then show ?thesis using assms(1,2) by (simp add: find_by_key_def find_append)
qed

lemma runs_to_pool: "a_pool (snd (runs_to mm cfg rq env c)) = a_pool (snd c)"
proof -
  have "a_pool (snd (run_phases (handler_step mm cfg rq env) n c)) = a_pool (snd c)" for n
    by (induction n arbitrary: c) simp_all
  then show ?thesis by (simp add: runs_to_def)
qed

lemma ingest_published:
  assumes "admissible cfg rq env p key a" "undisturbed env" "a_pool a"
    "find_by_key key (a_db a) = None" "new_identifiers env (a_db a)" "db_inv (a_db a)"
    "sequences_dense (a_db a)" "length (documents (a_db a)) < 2 ^ 62"
  obtains resp a' row q d where "ingest mm cfg rq env a = (Finished resp, a')" "resp_status resp = 202"
    "response_job resp = Some (uuid_str (ni_document (ev_ids env)))"
    "find_by_key key (a_db a') = Some row" "document_id row = ni_document (ev_ids env)"
    "doc_status row = QUEUED" "PStr (doc_agency row) = p_agency p"
    "sequence_number row = int (Suc (length (agency_sequence (doc_agency row) (a_db a))))"
    "length (documents (a_db a')) = Suc (length (documents (a_db a)))"
    "length (sent (a_producer a')) = length (sent (a_producer a)) +
       (if connected (a_producer a) \<and> client_made (a_producer a) then 1 else 0)"
    "a_pool a'"
    "event_id ` set (events (a_db a')) = event_id ` set (events (a_db a)) \<union>
       {ni_event (ev_ids env), fst (snd (ev_event_ids env)), snd (snd (ev_event_ids env))}"
    "sent (a_producer a') = sent (a_producer a) @ (if connected (a_producer a) \<and> client_made (a_producer a) then [q] else [])"
    "rec_topic q = KAFKA_TOPIC_INGEST cfg" "dr_job d = uuid_str (ni_document (ev_ids env))" "dr_parsed d = p"
    "carries mm cfg p (event_payload env d (sequence_number row)) q"
    "results (a_db a') = results (a_db a)"
proof -
  have nf: "se_put (ev_storage env) = NoFault" using assms(2) by (simp add: undisturbed_def)
  have st: "storable p key" "KAFKA_NUM_PARTITIONS cfg \<noteq> 0" using assms(1) by (simp_all add: admissible_def)
  obtain a1 saved where 1: "runs_to mm cfg rq env (Arrive, a) = runs_to mm cfg rq env (Recording p saved, a1)"
    and s1: "a_pool a1 = a_pool a" "a_db a1 = a_db a" "a_producer a1 = a_producer a"
    using admitted_to_recording [OF assms(1) nf] by (metis same_services_def)
  have a1: "a_pool a1" "find_by_key key (a_db a1) = None" "new_identifiers env (a_db a1)" "db_inv (a_db a1)"
    using assms(3-6) s1 by simp_all
  obtain a2 d row where 2: "runs_to mm cfg rq env (Recording p saved, a1) = runs_to mm cfg rq env (Publishing d, a2)"
    and f: "a_pool a2" "a_producer a2 = a_producer a1" "dr_parsed d = p"
      "dr_job d = uuid_str (ni_document (ev_ids env))"
      "\<And>v. item (dr_state d) ''sequence_number'' v = PStr (int_str (sequence_number row))"
      "documents (a_db a2) = documents (a_db a) @ [row]"
      "events (a_db a2) = events (a_db a) @ [submitted_event (ev_ids env) (doc_agency row) (sequence_number row)]"
      "document_id row = ni_document (ev_ids env)" "idempotency_key row = key" "doc_status row = QUEUED"
      "PStr (doc_agency row) = p_agency p" "sequence_number row = next_sequence (doc_agency row) (a_db a)"
      "results (a_db a2) = results (a_db a)"
    by (rule recording_stage [OF a1(1) assms(2) st a1(2-4), of mm rq saved, unfolded s1(2)], rule that)
  have seq: "sequence_number row = int (Suc (length (agency_sequence (doc_agency row) (a_db a))))"
    using f(12) next_sequence_dense [OF assms(7)] by simp
  then have "1 \<le> sequence_number row" "sequence_number row < 2 ^ 63"
    using agency_sequence_length [of "doc_agency row" "a_db a"] assms(8) by auto
  note text_n = sequence_text [OF this]
  have ids: "fst (snd (ev_event_ids env)) \<noteq> snd (snd (ev_event_ids env))"
    "\<forall>e \<in> set (events (a_db a2)). event_id e \<notin> {fst (snd (ev_event_ids env)), snd (snd (ev_event_ids env))}"
    using assms(5) f(7) by (auto simp: new_identifiers_def submitted_event_def)
  have ex: "document_exists (ni_document (ev_ids env)) (a_db a2)" using f(6,8) by (simp add: document_exists_def)
  obtain resp a3 bm q where 3: "runs_to mm cfg rq env (Publishing d, a2) = (Finished resp, a3)"
    and g: "resp_status resp = 202" "response_job resp = Some (uuid_str (ni_document (ev_ids env)))"
      "documents (a_db a3) = map (\<lambda>d. if document_id d = ni_document (ev_ids env)
          then apply_update (published_update bm) (ev_update_now env) d else d) (documents (a_db a2))"
      "sent (a_producer a3) = sent (a_producer a2) @
         (if connected (a_producer a2) \<and> client_made (a_producer a2) then [q] else [])"
      "event_id ` set (events (a_db a3)) = event_id ` set (events (a_db a2)) \<union>
         {fst (snd (ev_event_ids env)), snd (snd (ev_event_ids env))}"
      "results (a_db a3) = results (a_db a2)" "rec_topic q = KAFKA_TOPIC_INGEST cfg"
      "carries mm cfg (dr_parsed d) (event_payload env d (sequence_number row)) q"
    by (rule publication_stage [OF f(1) assms(2) st(1) [folded f(3)] st(2) f(4,5) text_n ex ids, of mm rq], rule that)
  let ?u = "\<lambda>d. if document_id d = ni_document (ev_ids env)
    then apply_update (published_update bm) (ev_update_now env) d else d"
  have same: "idempotency_key (?u d) = idempotency_key d" for d by (simp add: apply_update_def)
  have found: "find_by_key key (a_db a3) = Some (?u row)"
    using g(3) [unfolded f(6)] by (rule found_after_update [OF assms(4) f(9)]) (rule same)
  have pool: "a_pool a3"
    using runs_to_pool [of mm cfg rq env "(Publishing d, a2)"] 3 f(1) by simp
  show ?thesis
  proof (rule that)
    show "ingest mm cfg rq env a = (Finished resp, a3)" using 1 2 3 by (simp add: ingest_runs_to)
    show "find_by_key key (a_db a3) = Some (?u row)" by (rule found)
    show "doc_status (?u row) = QUEUED" using f(10) by (simp add: apply_update_def published_update_def)
    show "length (documents (a_db a3)) = Suc (length (documents (a_db a)))" using g(3) f(6) by simp
    show "event_id ` set (events (a_db a3)) = event_id ` set (events (a_db a)) \<union>
        {ni_event (ev_ids env), fst (snd (ev_event_ids env)), snd (snd (ev_event_ids env))}"
      using g(5) f(7) by (auto simp: submitted_event_def)
    show "dr_job d = uuid_str (ni_document (ev_ids env))" "dr_parsed d = p" by (rule f)+
    show "carries mm cfg p (event_payload env d (sequence_number (?u row))) q"
      using g(8) f(3) by (simp add: apply_update_def)
    show "sent (a_producer a3) = sent (a_producer a) @ (if connected (a_producer a) \<and> client_made (a_producer a) then [q] else [])"
      using g(4) f(2) s1 by simp
  qed (use g f s1 seq pool in \<open>simp_all add: apply_update_def\<close>)
qed

lemma ingest_accepted:
  assumes "admissible cfg rq env p key a" "undisturbed env" "a_pool a"
    "find_by_key key (a_db a) = None" "new_identifiers env (a_db a)" "db_inv (a_db a)"
    "sequences_dense (a_db a)" "length (documents (a_db a)) < 2 ^ 62"
  obtains resp a' row where "ingest mm cfg rq env a = (Finished resp, a')" "resp_status resp = 202"
    "response_job resp = Some (uuid_str (ni_document (ev_ids env)))"
    "find_by_key key (a_db a') = Some row" "document_id row = ni_document (ev_ids env)"
    "doc_status row = QUEUED" "PStr (doc_agency row) = p_agency p"
    "sequence_number row = int (Suc (length (agency_sequence (doc_agency row) (a_db a))))"
    "length (documents (a_db a')) = Suc (length (documents (a_db a)))"
    "length (sent (a_producer a')) = length (sent (a_producer a)) +
       (if connected (a_producer a) \<and> client_made (a_producer a) then 1 else 0)"
    "a_pool a'"
    "event_id ` set (events (a_db a')) = event_id ` set (events (a_db a)) \<union>
       {ni_event (ev_ids env), fst (snd (ev_event_ids env)), snd (snd (ev_event_ids env))}"
  by (rule ingest_published [OF assms, of mm]) (rule that)

lemma ingest_resubmitted:
  assumes "admissible cfg rq env p key a" "se_put (ev_storage env) = NoFault" "ev_select env = NoFault" "a_pool a"
    "find_by_key key (a_db a) = Some row"
  obtains resp a' where "ingest mm cfg rq env a = (Finished resp, a')" "resp_status resp = 200"
    "map_of (resp_body resp) ''job_id'' = Some (PStr (uuid_str (document_id row)))"
    "a_db a' = a_db a" "a_producer a' = a_producer a"
proof -
  have st: "storable p key" "KAFKA_NUM_PARTITIONS cfg \<noteq> 0" using assms(1) by (simp_all add: admissible_def)
  obtain a1 saved where 1: "runs_to mm cfg rq env (Arrive, a) = runs_to mm cfg rq env (Recording p saved, a1)"
    and s1: "a_pool a1 = a_pool a" "a_db a1 = a_db a" "a_producer a1 = a_producer a"
    using admitted_to_recording [OF assms(1,2)] by (metis same_services_def)
  show ?thesis
    using duplicate_stage [of a1 env p key cfg row mm rq saved] assms(3-5) st s1 1 that ingest_runs_to by metis
qed

end
