(* ===== verification/ApiProperties.thy ===== *)
theory ApiProperties imports IngestRuns begin

text \<open>
  The API's promises to its clients: what a 202 means, which statuses there are, that every request
  ends and gives its slot back, and what the state keeps, all under any interleaving of requests.
\<close>

section \<open>Runs as steps of the system\<close>

lemma reachable_run:
  assumes "reachable mm cfg a0 s" "i < length (sys_calls s)" "sys_calls s ! i = (rq, env, ph)"
  shows "reachable mm cfg a0
    \<lparr>sys_app = snd (run_phases (handler_step mm cfg rq env) n (ph, sys_app s)),
     sys_calls = (sys_calls s)[i := (rq, env, fst (run_phases (handler_step mm cfg rq env) n (ph, sys_app s)))]\<rparr>"
  using assms
proof (induction n arbitrary: s ph)
  case 0
  then show ?case by (cases s) (simp add: list_update_same_conv [THEN iffD2])
next
  case (Suc n)
  obtain ph' a' where h: "handler_step mm cfg rq env ph (sys_app s) = (ph', a')" by force
  let ?s = "\<lparr>sys_app = a', sys_calls = (sys_calls s)[i := (rq, env, ph')]\<rparr>"
  have "reachable mm cfg a0 ?s" using Suc.prems h by (intro reachable.step [OF Suc.prems(1)] sys_step.advances)
  from Suc.IH [OF this, of ph'] show ?case using Suc.prems h by simp
qed

lemma reachable_ingest:
  assumes "reachable mm cfg a0 s" "env_ok env" "request_ok rq"
    "ingest mm cfg rq env (sys_app s) = (ph, a')"
  shows "reachable mm cfg a0 \<lparr>sys_app = a', sys_calls = sys_calls s @ [(rq, env, ph)]\<rparr>"
proof -
  let ?s = "s\<lparr>sys_calls := sys_calls s @ [(rq, env, Arrive)]\<rparr>"
  have "reachable mm cfg a0 ?s" using assms(1-3) by (intro reachable.step [OF assms(1)] sys_step.arrives)
  from reachable_run [OF this, of "length (sys_calls s)" rq env Arrive ingest_fuel]
  show ?thesis using assms(4) by (simp add: ingest_def)
qed

text \<open>A request touches no bucket but its own agency's.\<close>

lemma handler_other_bucket:
  assumes "phase_from rq ph" "parse_request rq = Inr p" "py_key (p_agency p) \<noteq> Inr k"
  shows "local_buckets (a_buckets (snd (handler_step mm cfg rq env ph a))) k = local_buckets (a_buckets a) k"
proof (cases ph)
  case (Checking q)
  then have "q = p" using assms(1,2) by simp
  have "local_buckets (snd (check_agency_limit now (p_agency p) t)) k = local_buckets t k" for now t
    using assms(3) check_key_other [of k] by (auto simp: check_agency_limit_def split: sum.split)
  then have "local_buckets t' k = local_buckets t k" if "check_agency_limit now (p_agency p) t = (r, t')" for now t r t'
    using that by (metis snd_conv)
  then show ?thesis using Checking \<open>q = p\<close> by (auto simp: step_check_def Let_def split: step_splits)
qed (auto simp: step_defs Let_def on_service split: step_splits)

lemma ingest_other_bucket:
  assumes "parse_request rq = Inr p" "py_key (p_agency p) \<noteq> Inr k"
  shows "local_buckets (a_buckets (snd (ingest mm cfg rq env a))) k = local_buckets (a_buckets a) k"
proof -
  have "phase_from rq (fst c) \<Longrightarrow>
    local_buckets (a_buckets (snd (run_phases (handler_step mm cfg rq env) n c))) k = local_buckets (a_buckets (snd c)) k" for n c
    by (induction n arbitrary: c) (simp_all add: handler_from handler_other_bucket [OF _ assms])
  from this [of "(Arrive, a)"] show ?thesis by (simp add: ingest_def)
qed

section \<open>A run to use\<close>

text \<open>The default settings with a database, with or without a broker, and a family of JSON requests that differ
  in their agency and key.\<close>

definition example_app :: "bool \<Rightarrow> app" where
  "example_app broker = app_startup True (Inr True) (Inr ()) broker broker (new_app default_settings False)"

definition example_request :: "string \<Rightarrow> request" where
  "example_request k = \<lparr>
     rq_content_type = ''application/json'',
     rq_json = Inr (PDict [(''agency_id'', PStr k), (''idempotency_key'', PStr k), (''content_raw'', PStr ''x'')]),
     rq_form = Inl RuntimeError, rq_body = Inr [], rq_agency = None\<rparr>"

definition example_parsed :: "string \<Rightarrow> parsed" where
  "example_parsed k = default_parsed\<lparr>p_agency := PStr k, p_key := PStr k, p_content := utf8 ''x''\<rparr>"

definition example_env :: "nat \<Rightarrow> ingest_env" where
  "example_env n = \<lparr>
     ev_start = 0, ev_bucket_now = 0,
     ev_storage = \<lparr>se_uuid = 0, se_open_fails = False, se_written = None, se_replace_fails = False,
                   se_unlink_fails = False, se_put = NoFault\<rparr>,
     ev_job = 0, ev_ingested_at = 0, ev_select = NoFault, ev_insert = NoFault,
     ev_ids = \<lparr>ni_document = of_nat (4 * n + 1), ni_event = of_nat (4 * n + 2), ni_now = 0\<rparr>,
     ev_published_at = 0, ev_send = SendMetadata [] 0 0, ev_update = NoFault, ev_update_now = 0,
     ev_event_ids = (0, of_nat (4 * n + 3), of_nat (4 * n + 4)),
     ev_reject = NoFault, ev_publish_log = NoFault, ev_accept_log = NoFault,
     ev_done = 0, ev_end = 0, ev_client_exn = []\<rparr>"

lemma example_parse: "parse_request (example_request k) = Inr (example_parsed k)"
proof -
  have "sublist ''application/json'' (rq_content_type (example_request k))"
    by (simp add: example_request_def)
  then show ?thesis
    by (simp add: parse_request_def example_request_def parse_json_def example_parsed_def default_parsed_def
        item_def json_content_def)
qed

lemma example_request_ok: "request_ok (example_request k)"
  by (simp add: request_ok_def example_request_def only_400_def)

lemma example_env_ok: "env_ok (example_env n)" "undisturbed (example_env n)"
  by (simp_all add: env_ok_def undisturbed_def example_env_def write_ok_def)

lemma example_fresh: "fresh_app mm default_settings (example_app b)" "a_pool (example_app b)"
  unfolding example_app_def by (rule fresh_app_start [OF settings_ok_default]) (simp add: app_startup_def)

text \<open>A well-formed state with no request in flight admits an example request of an unseen agency.\<close>

lemma limit_positive:
  assumes "limiter_inv l" "1 \<le> min_limit l" "in_flight l = 0"
  shows "in_flight l < py_floor (current_limit l)"
proof -
  have "py_floor (float_of_int (min_limit l)) \<le> py_floor (current_limit l)"
    using assms(1) by (intro py_floor_mono) (simp add: limiter_inv_def)
  moreover have "py_floor (float_of_int (min_limit l)) = min_limit l"
    using assms(1,2) by (intro py_floor_float_of_int) (simp add: limiter_inv_def limiter_params_def)
  ultimately show ?thesis using assms(2,3) by simp
qed

lemma example_admissible:
  assumes "limiter_inv (a_limiter a)" "1 \<le> min_limit (a_limiter a)" "in_flight (a_limiter a) = 0"
    "local_buckets (a_buckets a) (KStr k) = None" "k \<noteq> []" "clean k"
  shows "admissible default_settings (example_request k) (example_env n) (example_parsed k) k a"
proof -
  have "storable (example_parsed k) k"
    using assms(5,6) by (simp add: storable_def example_parsed_def default_parsed_def clean_def)
  moreover have "\<exists>w. fst (check_agency_limit (ev_bucket_now (example_env n)) (p_agency (example_parsed k)) (a_buckets a)) = Inr (True, w)"
    using assms(4) by (simp add: check_agency_limit_def check_key_def example_parsed_def)
  moreover have "length (utf8 ''x'') = 1" by code_simp
  then have "int (length (p_content (example_parsed k))) \<le> MAX_PAYLOAD_BYTES default_settings"
    by (simp add: example_parsed_def default_settings_def)
  moreover have "KAFKA_NUM_PARTITIONS default_settings \<noteq> 0" by (simp add: default_settings_def)
  ultimately show ?thesis using limit_positive [OF assms(1-3)] example_parse by (simp add: admissible_def)
qed

lemma singleton_documents:
  "length (documents db) = 1 \<Longrightarrow> find_by_key k db = Some row \<Longrightarrow> documents db = [row] \<and> idempotency_key row = k"
  by (cases "documents db") (auto simp: find_by_key_def split: if_splits)

text \<open>Two requests run one after the other: both are accepted.\<close>

lemma example_first:
  obtains resp a row where "ingest mm default_settings (example_request ''a'') (example_env 0) (example_app b) = (Finished resp, a)"
    "resp_status resp = 202" "response_job resp = Some (uuid_str 1)" "documents (a_db a) = [row]"
    "document_id row = 1" "idempotency_key row = ''a''"
    "event_id ` set (events (a_db a)) = {2, 3, 4}" "a_pool a"
    "local_buckets (a_buckets a) (KStr ''b'') = None"
    "length (sent (a_producer a)) = (if b then 1 else 0)"
    "reachable mm default_settings (example_app b) \<lparr>sys_app = a, sys_calls = [(example_request ''a'', example_env 0, Finished resp)]\<rparr>"
proof -
  have f: "a_db (example_app b) = empty_database" "a_limiter (example_app b) = adaptive_limiter default_settings"
    "a_buckets (example_app b) = token_bucket_limiter default_settings"
    "a_producer (example_app b) = producer_start b b new_producer"
    by (simp_all add: example_app_def app_startup_def new_app_def)
  have app: "app_inv mm default_settings (example_app b)" "in_flight (a_limiter (example_app b)) = 0"
    using example_fresh by (auto simp: fresh_app_def)
  have lim: "limiter_inv (a_limiter (example_app b))" "1 \<le> min_limit (a_limiter (example_app b))"
    using app f by (simp_all add: app_inv_def adaptive_limiter_def new_limiter_def default_settings_def)
  have ad: "admissible default_settings (example_request ''a'') (example_env 0) (example_parsed ''a'') ''a'' (example_app b)"
    using lim app f by (intro example_admissible) (simp_all add: token_bucket_limiter_def clean_def)
  have new: "new_identifiers (example_env 0) (a_db (example_app b))"
    by (simp add: f new_identifiers_def document_exists_def empty_database_def example_env_def)
  have e: "find_by_key ''a'' (a_db (example_app b)) = None" "length (documents (a_db (example_app b))) < 2 ^ 62"
    by (simp_all add: f find_by_key_def empty_database_def)
  obtain resp a row where r: "ingest mm default_settings (example_request ''a'') (example_env 0) (example_app b) = (Finished resp, a)"
    "resp_status resp = 202" "response_job resp = Some (uuid_str (ni_document (ev_ids (example_env 0))))"
    "find_by_key ''a'' (a_db a) = Some row" "document_id row = ni_document (ev_ids (example_env 0))"
    "length (documents (a_db a)) = Suc (length (documents (a_db (example_app b))))" "a_pool a"
    "length (sent (a_producer a)) = length (sent (a_producer (example_app b))) +
       (if connected (a_producer (example_app b)) \<and> client_made (a_producer (example_app b)) then 1 else 0)"
    "event_id ` set (events (a_db a)) = event_id ` set (events (a_db (example_app b))) \<union>
       {ni_event (ev_ids (example_env 0)), fst (snd (ev_event_ids (example_env 0))), snd (snd (ev_event_ids (example_env 0)))}"
    using app by (auto simp: app_inv_def intro: ingest_accepted [OF ad example_env_ok(2) example_fresh(2) e(1) new _ _ e(2), of mm])
  have "documents (a_db a) = [row] \<and> idempotency_key row = ''a''"
    using r(4,6) by (intro singleton_documents) (simp_all add: f empty_database_def)
  moreover have "local_buckets (a_buckets a) (KStr ''b'') = None"
    using ingest_other_bucket [OF example_parse, of "''a''" "KStr ''b''" mm default_settings "example_env 0" "example_app b"] r(1)
    by (simp add: example_parsed_def f token_bucket_limiter_def)
  moreover have "reachable mm default_settings (example_app b) \<lparr>sys_app = a, sys_calls = [(example_request ''a'', example_env 0, Finished resp)]\<rparr>"
    using reachable_ingest [OF reachable.start [of mm default_settings "example_app b"] example_env_ok(1) [of 0] example_request_ok [of "''a''"]] r(1)
    by simp
  ultimately show ?thesis
    using r by (intro that [of resp a row]) (simp_all add: example_env_def f empty_database_def insert_commute producer_start_def new_producer_def)
qed

lemma example_second:
  obtains resp resp' a where
    "reachable mm default_settings (example_app b)
       \<lparr>sys_app = a, sys_calls = [(example_request ''a'', example_env 0, Finished resp),
                                   (example_request ''b'', example_env 1, Finished resp')]\<rparr>"
    "resp_status resp = 202" "resp_status resp' = 202"
proof -
  obtain resp a row where r: "resp_status resp = 202" "documents (a_db a) = [row]"
    "document_id row = 1" "idempotency_key row = ''a''" "event_id ` set (events (a_db a)) = {2, 3, 4}"
    "a_pool a" "local_buckets (a_buckets a) (KStr ''b'') = None"
    and reach: "reachable mm default_settings (example_app b)
      \<lparr>sys_app = a, sys_calls = [(example_request ''a'', example_env 0, Finished resp)]\<rparr>"
    by (rule example_first [of mm b])
  from reachable_inv [OF reach example_fresh(1)] have inv: "app_inv mm default_settings a" "in_flight (a_limiter a) = 0"
    by (simp_all add: sys_inv_def held_def slots_def)
  have "min_limit (a_limiter a) = 25"
    using reachable_limits [OF reach]
    by (simp add: example_app_def app_startup_def new_app_def adaptive_limiter_def new_limiter_def default_settings_def)
  then have ad: "admissible default_settings (example_request ''b'') (example_env 1) (example_parsed ''b'') ''b'' a"
    using inv r(7) by (intro example_admissible) (simp_all add: app_inv_def clean_def)
  have ids: "(5::uuid) \<noteq> 1" "(6::uuid) \<notin> {2, 3, 4}" "(7::uuid) \<notin> {2, 3, 4}" "(8::uuid) \<notin> {2, 3, 4}" "distinct [6::uuid, 7, 8]"
    by simp_all
  have "event_id e \<notin> {6, 7, 8}" if "e \<in> set (events (a_db a))" for e
  proof -
    have "event_id e \<in> {2, 3, 4}" using that r(5) by blast
    then show ?thesis by auto
  qed
  then have new: "new_identifiers (example_env 1) (a_db a)"
    using r(2,3) by (simp add: new_identifiers_def document_exists_def example_env_def)
  have e: "find_by_key ''b'' (a_db a) = None" "length (documents (a_db a)) < 2 ^ 62"
    using r(2,4) by (simp_all add: find_by_key_def)
  obtain resp' a' where r': "ingest mm default_settings (example_request ''b'') (example_env 1) a = (Finished resp', a')"
    "resp_status resp' = 202"
    using inv by (auto simp: app_inv_def intro: ingest_accepted [OF ad example_env_ok(2) r(6) e(1) new _ _ e(2), of mm])
  have "reachable mm default_settings (example_app b)
      \<lparr>sys_app = a', sys_calls = [(example_request ''a'', example_env 0, Finished resp), (example_request ''b'', example_env 1, Finished resp')]\<rparr>"
    using reachable_ingest [OF reach example_env_ok(1) [of 1] example_request_ok [of "''b''"]] r'(1) by simp
  then show ?thesis using r(1) r'(2) by (rule that)
qed

section \<open>Exactly-once acceptance\<close>

lemma finished_claim:
  assumes "sys_inv mm cfg s" "a_pool (sys_app s)" "i < length (sys_calls s)"
    "sys_calls s ! i = (rq, env, Finished resp)" "resp_status resp = 202"
  obtains u d where "claimed (Finished resp) = Some u" "d \<in> set (documents (a_db (sys_app s)))" "document_id d = u"
    "request_key rq = Some (PStr (idempotency_key d))"
proof -
  have "(rq, env, Finished resp) \<in> set (sys_calls s)" using assms(3,4) by (metis nth_mem)
  then have "claim_ok (sys_app s) (rq, env, Finished resp)" using assms(1) by (auto simp: sys_inv_def)
  then show ?thesis using assms(2,5) that by (auto simp: claim_ok_def has_document_def)
qed

lemma claimed_response: "claimed (Finished resp) = job_uuid (response_job resp)"
  by (simp add: claimed_def)

text \<open>Two acceptances differ, and each is stored, wherever the invariant holds.\<close>

lemma accepted_distinct:
  assumes "sys_inv mm cfg s" "a_pool (sys_app s)"
    "i < length (sys_calls s)" "j < length (sys_calls s)" "i \<noteq> j"
    "sys_calls s ! i = (rq, env, Finished resp)" "sys_calls s ! j = (rq', env', Finished resp')"
    "resp_status resp = 202" "resp_status resp' = 202"
  shows "request_key rq \<noteq> request_key rq' \<and> response_job resp \<noteq> response_job resp'"
proof -
  note inv = assms(1) and pool = assms(2)
  obtain u d where u: "claimed (Finished resp) = Some u" "d \<in> set (documents (a_db (sys_app s)))" "document_id d = u"
    "request_key rq = Some (PStr (idempotency_key d))" by (rule finished_claim [OF inv pool assms(3,6,8)])
  obtain v e where v: "claimed (Finished resp') = Some v" "e \<in> set (documents (a_db (sys_app s)))" "document_id e = v"
    "request_key rq' = Some (PStr (idempotency_key e))" by (rule finished_claim [OF inv pool assms(4,7,9)])
  have "claims_distinct (sys_calls s)" using inv by (simp add: sys_inv_def)
  then have "u \<noteq> v" using u(1) v(1) assms(3-7) unfolding claims_distinct_def by (metis snd_conv)
  moreover have "distinct (map idempotency_key (documents (a_db (sys_app s))))"
    using inv by (simp add: sys_inv_def app_inv_def db_inv_def)
  then have "d = e" if "idempotency_key d = idempotency_key e" using that u(2) v(2) by (auto simp: distinct_map dest: inj_onD)
  ultimately show ?thesis using u v by (auto simp: claimed_response)
qed

lemma accepted_found:
  assumes "sys_inv mm cfg s" "a_pool (sys_app s)"
    "i < length (sys_calls s)" "sys_calls s ! i = (rq, env, Finished resp)" "resp_status resp = 202"
  shows "\<exists>job d r. response_job resp = Some job \<and>
    get_job_status NoFault job (sys_app s) = Inr (FromDatabase d r) \<and>
    request_key rq = Some (PStr (idempotency_key d))"
proof -
  note inv = assms(1) and pool = assms(2)
  obtain u d where u: "claimed (Finished resp) = Some u" "d \<in> set (documents (a_db (sys_app s)))" "document_id d = u"
    "request_key rq = Some (PStr (idempotency_key d))" by (rule finished_claim [OF inv pool assms(3-5)])
  then obtain job where job: "response_job resp = Some job" "parse_uuid job = Inr u"
    by (auto simp: claimed_response job_uuid_def split: option.splits sum.splits)
  have "distinct (map document_id (documents (a_db (sys_app s))))"
    using inv by (simp add: sys_inv_def app_inv_def db_inv_def)
  then have "find_document u (a_db (sys_app s)) = Some d"
    using u(2,3) by (auto simp: find_document_def intro: find_distinct)
  then obtain r where "get_document job (a_db (sys_app s)) = Inr (Some (d, r))"
    using job(2) by (simp add: get_document_def)
  then have "get_job_status NoFault job (sys_app s) = Inr (FromDatabase d r)"
    using pool by (simp add: get_job_status_def job_in_database_def)
  then show ?thesis using job(1) u(4) by blast
qed

section \<open>Every request is answered\<close>


section \<open>The limiter's slots\<close>

text \<open>C7: the limiter's count and the active-pipelines gauge are exactly the requests between their
  admission and the end of their finally block, never more than the limiter's maximum, and both
  are zero when none is left.\<close>

theorem slots_are_exact:
  assumes "reachable mm cfg a0 s" "fresh_app mm cfg a0"
  shows "in_flight (a_limiter (sys_app s)) = int (length (filter (\<lambda>c. holds_slot (snd (snd c))) (sys_calls s)))
    \<and> active_pipelines (a_metrics (sys_app s)) = in_flight (a_limiter (sys_app s))
    \<and> in_flight (a_limiter (sys_app s)) \<le> max_limit (a_limiter a0)"
proof -
  have inv: "sys_inv mm cfg s" by (rule reachable_inv [OF assms])
  have "held cs = int (length (filter (\<lambda>c. holds_slot (snd (snd c))) cs))" for cs
    by (induction cs) (auto simp: held_def slots_def)
  then show ?thesis
    using inv reachable_limits [OF assms(1)] by (simp add: sys_inv_def app_inv_def limiter_inv_def)
qed

theorem slots_are_exact_witness:
  "\<exists>a :: app. in_flight (a_limiter a) = 0 \<and> active_pipelines (a_metrics a) = 0 \<and> length (documents (a_db a)) = 1"
proof -
  obtain resp a row where r: "reachable None default_settings (example_app False)
      \<lparr>sys_app = a, sys_calls = [(example_request ''a'', example_env 0, Finished resp)]\<rparr>" "documents (a_db a) = [row]"
    by (rule example_first)
  from slots_are_exact [OF r(1) example_fresh(1)] r(2) show ?thesis by - (rule exI [of _ a], simp)
qed

section \<open>What the state keeps\<close>

text \<open>C21: the events of one agency all go to one partition: two records the API has handed to the
  broker with the same key have the same partition, which is one of the topic's.\<close>

theorem same_agency_same_partition:
  assumes "reachable mm cfg a0 s" "fresh_app mm cfg a0" "0 < KAFKA_NUM_PARTITIONS cfg"
    "r \<in> set (sent (a_producer (sys_app s)))" "r' \<in> set (sent (a_producer (sys_app s)))" "rec_key r = rec_key r'"
  shows "rec_partition r = rec_partition r' \<and> 0 \<le> rec_partition r \<and> rec_partition r < KAFKA_NUM_PARTITIONS cfg"
proof -
  have "sharded_log mm cfg (a_producer (sys_app s))"
    using reachable_inv [OF assms(1,2)] by (simp add: sys_inv_def app_inv_def)
  then have "well_sharded mm cfg r" "well_sharded mm cfg r'" using assms(4,5) by (auto simp: sharded_log_def)
  then obtain ag ag' where
    "rec_key r = utf8 ag" "hash_key_to_partition mm (PStr ag) (KAFKA_NUM_PARTITIONS cfg) = Inr (rec_partition r)"
    "rec_key r' = utf8 ag'" "hash_key_to_partition mm (PStr ag') (KAFKA_NUM_PARTITIONS cfg) = Inr (rec_partition r')"
    by (auto simp: well_sharded_def)
  then show ?thesis
    using assms(3,6) utf8_inj hash_key_to_partition_range by (metis Inr_inject)
qed

theorem same_agency_same_partition_witness:
  "\<exists>(a :: app) (r :: kafka_record). sent (a_producer a) = [r] \<and> 0 \<le> rec_partition r \<and> rec_partition r < 16"
proof -
  obtain resp a where r: "reachable None default_settings (example_app True)
      \<lparr>sys_app = a, sys_calls = [(example_request ''a'', example_env 0, Finished resp)]\<rparr>"
    "length (sent (a_producer a)) = (if True then 1 else 0)"
    by (rule example_first)
  then obtain q where q: "sent (a_producer a) = [q]" by (cases "sent (a_producer a)") auto
  have "0 < KAFKA_NUM_PARTITIONS default_settings" "KAFKA_NUM_PARTITIONS default_settings = 16"
    by (simp_all add: default_settings_def)
  with same_agency_same_partition [OF r(1) example_fresh(1), of q q] q
  show ?thesis by - (rule exI [of _ a], rule exI [of _ q], simp)
qed

section \<open>The effect of one request\<close>


lemma example_start:
  "admissible default_settings (example_request ''a'') (example_env 0) (example_parsed ''a'') ''a'' (example_app b)"
  "find_by_key ''a'' (a_db (example_app b)) = None" "new_identifiers (example_env 0) (a_db (example_app b))"
  "app_inv mm default_settings (example_app b)" "documents (a_db (example_app b)) = []"
proof -
  have f: "a_db (example_app b) = empty_database" "a_limiter (example_app b) = adaptive_limiter default_settings"
    "a_buckets (example_app b) = token_bucket_limiter default_settings"
    by (simp_all add: example_app_def app_startup_def new_app_def)
  show app: "app_inv mm default_settings (example_app b)" for mm
    using example_fresh by (auto simp: fresh_app_def)
  have "limiter_inv (a_limiter (example_app b))" "1 \<le> min_limit (a_limiter (example_app b))" "in_flight (a_limiter (example_app b)) = 0"
    using app [of None] f by (simp_all add: app_inv_def adaptive_limiter_def new_limiter_def default_settings_def)
  then show "admissible default_settings (example_request ''a'') (example_env 0) (example_parsed ''a'') ''a'' (example_app b)"
    using f by (intro example_admissible) (simp_all add: token_bucket_limiter_def clean_def)
qed (simp_all add: example_app_def app_startup_def new_app_def empty_database_def find_by_key_def
  new_identifiers_def document_exists_def example_env_def)




section \<open>Where the promises do not hold\<close>

text \<open>The fallback's draft keeps its local job id, which is no UUID: with a pool its update raises.\<close>

lemma local_job_update:
  assumes "a_pool a" "dr_job d = local_job_id u"
  obtains e where "handler_step mm cfg rq env (Updating d bm) a = (Unwinding (Inl e), a)" "e = ValueError \<or> e = ExternalError"
proof -
  have "update_document_metadata (dr_job d) (published_update bm) (ev_update_now env) (a_db a) = (Inl ValueError, a_db a)"
    by (simp add: assms(2) update_document_metadata_def transaction_def op_bind_def op_lift_def parse_local_job_id)
  then show ?thesis using that
    by (cases "ev_update env") (simp_all add: step_update_def on_db_def)
qed

text \<open>The draft of a request before the database has seen it.\<close>

lemma fresh_draft:
  assumes "storable p key" "KAFKA_NUM_PARTITIONS cfg \<noteq> 0"
  obtains d where "make_draft mm cfg env p saved = Inr d" "dr_parsed d = p" "dr_job d = local_job_id (ev_job env)"
    "sequence_of (PStr ''0'') d = Inr 0" "idemp_id (dr_parsed d) (dr_sha256 d) = PStr key"
proof -
  obtain ag where ag: "p_agency p = PStr ag" using assms(1) by (auto simp: storable_def)
  obtain n where "hash_key_to_partition mm (PStr ag) (KAFKA_NUM_PARTITIONS cfg) = Inr n"
    using hash_key_to_partition_total [OF assms(2)] by blast
  then obtain d where d: "make_draft mm cfg env p saved = Inr d"
    by (cases saved) (simp add: make_draft_def ag Let_def)
  have "item (dr_state d) ''sequence_number'' (PStr ''0'') = PStr ''0''"
    using d by (cases saved) (auto simp: make_draft_def Let_def py_bind_eq_Inr item_def)
  moreover have "py_int_of_str 10 ''0'' = Inr 0" by code_simp
  ultimately have "sequence_of (PStr ''0'') d = Inr 0" by (simp add: sequence_of_def)
  moreover have "idemp_id (dr_parsed d) (dr_sha256 d) = PStr key"
    using assms(1) make_draft_from [OF d] by (auto simp: storable_def idemp_id_def py_or_def)
  ultimately show thesis using that [OF d] make_draft_from [OF d] by blast
qed



text \<open>The phases before the broker has answered, and the ends that are no 202.\<close>

fun unpublished :: "phase \<Rightarrow> bool" where
  "unpublished (Updating _ _) = False"
| "unpublished (LoggingPublish _ _) = False"
| "unpublished (Accepting _ _) = False"
| "unpublished (LoggingAccept _ _) = False"
| "unpublished (Unwinding (Inr resp)) = (resp_status resp \<noteq> 202)"
| "unpublished (Finished resp) = (resp_status resp \<noteq> 202)"
| "unpublished _ = True"

lemma unpublished_json: "c \<noteq> 202 \<Longrightarrow> unpublished (Unwinding (json_response c h b))"
  by (auto simp: json_response_def json_dumps_def)

lemma unpublished_finish: "outcome_ok r \<Longrightarrow> unpublished (Unwinding r) \<Longrightarrow> unpublished (fst (finish env r a))"
  by (cases r) (auto simp: finish_def exception_response_def outcome_ok_def split: py_exn.splits)

lemma unpublished_fall_back: "unpublished (fst (fall_back env d a))"
  by (cases rule: fall_back_cases [of env d a]) (auto simp: duplicate_response_def unpublished_json)

lemma handler_producer:
  "connected (a_producer (snd (handler_step mm cfg rq env ph a))) = connected (a_producer a) \<and>
   client_made (a_producer (snd (handler_step mm cfg rq env ph a))) = client_made (a_producer a)"
proof -
  have "connected p' = connected p \<and> client_made p' = client_made p"
    if "send_audit_event mm cfg reply v pl topic p = (r, p')" for reply v pl topic p r p'
    using send_audit_event_frame [of mm cfg reply v pl topic p] that by simp
  then show ?thesis
    by (cases ph) (auto simp: step_defs Let_def on_service split: step_splits)
qed

lemma future_unpublished:
  assumes "unpublished ph" "phase_ok ph" "connected (a_producer a)" "client_made (a_producer a)" "ev_send env = SendFuture"
  shows "unpublished (fst (handler_step mm cfg rq env ph a))"
proof (cases ph)
  case Arrive
  have "outcome_ok (saturated_response (or_one (Some (retry_hint l))) l)" for l
    using retry_hint_min [of l] or_one_min by (auto simp: saturated_response_def intro!: json_outcome)
  then have "unpublished (fst (finish env (saturated_response (or_one (Some (retry_hint l))) l) b))" for l b
    by (intro unpublished_finish) (simp_all add: saturated_response_def unpublished_json)
  then show ?thesis using Arrive
    by (cases "a_limiter a" rule: acquire_cases) (simp_all add: step_arrive_def)
next
  case (Publishing d)
  have "fst (send_audit_event mm cfg SendFuture v pl topic (a_producer a)) \<noteq> Inr bm" for v pl topic bm
    using send_audit_event_returns [of mm cfg SendFuture v pl topic "a_producer a" bm] assms(3,4)
    by (metis prod.collapse send_reply.distinct(5))
  then show ?thesis using Publishing assms(5)
    by (auto simp: step_publish_def on_service split: step_splits) (metis fst_conv)+
next
  case (Unwinding r)
  then show ?thesis using assms(1,2) by (simp add: step_unwind_def unpublished_finish)
qed (use assms unpublished_fall_back in \<open>auto simp: step_defs Let_def agency_response_def duplicate_response_def
  after_record_def unpublished_json split: step_splits\<close>)

text \<open>C36: aiokafka's send returns a future, which has no topic: with a connected producer and such an
  answer no request is ever answered 202.\<close>

theorem future_is_never_accepted:
  assumes "connected (a_producer a)" "client_made (a_producer a)" "ev_send env = SendFuture" "request_ok rq"
  shows "\<exists>resp a'. ingest mm cfg rq env a = (Finished resp, a') \<and> resp_status resp \<noteq> 202"
proof -
  let ?P = "\<lambda>ph a. unpublished ph \<and> phase_ok ph \<and> connected (a_producer a) \<and> client_made (a_producer a)"
  have "?P (fst (run_phases (handler_step mm cfg rq env) ingest_fuel (Arrive, a)))
    (snd (run_phases (handler_step mm cfg rq env) ingest_fuel (Arrive, a)))"
    by (rule handler.run_invariant [where P = ?P])
       (use assms future_unpublished handler_phase_ok handler_producer in auto)
  moreover obtain resp where "fst (ingest mm cfg rq env a) = Finished resp"
    using handler.run_finishes [of "(Arrive, a)" ingest_fuel mm cfg rq env] phase_rank_le [of Arrive]
    by (auto simp: ingest_def is_finished_iff)
  ultimately show ?thesis
    by (intro exI [of _ resp] exI [of _ "snd (ingest mm cfg rq env a)"]) (auto simp: ingest_def prod_eq_iff)
qed

theorem future_is_never_accepted_witness:
  "\<exists>resp a'. ingest None default_settings (example_request ''a'')
      ((example_env 0)\<lparr>ev_send := SendFuture\<rparr>) (example_app True) = (Finished resp, a') \<and> resp_status resp \<noteq> 202"
  by (rule future_is_never_accepted)
     (simp_all add: example_app_def app_startup_def new_app_def producer_start_def new_producer_def example_request_ok)

section \<open>What identifies a JSON body\<close>

text \<open>C32: a JSON body is identified by what it says, not by the order of its keys: two bodies with the
  same items are parsed to the same request, with the same content and so the same digest.\<close>

theorem key_order_is_irrelevant:
  assumes "distinct (map fst kvs)" "mset kvs = mset kvs'"
  shows "parse_json (Inr (PDict kvs)) = parse_json (Inr (PDict kvs'))"
proof -
  have d: "distinct (map fst kvs')"
    using assms by (metis mset_map mset_eq_imp_distinct_iff)
  have s: "set kvs = set kvs'" using assms(2) by (rule mset_eq_setD)
  have "map_of kvs k = map_of kvs' k" for k
    using assms(1) d s by (metis map_of_eqI set_map map_of_eq_Some_iff not_Some_eq)
  then have i: "item kvs k v = item kvs' k v" for k v by (simp add: item_def)
  have "serialisable (PDict kvs) = serialisable (PDict kvs')" using s by simp
  then have "json_dumps True (PDict kvs) = json_dumps True (PDict kvs')"
    using json_text_perm [OF assms] by (simp only: json_dumps_def)
  then have "json_content kvs = json_content kvs'" by (simp only: json_content_def i)
  then show ?thesis by (simp add: parse_json_def Let_def i split: sum.split)
qed

theorem key_order_is_irrelevant_witness:
  "parse_json (Inr (PDict [(''b'', PInt 1), (''a'', PNone)])) = parse_json (Inr (PDict [(''a'', PNone), (''b'', PInt 1)]))"
  by (rule key_order_is_irrelevant) simp_all

text \<open>Every JSON body that is malformed, or no object, is taken for the same document: two such
  requests, of any two clients, have the same key, so the second is answered as a duplicate of the
  first.\<close>

theorem malformed_bodies_are_one:
  assumes "sublist ''application/json'' (rq_content_type rq)" "\<forall>kvs. rq_json rq \<noteq> Inr (PDict kvs)"
  shows "parse_request rq = Inr (default_parsed\<lparr>p_content := utf8 ''{}''\<rparr>) \<and>
    request_key rq = Some (PStr (sha256_hex (utf8 ''{}'')))"
proof -
  have "parse_json (rq_json rq) = default_parsed\<lparr>p_content := utf8 ''{}''\<rparr>"
  proof (cases "rq_json rq")
    case (Inr v)
    then show ?thesis using assms(2) by (cases v) (simp_all add: parse_json_def braces_def)
  qed (simp add: parse_json_def braces_def)
  then show ?thesis
    using assms(1)
    by (simp add: parse_request_def request_key_def idemp_id_def py_or_def default_parsed_def)
qed

theorem malformed_bodies_are_one_witness:
  "request_key ((example_request ''a'')\<lparr>rq_json := Inl ValueError\<rparr>) =
   request_key ((example_request ''b'')\<lparr>rq_json := Inr (PList [])\<rparr>)"
  using malformed_bodies_are_one [of "(example_request ''a'')\<lparr>rq_json := Inl ValueError\<rparr>"]
    malformed_bodies_are_one [of "(example_request ''b'')\<lparr>rq_json := Inr (PList [])\<rparr>"]
  by (simp add: example_request_def)

end
