(* ===== verification/WorkerConfig.thy ===== *)
theory WorkerConfig imports PyVal begin

text \<open>
  The worker's settings (\<^verbatim>\<open>worker/src/config.py\<close>).  A name the API's settings have too carries
  the suffix \<^verbatim>\<open>_W\<close>.
\<close>

record worker_settings =
  SERVICE_NAME_W :: string
  WORKER_ID :: string
  KAFKA_TOPIC_INGEST_W :: string
  KAFKA_TOPIC_DLQ_W :: string
  KAFKA_CONSUMER_GROUP :: string
  KAFKA_MAX_POLL_RECORDS :: int
  WORKER_CONCURRENCY :: int
  PROCESSING_DELAY_SECONDS :: pyfloat
  PROCESSING_MAX_RETRIES :: int
  HEARTBEAT_INTERVAL_SECONDS :: pyfloat

definition default_worker_settings :: worker_settings where
  "default_worker_settings = \<lparr>
     SERVICE_NAME_W = ''aegis-processor-worker'',
     WORKER_ID = ''worker-01'',
     KAFKA_TOPIC_INGEST_W = ''audit-reports-ingest'',
     KAFKA_TOPIC_DLQ_W = ''audit-reports-dlq'',
     KAFKA_CONSUMER_GROUP = ''aegis-audit-processors'',
     KAFKA_MAX_POLL_RECORDS = 50,
     WORKER_CONCURRENCY = 8,
     PROCESSING_DELAY_SECONDS = Fl (5/100),
     PROCESSING_MAX_RETRIES = 3,
     HEARTBEAT_INTERVAL_SECONDS = Fl 5\<rparr>"

section \<open>Worker metrics\<close>

text \<open>The instruments of \<^verbatim>\<open>worker/src/metrics.py\<close>, as the log of the calls made on them.\<close>

datatype worker_metric =
    DocumentsProcessed string
  | DocumentsFailed string
  | ProcessingDuration string pyfloat
  | ProcessingRate string pyfloat
  | ActiveJobs string int
  | RetryTotal string
  | Heartbeat string pyfloat
  | ConsumerLag string string int

definition processed_total :: "string \<Rightarrow> worker_metric list \<Rightarrow> nat" where
  "processed_total w ms = length (filter (\<lambda>m. m = DocumentsProcessed w) ms)"

end
