(* ===== verification/WorkerRepository.thy ===== *)
theory WorkerRepository imports Database WorkerConfig begin

text \<open>
  \<^verbatim>\<open>worker/src/repository.py\<close>: the worker's operations on the database.  Values of the Kafka
  payload come in as JSON values and are checked where asyncpg encodes them.
\<close>

section \<open>Parameters\<close>

text \<open>An integer column of so many bits: asyncpg takes exactly an int in range.\<close>

definition pg_integer :: "nat \<Rightarrow> pyval \<Rightarrow> int option py_result" where
  "pg_integer bits v =
     (case v of
        PNone \<Rightarrow> Inr None
      | PInt i \<Rightarrow> (if - (2 ^ (bits - 1)) \<le> i \<and> i < 2 ^ (bits - 1) then Inr (Some i) else Inl ExternalError)
      | _ \<Rightarrow> Inl ExternalError)"

text \<open>\<^verbatim>\<open>uuid.UUID(v) if v else None\<close>\<close>

definition uuid_or_none :: "pyval \<Rightarrow> uuid option py_result" where
  "uuid_or_none v =
     (if truthy v
      then (case v of PStr s \<Rightarrow> py_bind (parse_uuid s) (\<lambda>u. Inr (Some u)) | _ \<Rightarrow> Inl AttributeError)
      else Inr None)"

section \<open>Documents\<close>

definition completed :: "string \<Rightarrow> database \<Rightarrow> bool py_result" where
  "completed job db =
     py_bind (parse_uuid job) (\<lambda>i. Inr (\<exists>r \<in> set (results db). result_document r = i))"

text \<open>\<^verbatim>\<open>INSERT INTO processing_events ... SELECT ... FROM documents d WHERE d.document_id=$1\<close>\<close>

definition document_event :: "uuid \<Rightarrow> (doc_row \<Rightarrow> event_row) \<Rightarrow> (database, unit) op" where
  "document_event i f db =
     (case find_document i db of None \<Rightarrow> (Inr (), db) | Some d \<Rightarrow> insert_event (f d) db)"

definition lifecycle_event ::
  "uuid \<Rightarrow> event_type \<Rightarrow> string \<Rightarrow> severity \<Rightarrow> string \<Rightarrow> int option \<Rightarrow> int option \<Rightarrow> doc_row \<Rightarrow> event_row" where
  "lifecycle_event fresh ty worker sev message part off d = \<lparr>
     event_id = fresh,
     event_document = Some (document_id d),
     event_agency = Some (doc_agency d),
     event_sequence = Some (sequence_number d),
     event_type = ty,
     event_worker = Some worker,
     event_partition = part, event_offset = off,
     event_severity = sev,
     event_message = message,
     event_metadata = PDict []\<rparr>"

definition mark_started_row :: "string \<Rightarrow> int option \<Rightarrow> int option \<Rightarrow> string \<Rightarrow> int \<Rightarrow> int \<Rightarrow> doc_row \<Rightarrow> doc_row" where
  "mark_started_row topic part off worker started now d = d\<lparr>
     doc_status := PROCESSING,
     kafka_topic := Some topic, kafka_partition := part, kafka_offset := off,
     doc_worker := Some worker,
     processing_started_at := Some started,
     updated_at := now\<rparr>"

definition mark_processing_started ::
  "string \<Rightarrow> string \<Rightarrow> pyval \<Rightarrow> pyval \<Rightarrow> pyval \<Rightarrow> int \<Rightarrow> int \<Rightarrow> uuid \<Rightarrow> (database, unit) op" where
  "mark_processing_started job worker topic part off started now fresh =
     transaction
       (op_bind (op_lift (parse_uuid job)) (\<lambda>i.
        op_bind (op_lift (pg_not_null (pg_text topic))) (\<lambda>t.
        op_bind (op_lift (pg_integer 32 part)) (\<lambda>p.
        op_bind (op_lift (pg_integer 64 off)) (\<lambda>f.
        op_bind (update_document i (mark_started_row t p f worker started now)) (\<lambda>_.
        document_event i (\<lambda>d.
          lifecycle_event fresh PROCESSING_STARTED worker INFO ''Worker started processing Kafka message''
            (kafka_partition d) (kafka_offset d) d)))))))"

record result_times =
  rt_started :: int
  rt_completed :: int
  rt_duration_ms :: int
  rt_now :: int

definition completed_row ::
  "string \<Rightarrow> int option \<Rightarrow> int option \<Rightarrow> string \<Rightarrow> result_times \<Rightarrow> doc_row \<Rightarrow> doc_row" where
  "completed_row topic part off worker t d = d\<lparr>
     doc_status := COMPLETED,
     kafka_topic := Some topic, kafka_partition := part, kafka_offset := off,
     doc_worker := Some worker,
     processing_started_at := Some (rt_started t),
     processing_completed_at := Some (rt_completed t),
     processing_duration_ms := Some (rt_duration_ms t),
     updated_at := rt_now t\<rparr>"

text \<open>The last insert has \<^verbatim>\<open>ON CONFLICT DO NOTHING\<close>.\<close>

definition ignore_conflict :: "(database, unit) op \<Rightarrow> (database, unit) op" where
  "ignore_conflict m db = (case m db of (Inl _, _) \<Rightarrow> (Inr (), db) | (Inr _, db') \<Rightarrow> (Inr (), db'))"

definition save_result ::
  "string \<Rightarrow> pyval \<Rightarrow> string \<Rightarrow> pyval \<Rightarrow> pyval \<Rightarrow> pyval \<Rightarrow> result_times \<Rightarrow> uuid \<times> uuid \<Rightarrow> (database, unit) op" where
  "save_result job result worker topic part off t fresh =
     transaction
       (op_bind (op_lift (parse_uuid job)) (\<lambda>i.
        op_bind (op_lift (pg_int4 (rt_duration_ms t))) (\<lambda>ms.
        op_bind (op_lift (json_dumps False result)) (\<lambda>_.
        op_bind (insert_result \<lparr>
            result_id = fst fresh,
            result_document = i,
            classification_status = ''COMPLETED'',
            result_started_at = rt_started t,
            result_completed_at = rt_completed t,
            result_duration_ms = ms,
            model_version = ''v1'',
            result_json = result\<rparr>) (\<lambda>_.
        op_bind (op_lift (pg_not_null (pg_text topic))) (\<lambda>tp.
        op_bind (op_lift (pg_integer 32 part)) (\<lambda>p.
        op_bind (op_lift (pg_integer 64 off)) (\<lambda>f.
        op_bind (update_document i (completed_row tp p f worker t)) (\<lambda>_.
        ignore_conflict (document_event i (\<lambda>d.
          lifecycle_event (snd fresh) PROCESSING_COMPLETED worker INFO ''Worker processed and completed Kafka message''
            (kafka_partition d) (kafka_offset d) d)))))))))))"

text \<open>\<^verbatim>\<open>record_retry\<close> is two statements outside a transaction: the update is kept where the
  event's insert fails.\<close>

definition retry_row :: "int \<Rightarrow> int \<Rightarrow> doc_row \<Rightarrow> doc_row" where
  "retry_row n now d = d\<lparr>doc_retry_count := n, doc_status := RETRYING, updated_at := now\<rparr>"

definition record_retry_update :: "string \<Rightarrow> int \<Rightarrow> int \<Rightarrow> (database, unit) op" where
  "record_retry_update job n now =
     op_bind (op_lift (parse_uuid job)) (\<lambda>i.
     op_bind (op_lift (pg_int4 n)) (\<lambda>k.
     update_document i (retry_row k now)))"

definition record_retry_event :: "string \<Rightarrow> string \<Rightarrow> pyval \<Rightarrow> pyval \<Rightarrow> uuid \<Rightarrow> (database, unit) op" where
  "record_retry_event job worker part off fresh =
     op_bind (op_lift (parse_uuid job)) (\<lambda>i.
     op_bind (op_lift (pg_integer 32 part)) (\<lambda>p.
     op_bind (op_lift (pg_integer 64 off)) (\<lambda>f.
     document_event i (lifecycle_event fresh EV_RETRYING worker WARNING
       ''Worker retry scheduled due to processing failure'' p f))))"

text \<open>The update of \<^verbatim>\<open>mark_failed\<close>.\<close>

definition failed_row :: "int \<Rightarrow> int \<Rightarrow> doc_row \<Rightarrow> doc_row" where
  "failed_row n now d = d\<lparr>
     doc_status := FAILED, doc_retry_count := n,
     error_code := Some ''WORKER_PROCESSING_FAILED'', updated_at := now\<rparr>"

definition record_failure :: "string \<Rightarrow> int \<Rightarrow> int \<Rightarrow> (database, unit) op" where
  "record_failure job n now =
     op_bind (op_lift (parse_uuid job)) (\<lambda>i.
     op_bind (op_lift (pg_int4 n)) (\<lambda>k.
     update_document i (failed_row k now)))"

section \<open>Events\<close>

record worker_event =
  we_type :: event_type
  we_worker :: string
  we_severity :: severity
  we_message :: string
  we_document :: pyval
  we_agency :: pyval
  we_sequence :: pyval
  we_partition :: pyval
  we_offset :: pyval
  we_metadata :: pyval

definition worker_append_event :: "worker_event \<Rightarrow> uuid \<Rightarrow> (database, unit) op" where
  "worker_append_event we fresh =
     op_bind (op_lift (uuid_or_none (we_document we))) (\<lambda>doc.
     op_bind (op_lift (json_dumps False (we_metadata we))) (\<lambda>_.
     op_bind (op_lift (pg_text (we_agency we))) (\<lambda>agency.
     op_bind (op_lift (pg_integer 64 (we_sequence we))) (\<lambda>sequence.
     op_bind (op_lift (pg_integer 32 (we_partition we))) (\<lambda>part.
     op_bind (op_lift (pg_integer 64 (we_offset we))) (\<lambda>off.
     op_bind (op_lift (pg_not_null (pg_text (PStr (we_message we))))) (\<lambda>message.
     insert_event \<lparr>
       event_id = fresh,
       event_document = doc,
       event_agency = agency,
       event_sequence = sequence,
       event_type = we_type we,
       event_worker = Some (we_worker we),
       event_partition = part,
       event_offset = off,
       event_severity = we_severity we,
       event_message = message,
       event_metadata = we_metadata we\<rparr>)))))))"

section \<open>Worker rows\<close>

record worker_report =
  wr_status :: string
  wr_state :: string
  wr_document :: pyval
  wr_cpu :: pyfloat
  wr_memory :: pyfloat
  wr_rate :: pyfloat
  wr_failed :: int
  wr_retries :: int

definition register_worker :: "string \<Rightarrow> string \<Rightarrow> int \<Rightarrow> worker_report \<Rightarrow> int \<Rightarrow> (database, unit) op" where
  "register_worker w host pid r now =
     op_bind (op_lift (uuid_or_none (wr_document r))) (\<lambda>doc.
     upsert_worker \<lparr>
       worker_id = w, hostname = host, process_id = pid,
       worker_status = wr_status r, current_state = wr_state r, current_document_id = doc,
       cpu_usage_pct = wr_cpu r, memory_usage_pct = wr_memory r, processing_rate = wr_rate r,
       failed_jobs = wr_failed r, retry_count = wr_retries r,
       last_heartbeat = now, registered_at = now\<rparr>)"

definition heartbeat_row :: "worker_report \<Rightarrow> uuid option \<Rightarrow> int \<Rightarrow> worker_row \<Rightarrow> worker_row" where
  "heartbeat_row r doc now v = v\<lparr>
     worker_status := wr_status r, current_state := wr_state r, current_document_id := doc,
     cpu_usage_pct := wr_cpu r, memory_usage_pct := wr_memory r, processing_rate := wr_rate r,
     failed_jobs := wr_failed r, retry_count := wr_retries r,
     last_heartbeat := now\<rparr>"

definition heartbeat_worker :: "string \<Rightarrow> worker_report \<Rightarrow> int \<Rightarrow> (database, unit) op" where
  "heartbeat_worker w r now =
     op_bind (op_lift (uuid_or_none (wr_document r))) (\<lambda>doc. update_worker w (heartbeat_row r doc now))"

section \<open>What they keep\<close>

lemma keeps_identity_rows [simp]:
  "keeps_identity (mark_started_row t p f w st now)" "keeps_identity (completed_row t p f w tm)"
  "keeps_identity (retry_row n now)" "keeps_identity (failed_row n now)"
  by (simp_all add: keeps_identity_def mark_started_row_def completed_row_def retry_row_def failed_row_def)

text \<open>
  The properties of databases every worker statement keeps: those that its kinds of row operations
  keep.  A client proves a property kept by a whole operation from these.  The statement that gives
  a document up is apart: there are properties that only it breaks.
\<close>

locale lifecycle_invariant =
  fixes P :: "database \<Rightarrow> bool"
  assumes keeps_started: "keeps P (update_document i (mark_started_row t p f w st now))"
    and keeps_completing: "transaction (op_bind (insert_result r) (\<lambda>_.
          update_document (result_document r) (completed_row t p f w tm))) db = (Inr v, db') \<Longrightarrow> P db \<Longrightarrow> P db'"
    and keeps_retrying: "keeps P (update_document i (retry_row n now))"
    and keeps_event: "keeps P (insert_event e)"
    and keeps_registration: "keeps P (upsert_worker wr)"
    and keeps_heartbeat: "keeps P (update_worker w (heartbeat_row rep doc now))"
begin

lemma keeps_document_event: "keeps P (document_event i f)"
  by (rule keepsI) (auto simp: document_event_def keepsD [OF keeps_event] split: option.split)

lemma keeps_ignore: "keeps P m \<Longrightarrow> keeps P (ignore_conflict m)"
  by (rule keepsI) (auto simp: ignore_conflict_def dest: keeps_run split: prod.split sum.split)

lemmas keeps_basic = keeps_started keeps_retrying keeps_event keeps_registration keeps_heartbeat
  keeps_document_event

lemma keeps_mark_processing_started: "keeps P (mark_processing_started job w t p f st now fresh)"
  unfolding mark_processing_started_def by (intro op_keeps keeps_basic)

lemma keeps_record_retry:
  "keeps P (record_retry_update job n now)" "keeps P (record_retry_event job w p f fresh)"
  unfolding record_retry_update_def record_retry_event_def by (intro op_keeps keeps_basic)+

lemma keeps_worker_append_event: "keeps P (worker_append_event we fresh)"
  unfolding worker_append_event_def by (intro op_keeps keeps_basic)

lemma keeps_workers: "keeps P (register_worker w host pid r now)" "keeps P (heartbeat_worker w r now)"
  unfolding register_worker_def heartbeat_worker_def by (intro op_keeps keeps_basic)+

lemma keeps_save_result: "keeps P (save_result job result w t p f tm fresh)"
proof (rule keepsI)
  fix db assume P: "P db"
  show "P (snd (save_result job result w t p f tm fresh db))"
  proof (cases "save_result job result w t p f tm fresh db")
    case (Pair r db')
    show ?thesis
    proof (cases r)
      case (Inl e)
      with Pair have "db' = db" unfolding save_result_def by (auto dest: transaction_Inl)
      then show ?thesis using P Pair by simp
    next
      case (Inr u)
      from Pair [unfolded Inr] obtain row tp pp ff db1 db2 where
        1: "insert_result row db = (Inr (), db1)" and
        2: "update_document (result_document row) (completed_row tp pp ff w tm) db1 = (Inr (), db2)" and
        3: "ignore_conflict (document_event (result_document row) (\<lambda>d.
              lifecycle_event (snd fresh) PROCESSING_COMPLETED w INFO ''Worker processed and completed Kafka message''
                (kafka_partition d) (kafka_offset d) d)) db2 = (Inr (), db')"
        unfolding save_result_def op_Inr by fastforce
      have "transaction (op_bind (insert_result row) (\<lambda>_.
          update_document (result_document row) (completed_row tp pp ff w tm))) db = (Inr (), db2)"
        using 1 2 by (simp add: op_Inr)
      from keeps_completing [OF this P] have "P db2" .
      then show ?thesis using keeps_run [OF keeps_ignore [OF keeps_document_event] _ 3] Pair by simp
    qed
  qed
qed

end

locale worker_invariant = lifecycle_invariant +
  assumes keeps_failing: "keeps P (update_document i (failed_row n now))"
begin

lemma keeps_record_failure: "keeps P (record_failure job n now)"
  unfolding record_failure_def by (intro op_keeps keeps_failing)

end

text \<open>The schema's constraints are one.\<close>

interpretation worker_constraints: worker_invariant db_inv
proof unfold_locales
  fix r t p f w tm db v db'
  assume "transaction (op_bind (insert_result r) (\<lambda>_.
      update_document (result_document r) (completed_row t p f w tm))) db = (Inr v, db')" "db_inv db"
  moreover have "keeps db_inv (transaction (op_bind (insert_result r) (\<lambda>_.
      update_document (result_document r) (completed_row t p f w tm))))"
    by (intro op_keeps) simp
  ultimately show "db_inv db'" by (metis keeps_run)
qed (auto intro!: op_keeps simp: heartbeat_row_def)

text \<open>A completed document has a result: the status and the result are written together.\<close>

definition has_result :: "uuid \<Rightarrow> database \<Rightarrow> bool" where
  "has_result i db \<longleftrightarrow> (\<exists>r \<in> set (results db). result_document r = i)"

definition completed_has_result :: "database \<Rightarrow> bool" where
  "completed_has_result db \<longleftrightarrow> (\<forall>d \<in> set (documents db). doc_status d = COMPLETED \<longrightarrow> has_result (document_id d) db)"

lemma completed_has_result_update:
  assumes "completed_has_result db" "\<And>d. document_id (f d) = document_id d"
    "\<And>d. doc_status (f d) = COMPLETED \<Longrightarrow> doc_status d = COMPLETED \<or> has_result i db"
  shows "completed_has_result (snd (update_document i f db))"
  using assms by (fastforce simp: completed_has_result_def update_document_def has_result_def)

lemma insert_result_has:
  assumes "insert_result r db = (Inr (), db')"
  shows "has_result (result_document r) db' \<and> documents db' = documents db \<and> (\<forall>i. has_result i db \<longrightarrow> has_result i db')"
  using assms by (auto simp: insert_result_def has_result_def split: if_splits)

interpretation completion: worker_invariant completed_has_result
proof unfold_locales
  fix r t p f w tm db v db'
  assume run: "transaction (op_bind (insert_result r) (\<lambda>_.
      update_document (result_document r) (completed_row t p f w tm))) db = (Inr v, db')"
    and inv: "completed_has_result db"
  then obtain db1 where 1: "insert_result r db = (Inr (), db1)"
    and 2: "update_document (result_document r) (completed_row t p f w tm) db1 = (Inr v, db')"
    unfolding op_Inr by auto
  have "completed_has_result db1" using insert_result_has [OF 1] inv by (simp add: completed_has_result_def)
  then have "completed_has_result (snd (update_document (result_document r) (completed_row t p f w tm) db1))"
    using insert_result_has [OF 1] by (intro completed_has_result_update) (auto simp: completed_row_def)
  then show "completed_has_result db'" using 2 by simp
next
  fix e show "keeps completed_has_result (insert_event e)"
    by (rule keepsI) (auto simp: insert_event_def completed_has_result_def has_result_def)
next
  fix wr show "keeps completed_has_result (upsert_worker wr)"
    by (rule keepsI) (auto simp: upsert_worker_def completed_has_result_def has_result_def)
next
  fix w rep doc now show "keeps completed_has_result (update_worker w (heartbeat_row rep doc now))"
    by (rule keepsI) (auto simp: update_worker_def completed_has_result_def has_result_def)
qed (auto intro!: keepsI completed_has_result_update simp: mark_started_row_def retry_row_def failed_row_def)

text \<open>That no document was given up is kept by every statement but the one that gives up.\<close>

definition none_failed :: "database \<Rightarrow> bool" where
  "none_failed db \<longleftrightarrow> (\<forall>d \<in> set (documents db). doc_status d \<noteq> FAILED)"

lemma none_failed_update:
  "(\<And>d. doc_status (f d) \<noteq> FAILED) \<Longrightarrow> none_failed db \<Longrightarrow> none_failed (snd (update_document i f db))"
  by (auto simp: none_failed_def update_document_def)

interpretation unfailed: lifecycle_invariant none_failed
proof unfold_locales
  fix r t p f w tm db v db'
  assume run: "transaction (op_bind (insert_result r) (\<lambda>_.
      update_document (result_document r) (completed_row t p f w tm))) db = (Inr v, db')"
    and inv: "none_failed db"
  then obtain db1 where 1: "insert_result r db = (Inr (), db1)"
    and 2: "update_document (result_document r) (completed_row t p f w tm) db1 = (Inr v, db')"
    unfolding op_Inr by auto
  have "none_failed db1" using insert_result_has [OF 1] inv by (simp add: none_failed_def)
  then have "none_failed (snd (update_document (result_document r) (completed_row t p f w tm) db1))"
    by (intro none_failed_update) (simp_all add: completed_row_def)
  then show "none_failed db'" using 2 by simp
qed (auto intro!: keepsI none_failed_update
  simp: mark_started_row_def retry_row_def none_failed_def insert_event_def upsert_worker_def update_worker_def update_document_def)

end
