(* ===== verification/Processor.thy ===== *)
theory Processor imports WorkerRepository begin

text \<open>
  \<^verbatim>\<open>worker/src/processor.py\<close>: the lifecycle of one document in a worker.  \<^verbatim>\<open>process_event\<close> is cut
  at its awaits; \<^verbatim>\<open>pphase\<close> is its program counter.  Its state is what a worker process shares
  between its tasks: whether it has a pool, the database, its metrics.
\<close>

section \<open>Text of a value\<close>

text \<open>\<^verbatim>\<open>repr\<close> of a string: double quotes where it holds a single quote and no double one.\<close>

definition quote_char :: "string \<Rightarrow> nat" where
  "quote_char s = (if char_of (39::nat) \<in> set s \<and> char_of (34::nat) \<notin> set s then 34 else 39)"

definition repr_char :: "nat \<Rightarrow> char \<Rightarrow> string" where
  "repr_char q c =
     (let n = code_point c; bs = char_of (92::nat)
      in if n = q \<or> n = 92 then [bs, c]
         else if n = 10 then [bs, CHR ''n''] else if n = 13 then [bs, CHR ''r''] else if n = 9 then [bs, CHR ''t'']
         else if n < 32 \<or> (127 \<le> n \<and> n \<le> 160) \<or> n = 173 then [bs, CHR ''x''] @ fixed_hex 2 n
         else [c])"

definition str_repr :: "string \<Rightarrow> string" where
  "str_repr s = (let q = quote_char s in [char_of q] @ concat (map (repr_char q) s) @ [char_of q])"

fun py_repr :: "pyval \<Rightarrow> string" where
  "py_repr PNone = ''None''"
| "py_repr (PBool b) = (if b then ''True'' else ''False'')"
| "py_repr (PInt i) = int_str i"
| "py_repr (PFloat x) = float_repr x"
| "py_repr (PStr s) = str_repr s"
| "py_repr (PList xs) = ''['' @ join '', '' (map py_repr xs) @ '']''"
| "py_repr (PDict kvs) = ''{'' @ join '', '' (map (\<lambda>kv. str_repr (fst kv) @ '': '' @ py_repr (snd kv)) kvs) @ ''}''"
| "py_repr (PUpload _ r _) = r"

definition py_str :: "pyval \<Rightarrow> string" where
  "py_str v = (case v of PStr s \<Rightarrow> s | _ \<Rightarrow> py_repr v)"

section \<open>State, jobs and phases\<close>

record lifecycle =
  lc_pool :: bool
  lc_db :: database
  lc_metrics :: "worker_metric list"

definition on_lc :: "(database, 'a) op \<Rightarrow> ('z lifecycle_scheme, 'a) op" where
  "on_lc m s = (case m (lc_db s) of (r, d) \<Rightarrow> (r, s\<lparr>lc_db := d\<rparr>))"

definition observe :: "worker_metric list \<Rightarrow> 'z lifecycle_scheme \<Rightarrow> 'z lifecycle_scheme" where
  "observe ms s = s\<lparr>lc_metrics := lc_metrics s @ ms\<rparr>"

text \<open>Clock readings are microseconds.\<close>

record process_env =
  pe_worker :: string
  pe_started_at :: int
  pe_completed_at :: int
  pe_observed_at :: int
  pe_now :: int
  pe_ids :: "uuid list"
  pe_check :: fault
  pe_start :: fault
  pe_announce :: fault
  pe_save :: fault
  pe_report :: fault
  pe_retry :: fault
  pe_retry_log :: fault
  pe_fail :: fault
  pe_fail_log :: fault
  pe_error :: string

definition fresh_id :: "process_env \<Rightarrow> nat \<Rightarrow> uuid" where
  "fresh_id env n = (if n < length (pe_ids env) then pe_ids env ! n else 0)"

record job =
  jb_document :: string
  jb_retries :: int
  jb_topic :: pyval
  jb_partition :: pyval
  jb_offset :: pyval
  jb_agency :: pyval
  jb_sequence :: pyval

datatype pphase =
    Entering "(string \<times> pyval) list"
  | Marking job
  | Announcing job
  | Working job
  | Reporting job int
  | Retrying job int py_exn
  | RetryLogging job int py_exn
  | Failing job int py_exn
  | FailLogging job int py_exn
  | Returned bool
  | Raised py_exn

text \<open>\<^verbatim>\<open>payload.get(k)\<close>\<close>

definition field :: "(string \<times> pyval) list \<Rightarrow> string \<Rightarrow> pyval" where
  "field kvs k = (case map_of kvs k of None \<Rightarrow> PNone | Some v \<Rightarrow> v)"

definition document_of :: "(string \<times> pyval) list \<Rightarrow> pyval" where
  "document_of kvs = py_or (field kvs ''document_id'') (field kvs ''job_id'')"

definition job_of :: "(string \<times> pyval) list \<Rightarrow> int \<Rightarrow> job" where
  "job_of kvs n = \<lparr>
     jb_document = py_str (py_or (document_of kvs) (PStr [])),
     jb_retries = n,
     jb_topic = field kvs ''kafka_topic'',
     jb_partition = field kvs ''kafka_partition'',
     jb_offset = field kvs ''kafka_offset'',
     jb_agency = field kvs ''agency_id'',
     jb_sequence = field kvs ''sequence_number''\<rparr>"

section \<open>The steps\<close>

definition has_completed :: "fault \<Rightarrow> string \<Rightarrow> 'z lifecycle_scheme \<Rightarrow> bool py_result" where
  "has_completed f document s =
     (if document = [] \<or> \<not> lc_pool s then Inr False
      else if f = NoFault then completed document (lc_db s) else Inl ExternalError)"

definition step_enter :: "process_env \<Rightarrow> (string \<times> pyval) list \<Rightarrow> 'z lifecycle_scheme \<Rightarrow> pphase \<times> 'z lifecycle_scheme" where
  "step_enter env kvs s =
     (let document = py_str (py_or (document_of kvs) (PStr []))
      in if document = [] then (Raised ValueError, s)
         else case has_completed (pe_check env) document s of
                Inl e \<Rightarrow> (Raised e, s)
              | Inr True \<Rightarrow> (Returned True, s)
              | Inr False \<Rightarrow>
                  (case py_int (py_or (field kvs ''retry_count'') (PInt 0)) of
                     Inl e \<Rightarrow> (Raised e, s)
                   | Inr n \<Rightarrow> (Marking (job_of kvs n), s)))"

text \<open>The handler of the \<^verbatim>\<open>try\<close> block: a retry while the budget lasts, else a failure.\<close>

definition on_exception :: "worker_settings \<Rightarrow> job \<Rightarrow> py_exn \<Rightarrow> pphase" where
  "on_exception cfg j e =
     (let n = jb_retries j + 1
      in if n < PROCESSING_MAX_RETRIES cfg then Retrying j n e else Failing j n e)"

definition or_topic :: "worker_settings \<Rightarrow> job \<Rightarrow> pyval" where
  "or_topic cfg j = py_or (jb_topic j) (PStr (KAFKA_TOPIC_INGEST_W cfg))"

definition or_zero :: "pyval \<Rightarrow> pyval" where
  "or_zero v = py_or v (PInt 0)"

definition step_mark :: "worker_settings \<Rightarrow> process_env \<Rightarrow> job \<Rightarrow> 'z lifecycle_scheme \<Rightarrow> pphase \<times> 'z lifecycle_scheme" where
  "step_mark cfg env j s =
     (if \<not> lc_pool s then (Working j, s)
      else case on_lc (with_fault (pe_start env)
                  (mark_processing_started (jb_document j) (pe_worker env) (or_topic cfg j)
                     (or_zero (jb_partition j)) (or_zero (jb_offset j)) (pe_started_at env) (pe_now env) (fresh_id env 0))) s of
             (Inl e, s') \<Rightarrow> (on_exception cfg j e, s')
           | (Inr _, s') \<Rightarrow> (Announcing j, s'))"

definition processing_event :: "process_env \<Rightarrow> job \<Rightarrow> worker_event" where
  "processing_event env j = \<lparr>
     we_type = EV_PROCESSING, we_worker = pe_worker env, we_severity = INFO,
     we_message = ''Document transitioned to PROCESSING.'',
     we_document = PStr (jb_document j), we_agency = jb_agency j, we_sequence = jb_sequence j,
     we_partition = jb_partition j, we_offset = jb_offset j,
     we_metadata = PDict [(''topic'', jb_topic j), (''partition'', jb_partition j), (''offset'', jb_offset j)]\<rparr>"

definition step_announce :: "worker_settings \<Rightarrow> process_env \<Rightarrow> job \<Rightarrow> 'z lifecycle_scheme \<Rightarrow> pphase \<times> 'z lifecycle_scheme" where
  "step_announce cfg env j s =
     (case on_lc (with_fault (pe_announce env) (worker_append_event (processing_event env j) (fresh_id env 1))) s of
        (Inl e, s') \<Rightarrow> (on_exception cfg j e, s')
      | (Inr _, s') \<Rightarrow> (Working j, s'))"

text \<open>The end of the \<^verbatim>\<open>try\<close> block.\<close>

definition succeed :: "process_env \<Rightarrow> 'z lifecycle_scheme \<Rightarrow> pphase \<times> 'z lifecycle_scheme" where
  "succeed env s =
     (Returned True,
      observe [DocumentsProcessed (pe_worker env),
               ProcessingDuration (pe_worker env)
                 (max 0 (int_truediv (pe_observed_at env - pe_started_at env) 1000000))] s)"

definition duration_ms :: "process_env \<Rightarrow> int" where
  "duration_ms env =
     max 0 (py_trunc (int_truediv (pe_completed_at env - pe_started_at env) 1000000 * Fl 1000))"

text \<open>After the sleep: \<^verbatim>\<open>mark_completed\<close>.\<close>

definition step_work :: "worker_settings \<Rightarrow> process_env \<Rightarrow> job \<Rightarrow> 'z lifecycle_scheme \<Rightarrow> pphase \<times> 'z lifecycle_scheme" where
  "step_work cfg env j s =
     (if \<not> lc_pool s then succeed env s
      else case on_lc (with_fault (pe_save env)
                  (save_result (jb_document j)
                     (PDict [(''status'', PStr ''COMPLETED''), (''worker_id'', PStr (pe_worker env)),
                             (''processing_mode'', PStr ''minimal'')])
                     (pe_worker env) (or_topic cfg j) (or_zero (jb_partition j)) (or_zero (jb_offset j))
                     \<lparr>rt_started = pe_started_at env, rt_completed = pe_completed_at env,
                      rt_duration_ms = duration_ms env, rt_now = pe_now env\<rparr>
                     (fresh_id env 2, fresh_id env 3))) s of
             (Inl e, s') \<Rightarrow> (on_exception cfg j e, s')
           | (Inr _, s') \<Rightarrow> (Reporting j (duration_ms env), s'))"

definition completed_event :: "process_env \<Rightarrow> job \<Rightarrow> int \<Rightarrow> worker_event" where
  "completed_event env j ms = \<lparr>
     we_type = EV_COMPLETED, we_worker = pe_worker env, we_severity = INFO,
     we_message = ''Document completed by minimal worker processing step.'',
     we_document = PStr (jb_document j), we_agency = PNone, we_sequence = PNone,
     we_partition = jb_partition j, we_offset = jb_offset j,
     we_metadata = PDict [(''processing_duration_ms'', PInt ms)]\<rparr>"

definition step_report :: "worker_settings \<Rightarrow> process_env \<Rightarrow> job \<Rightarrow> int \<Rightarrow> 'z lifecycle_scheme \<Rightarrow> pphase \<times> 'z lifecycle_scheme" where
  "step_report cfg env j ms s =
     (case on_lc (with_fault (pe_report env) (worker_append_event (completed_event env j ms) (fresh_id env 4))) s of
        (Inl e, s') \<Rightarrow> (on_exception cfg j e, s')
      | (Inr _, s') \<Rightarrow> succeed env s')"

text \<open>\<^verbatim>\<open>mark_retry\<close> and the re-raise\<close>

definition step_retry :: "process_env \<Rightarrow> job \<Rightarrow> int \<Rightarrow> py_exn \<Rightarrow> 'z lifecycle_scheme \<Rightarrow> pphase \<times> 'z lifecycle_scheme" where
  "step_retry env j n e s =
     (if \<not> lc_pool s then (Raised e, observe [RetryTotal (pe_worker env)] s)
      else case on_lc (with_fault (pe_retry env) (record_retry_update (jb_document j) n (pe_now env))) s of
             (Inl e', s') \<Rightarrow> (Raised e', s')
           | (Inr _, s') \<Rightarrow> (RetryLogging j n e, s'))"

definition step_retry_log :: "process_env \<Rightarrow> job \<Rightarrow> int \<Rightarrow> py_exn \<Rightarrow> 'z lifecycle_scheme \<Rightarrow> pphase \<times> 'z lifecycle_scheme" where
  "step_retry_log env j n e s =
     (case on_lc (with_fault (pe_retry_log env)
             (record_retry_event (jb_document j) (pe_worker env) (or_zero (jb_partition j)) (or_zero (jb_offset j)) (fresh_id env 5))) s of
        (Inl e', s') \<Rightarrow> (Raised e', s')
      | (Inr _, s') \<Rightarrow> (Raised e, observe [RetryTotal (pe_worker env)] s'))"

text \<open>\<^verbatim>\<open>mark_failed\<close> and the re-raise\<close>

definition step_fail :: "process_env \<Rightarrow> job \<Rightarrow> int \<Rightarrow> py_exn \<Rightarrow> 'z lifecycle_scheme \<Rightarrow> pphase \<times> 'z lifecycle_scheme" where
  "step_fail env j n e s =
     (if \<not> lc_pool s then (Raised e, observe [DocumentsFailed (pe_worker env)] s)
      else case on_lc (with_fault (pe_fail env) (record_failure (jb_document j) n (pe_now env))) s of
             (Inl e', s') \<Rightarrow> (Raised e', s')
           | (Inr _, s') \<Rightarrow> (FailLogging j n e, s'))"

definition failed_event :: "process_env \<Rightarrow> job \<Rightarrow> int \<Rightarrow> worker_event" where
  "failed_event env j n = \<lparr>
     we_type = EV_FAILED, we_worker = pe_worker env, we_severity = ERROR,
     we_message = pe_error env,
     we_document = PStr (jb_document j), we_agency = PNone, we_sequence = PNone,
     we_partition = jb_partition j, we_offset = jb_offset j,
     we_metadata = PDict [(''retry_count'', PInt n), (''topic'', jb_topic j)]\<rparr>"

definition step_fail_log :: "process_env \<Rightarrow> job \<Rightarrow> int \<Rightarrow> py_exn \<Rightarrow> 'z lifecycle_scheme \<Rightarrow> pphase \<times> 'z lifecycle_scheme" where
  "step_fail_log env j n e s =
     (case on_lc (with_fault (pe_fail_log env) (worker_append_event (failed_event env j n) (fresh_id env 6))) s of
        (Inl e', s') \<Rightarrow> (Raised e', s')
      | (Inr _, s') \<Rightarrow> (Raised e, observe [DocumentsFailed (pe_worker env)] s'))"

fun process_step :: "worker_settings \<Rightarrow> process_env \<Rightarrow> pphase \<Rightarrow> 'z lifecycle_scheme \<Rightarrow> pphase \<times> 'z lifecycle_scheme" where
  "process_step cfg env (Entering kvs) s = step_enter env kvs s"
| "process_step cfg env (Marking j) s = step_mark cfg env j s"
| "process_step cfg env (Announcing j) s = step_announce cfg env j s"
| "process_step cfg env (Working j) s = step_work cfg env j s"
| "process_step cfg env (Reporting j ms) s = step_report cfg env j ms s"
| "process_step cfg env (Retrying j n e) s = step_retry env j n e s"
| "process_step cfg env (RetryLogging j n e) s = step_retry_log env j n e s"
| "process_step cfg env (Failing j n e) s = step_fail env j n e s"
| "process_step cfg env (FailLogging j n e) s = step_fail_log env j n e s"
| "process_step cfg env (Returned b) s = (Returned b, s)"
| "process_step cfg env (Raised e) s = (Raised e, s)"

definition process_fuel :: nat where
  "process_fuel = 7"

definition process_event ::
  "worker_settings \<Rightarrow> process_env \<Rightarrow> (string \<times> pyval) list \<Rightarrow> 'z lifecycle_scheme \<Rightarrow> pphase \<times> 'z lifecycle_scheme" where
  "process_event cfg env kvs s = run_phases (process_step cfg env) process_fuel (Entering kvs, s)"

section \<open>It ends\<close>

fun pphase_rank :: "pphase \<Rightarrow> nat" where
  "pphase_rank (Entering _) = 7"
| "pphase_rank (Marking _) = 6"
| "pphase_rank (Announcing _) = 5"
| "pphase_rank (Working _) = 4"
| "pphase_rank (Reporting _ _) = 3"
| "pphase_rank (Retrying _ _ _) = 2"
| "pphase_rank (RetryLogging _ _ _) = 1"
| "pphase_rank (Failing _ _ _) = 2"
| "pphase_rank (FailLogging _ _ _) = 1"
| "pphase_rank (Returned _) = 0"
| "pphase_rank (Raised _) = 0"

fun is_ended :: "pphase \<Rightarrow> bool" where
  "is_ended (Returned _) = True"
| "is_ended (Raised _) = True"
| "is_ended _ = False"

lemmas process_splits = prod.split sum.split option.split bool.split if_splits

lemmas process_defs = step_enter_def step_mark_def step_announce_def step_work_def step_report_def
  step_retry_def step_retry_log_def step_fail_def step_fail_log_def succeed_def on_exception_def

lemma process_rank: "pphase_rank (fst (process_step cfg env ph s)) \<le> pphase_rank ph - 1"
  by (cases ph) (auto simp: process_defs Let_def split: process_splits)

interpretation process: coroutine "process_step cfg env" pphase_rank is_ended for cfg env
proof unfold_locales
  show "is_ended ph" if "pphase_rank ph = 0" for ph using that by (cases ph) auto
  show "pphase_rank (fst (process_step cfg env ph s)) \<le> pphase_rank ph - 1" for cfg env ph and s :: "'a lifecycle_scheme"
    by (rule process_rank)
  show "process_step cfg env ph s = (ph, s)" if "is_ended ph" for cfg env ph and s :: "'a lifecycle_scheme"
    using that by (cases ph) auto
qed

section \<open>What it keeps\<close>

lemma on_lc_Pair: "on_lc m s = (r, s') \<longleftrightarrow> (\<exists>d. m (lc_db s) = (r, d) \<and> s' = s\<lparr>lc_db := d\<rparr>)"
  by (auto simp: on_lc_def split: prod.splits)

lemma observe_frame [simp]:
  "lc_pool (observe ms s) = lc_pool s" "lc_db (observe ms s) = lc_db s"
  "lc_metrics (observe ms s) = lc_metrics s @ ms"
  by (simp_all add: observe_def)

lemma process_pool [simp]: "lc_pool (snd (process_step cfg env ph s)) = lc_pool s"
  by (cases ph) (auto simp: process_defs Let_def on_lc_Pair split: process_splits)

text \<open>The phases that give a document up.\<close>

fun gives_up :: "pphase \<Rightarrow> bool" where
  "gives_up (Failing _ _ _) = True"
| "gives_up (FailLogging _ _ _) = True"
| "gives_up _ = False"

context lifecycle_invariant
begin

lemma on_lc_keeps: "keeps P m \<Longrightarrow> on_lc (with_fault f m) s = (r, s') \<Longrightarrow> P (lc_db s) \<Longrightarrow> P (lc_db s')"
  using keepsD [OF keeps_with_fault, of P m "lc_db s" f] by (auto simp: on_lc_Pair)

lemma unfailing_step_keeps: "\<not> gives_up ph \<Longrightarrow> P (lc_db s) \<Longrightarrow> P (lc_db (snd (process_step cfg env ph s)))"
  by (cases ph)
     (auto simp: process_defs Let_def split: process_splits
       dest: on_lc_keeps [OF keeps_mark_processing_started] on_lc_keeps [OF keeps_record_retry(1)]
         on_lc_keeps [OF keeps_record_retry(2)] on_lc_keeps [OF keeps_worker_append_event] on_lc_keeps [OF keeps_save_result])

end

context worker_invariant
begin

lemma process_step_keeps: "P (lc_db s) \<Longrightarrow> P (lc_db (snd (process_step cfg env ph s)))"
proof (cases "gives_up ph")
  case True
  assume "P (lc_db s)"
  with True show ?thesis
    by (cases ph) (auto simp: process_defs Let_def split: process_splits
       dest: on_lc_keeps [OF keeps_record_failure] on_lc_keeps [OF keeps_worker_append_event])
qed (rule unfailing_step_keeps)

lemma process_event_keeps: "P (lc_db s) \<Longrightarrow> P (lc_db (snd (process_event cfg env kvs s)))"
  unfolding process_event_def
  by (rule process.run_invariant [where P = "\<lambda>ph s. P (lc_db s)", simplified]) (auto simp: process_step_keeps)

end

end
