(* ===== verification/Consumer.thy ===== *)
theory Consumer imports Processor begin

text \<open>
  \<^verbatim>\<open>worker/src/consumer.py\<close>: a worker process.  It registers, sends heartbeats, polls the broker
  for batches, handles the records of a batch under a semaphore, and commits.  \<^verbatim>\<open>handle_record\<close>
  is cut at its awaits (\<^verbatim>\<open>rphase\<close>); what decoding a record's value and \<^verbatim>\<open>json.loads\<close> gave is
  part of the message.
\<close>

section \<open>The worker process\<close>

record consumer = lifecycle +
  cn_worker :: string
  cn_running :: bool
  cn_state :: string
  cn_document :: pyval
  cn_rate :: pyfloat
  cn_failed :: int
  cn_retries :: int
  cn_processed :: int
  cn_active :: int

definition new_consumer :: "worker_settings \<Rightarrow> string option \<Rightarrow> database \<Rightarrow> consumer" where
  "new_consumer cfg env_id db = \<lparr>
     lc_pool = False, lc_db = db, lc_metrics = [],
     cn_worker = (case env_id of Some w \<Rightarrow> if w = [] then WORKER_ID cfg else w | None \<Rightarrow> WORKER_ID cfg),
     cn_running = False, cn_state = ''IDLE'', cn_document = PNone, cn_rate = 0,
     cn_failed = 0, cn_retries = 0, cn_processed = 0, cn_active = 0\<rparr>"

record host_env =
  he_host :: string
  he_pid :: int
  he_now :: int
  he_id :: uuid

definition host_metadata :: "host_env \<Rightarrow> pyval" where
  "host_metadata h = PDict [(''hostname'', PStr (he_host h)), (''process_id'', PInt (he_pid h))]"

definition worker_note :: "consumer \<Rightarrow> event_type \<Rightarrow> string \<Rightarrow> pyval \<Rightarrow> worker_event" where
  "worker_note c ty message metadata = \<lparr>
     we_type = ty, we_worker = cn_worker c, we_severity = INFO, we_message = message,
     we_document = PNone, we_agency = PNone, we_sequence = PNone, we_partition = PNone, we_offset = PNone,
     we_metadata = metadata\<rparr>"

text \<open>The registration part of \<^verbatim>\<open>start\<close>: its exceptions are caught.\<close>

definition idle_report :: "string \<Rightarrow> int \<Rightarrow> int \<Rightarrow> worker_report" where
  "idle_report status failed retries = \<lparr>
     wr_status = status, wr_state = ''IDLE'', wr_document = PNone, wr_cpu = 0, wr_memory = 0, wr_rate = 0,
     wr_failed = failed, wr_retries = retries\<rparr>"

definition worker_start :: "bool \<Rightarrow> fault \<Rightarrow> fault \<Rightarrow> host_env \<Rightarrow> consumer \<Rightarrow> consumer" where
  "worker_start db_ok f1 f2 h c =
     (let c1 = c\<lparr>cn_running := True, lc_pool := db_ok\<rparr>
      in if \<not> db_ok then c1
         else snd (op_bind
                (on_lc (with_fault f1 (register_worker (cn_worker c1) (he_host h) (he_pid h)
                   (idle_report ''ACTIVE'' 0 0) (he_now h))))
                (\<lambda>_. on_lc (with_fault f2 (worker_append_event
                   (worker_note c1 WORKER_REGISTERED ''Worker registered and ready for Kafka processing.'' (host_metadata h))
                   (he_id h)))) c1))"

text \<open>The delays between the attempts to reach the broker: 2 s, growing by half up to 10 s.\<close>

fun retry_delays :: "nat \<Rightarrow> pyfloat \<Rightarrow> pyfloat list" where
  "retry_delays 0 d = []"
| "retry_delays (Suc n) d = d # retry_delays n (min (Fl 10) (d * Fl (15/10)))"

definition broker_delays :: "nat \<Rightarrow> pyfloat list" where
  "broker_delays n = retry_delays n (Fl 2)"

definition heartbeat_report :: "consumer \<Rightarrow> worker_report" where
  "heartbeat_report c = \<lparr>
     wr_status = ''ACTIVE'', wr_state = cn_state c, wr_document = cn_document c,
     wr_cpu = 0, wr_memory = 0, wr_rate = cn_rate c, wr_failed = cn_failed c, wr_retries = cn_retries c\<rparr>"

text \<open>One round of the heartbeat loop: a failing query skips the metrics.\<close>

definition heartbeat :: "fault \<Rightarrow> pyfloat \<Rightarrow> int \<Rightarrow> consumer \<Rightarrow> consumer" where
  "heartbeat f wall now c =
     (let tell = (\<lambda>c. observe [Heartbeat (cn_worker c) wall, ProcessingRate (cn_worker c) (cn_rate c),
                               ActiveJobs (cn_worker c) (cn_active c)] c)
      in if \<not> lc_pool c then tell c
         else case on_lc (with_fault f (heartbeat_worker (cn_worker c) (heartbeat_report c) now)) c of
                (Inl _, c') \<Rightarrow> c'
              | (Inr _, c') \<Rightarrow> tell c')"

section \<open>Handling one record\<close>

record message =
  ms_topic :: string
  ms_partition :: int
  ms_offset :: int
  ms_value :: "pyval py_result"

record record_env =
  re_started :: pyfloat
  re_rated :: pyfloat
  re_ended :: pyfloat
  re_consumed :: fault
  re_consumed_id :: uuid
  re_failed :: fault
  re_failed_id :: uuid
  re_error :: string
  re_process :: process_env

datatype rphase =
    Waiting
  | Consuming "(string \<times> pyval) list"
  | Processing "(string \<times> pyval) list" pphase
  | Recovering "(string \<times> pyval) list"
  | Leaving "py_exn option"
  | Gone "py_exn option"

text \<open>\<^verbatim>\<open>payload.setdefault(k, v)\<close>\<close>

definition setdefault :: "string \<Rightarrow> pyval \<Rightarrow> (string \<times> pyval) list \<Rightarrow> (string \<times> pyval) list" where
  "setdefault k v kvs = (if map_of kvs k = None then kvs @ [(k, v)] else kvs)"

definition with_position :: "message \<Rightarrow> (string \<times> pyval) list \<Rightarrow> (string \<times> pyval) list" where
  "with_position m kvs =
     setdefault ''kafka_offset'' (PInt (ms_offset m))
       (setdefault ''kafka_partition'' (PInt (ms_partition m))
         (setdefault ''kafka_topic'' (PStr (ms_topic m)) kvs))"

text \<open>The handler of \<^verbatim>\<open>handle_record\<close>'s \<^verbatim>\<open>try\<close>, for the payload assigned so far.  A payload that
  is no dict has no \<^verbatim>\<open>get\<close>, so the handler raises itself.\<close>

definition on_record_error :: "pyval \<Rightarrow> consumer \<Rightarrow> rphase \<times> consumer" where
  "on_record_error payload c =
     (let c' = c\<lparr>cn_failed := cn_failed c + 1\<rparr>
      in if \<not> lc_pool c' \<or> \<not> truthy payload then (Leaving None, c')
         else case payload of
                PDict kvs \<Rightarrow> (if truthy (document_of kvs) then (Recovering kvs, c') else (Leaving None, c'))
              | _ \<Rightarrow> (Leaving (Some AttributeError), c'))"

definition step_begin :: "message \<Rightarrow> consumer \<Rightarrow> rphase \<times> consumer" where
  "step_begin m c =
     (let c1 = c\<lparr>cn_state := ''PROCESSING'', cn_active := cn_active c + 1\<rparr>
      in case ms_value m of
           Inl _ \<Rightarrow> on_record_error PNone c1
         | Inr (PDict kvs) \<Rightarrow>
             (let kvs' = with_position m kvs;
                  c2 = c1\<lparr>cn_document := document_of kvs'\<rparr>
              in if lc_pool c2 then (Consuming kvs', c2) else (Processing kvs' (Entering kvs'), c2))
         | Inr v \<Rightarrow> on_record_error v c1)"

definition record_event ::
  "consumer \<Rightarrow> message \<Rightarrow> (string \<times> pyval) list \<Rightarrow> event_type \<Rightarrow> severity \<Rightarrow> string \<Rightarrow> pyval \<Rightarrow> worker_event" where
  "record_event c m kvs ty sev msg metadata = \<lparr>
     we_type = ty, we_worker = cn_worker c, we_severity = sev, we_message = msg,
     we_document = document_of kvs, we_agency = field kvs ''agency_id'', we_sequence = field kvs ''sequence_number'',
     we_partition = PInt (ms_partition m), we_offset = PInt (ms_offset m),
     we_metadata = metadata\<rparr>"

definition consumed_event :: "consumer \<Rightarrow> message \<Rightarrow> (string \<times> pyval) list \<Rightarrow> worker_event" where
  "consumed_event c m kvs =
     record_event c m kvs KAFKA_CONSUMED INFO ''Kafka message consumed and queued for processing.''
       (PDict [(''topic'', PStr (ms_topic m)), (''partition'', PInt (ms_partition m)), (''offset'', PInt (ms_offset m))])"

definition step_consume :: "record_env \<Rightarrow> message \<Rightarrow> (string \<times> pyval) list \<Rightarrow> consumer \<Rightarrow> rphase \<times> consumer" where
  "step_consume env m kvs c =
     (case on_lc (with_fault (re_consumed env) (worker_append_event (consumed_event c m kvs) (re_consumed_id env))) c of
        (Inl _, c') \<Rightarrow> on_record_error (PDict kvs) c'
      | (Inr _, c') \<Rightarrow> (Processing kvs (Entering kvs), c'))"

definition step_process ::
  "worker_settings \<Rightarrow> record_env \<Rightarrow> (string \<times> pyval) list \<Rightarrow> pphase \<Rightarrow> consumer \<Rightarrow> rphase \<times> consumer" where
  "step_process cfg env kvs ph c =
     (case ph of
        Returned True \<Rightarrow>
          (let n = cn_processed c + 1
           in (Leaving None,
               c\<lparr>cn_processed := n,
                 cn_rate := max 0 (float_of_int n / max 1 (re_rated env - re_started env))\<rparr>))
      | Returned False \<Rightarrow> on_record_error (PDict kvs) c
      | Raised _ \<Rightarrow> on_record_error (PDict kvs) c
      | _ \<Rightarrow> (case process_step cfg (re_process env) ph c of (ph', c') \<Rightarrow> (Processing kvs ph', c')))"

definition step_recover :: "record_env \<Rightarrow> message \<Rightarrow> (string \<times> pyval) list \<Rightarrow> consumer \<Rightarrow> rphase \<times> consumer" where
  "step_recover env m kvs c =
     (case on_lc (with_fault (re_failed env) (worker_append_event
             (record_event c m kvs PROCESSING_FAILED ERROR (re_error env) (PDict [])) (re_failed_id env))) c of
        (Inl e, c') \<Rightarrow> (Leaving (Some e), c')
      | (Inr _, c') \<Rightarrow> (Leaving None, c'))"

definition step_leave :: "record_env \<Rightarrow> py_exn option \<Rightarrow> consumer \<Rightarrow> rphase \<times> consumer" where
  "step_leave env e c =
     (Gone e,
      observe [ProcessingDuration (cn_worker c) (re_ended env - re_started env)]
        (c\<lparr>cn_active := max 0 (cn_active c - 1), cn_state := ''IDLE'', cn_document := PNone\<rparr>))"

fun record_step :: "worker_settings \<Rightarrow> record_env \<Rightarrow> message \<Rightarrow> rphase \<Rightarrow> consumer \<Rightarrow> rphase \<times> consumer" where
  "record_step cfg env m Waiting c = step_begin m c"
| "record_step cfg env m (Consuming kvs) c = step_consume env m kvs c"
| "record_step cfg env m (Processing kvs ph) c = step_process cfg env kvs ph c"
| "record_step cfg env m (Recovering kvs) c = step_recover env m kvs c"
| "record_step cfg env m (Leaving e) c = step_leave env e c"
| "record_step cfg env m (Gone e) c = (Gone e, c)"

definition record_fuel :: nat where
  "record_fuel = 12"

definition handle_record :: "worker_settings \<Rightarrow> record_env \<Rightarrow> message \<Rightarrow> consumer \<Rightarrow> rphase \<times> consumer" where
  "handle_record cfg env m c = run_phases (record_step cfg env m) record_fuel (Waiting, c)"

section \<open>It ends\<close>

fun rphase_rank :: "rphase \<Rightarrow> nat" where
  "rphase_rank Waiting = 12"
| "rphase_rank (Consuming _) = 11"
| "rphase_rank (Processing _ ph) = 3 + pphase_rank ph"
| "rphase_rank (Recovering _) = 2"
| "rphase_rank (Leaving _) = 1"
| "rphase_rank (Gone _) = 0"

fun is_gone :: "rphase \<Rightarrow> bool" where
  "is_gone (Gone _) = True"
| "is_gone _ = False"

lemma on_record_error_rank: "rphase_rank (fst (on_record_error payload c)) \<le> 2"
  by (cases payload) (simp_all add: on_record_error_def Let_def)

lemma record_rank: "rphase_rank (fst (record_step cfg env m ph c)) \<le> rphase_rank ph - 1"
proof (cases ph)
  case Waiting
  then show ?thesis using on_record_error_rank
    by (auto simp: step_begin_def Let_def split: sum.split pyval.split intro: order_trans [of _ 2])
next
  case (Consuming kvs)
  then show ?thesis using on_record_error_rank
    by (auto simp: step_consume_def split: prod.split sum.split intro: order_trans [of _ 2])
next
  case (Processing kvs q)
  have "rphase_rank (fst (step_process cfg env kvs q c)) \<le> 2 + pphase_rank q"
  proof (cases "is_ended q")
    case True
    then show ?thesis using on_record_error_rank
      by (cases q) (auto simp: step_process_def Let_def split: bool.split)
  next
    case False
    then have "pphase_rank (fst (process_step cfg (re_process env) q c)) \<le> pphase_rank q - 1" "0 < pphase_rank q"
      using process_rank by (blast, cases q) auto
    then show ?thesis using False
      by (cases "process_step cfg (re_process env) q c"; cases q) (auto simp: step_process_def simp del: process_step.simps)
  qed
  then show ?thesis using Processing by simp
qed (auto simp: step_recover_def step_leave_def split: prod.split sum.split)

interpretation records: coroutine "record_step cfg env m" rphase_rank is_gone for cfg env m
proof unfold_locales
  show "is_gone ph" if "rphase_rank ph = 0" for ph using that by (cases ph) auto
  show "rphase_rank (fst (record_step cfg env m ph c)) \<le> rphase_rank ph - 1" for cfg env m ph c
    by (rule record_rank)
  show "record_step cfg env m ph c = (ph, c)" if "is_gone ph" for cfg env m ph c
    using that by (cases ph) auto
qed

end
