(* ===== verification/ConsumerLoop.thy ===== *)
theory ConsumerLoop imports Consumer begin

text \<open>
  The batch, the consume loop and the shutdown of \<^verbatim>\<open>worker/src/consumer.py\<close>, and the entry point
  \<^verbatim>\<open>worker/src/main.py\<close>.  \<^verbatim>\<open>batch_step\<close> interleaves the records of a batch under the semaphore;
  \<^verbatim>\<open>consume_once\<close> is one round of the loop, on the consumer's positions and committed offsets.
\<close>

section \<open>A batch under the semaphore\<close>

type_synonym task = "message \<times> record_env \<times> rphase"

record batch =
  bt_consumer :: consumer
  bt_permits :: int
  bt_tasks :: "task list"

definition new_batch :: "worker_settings \<Rightarrow> consumer \<Rightarrow> (message \<times> record_env) list \<Rightarrow> batch" where
  "new_batch cfg c ms = \<lparr>
     bt_consumer = c, bt_permits = WORKER_CONCURRENCY cfg,
     bt_tasks = map (\<lambda>(m, env). (m, env, Waiting)) ms\<rparr>"

text \<open>A task takes a permit with its first step and gives it back with its last.\<close>

inductive task_step :: "worker_settings \<Rightarrow> batch \<Rightarrow> batch \<Rightarrow> bool" for cfg where
  begins: "i < length (bt_tasks b) \<Longrightarrow> bt_tasks b ! i = (m, env, Waiting) \<Longrightarrow> 0 < bt_permits b \<Longrightarrow>
    record_step cfg env m Waiting (bt_consumer b) = (ph', c') \<Longrightarrow>
    task_step cfg b \<lparr>bt_consumer = c', bt_permits = bt_permits b - 1,
                    bt_tasks = (bt_tasks b)[i := (m, env, ph')]\<rparr>"
| works: "i < length (bt_tasks b) \<Longrightarrow> bt_tasks b ! i = (m, env, ph) \<Longrightarrow> ph \<noteq> Waiting \<Longrightarrow> \<not> is_gone ph \<Longrightarrow>
    record_step cfg env m ph (bt_consumer b) = (ph', c') \<Longrightarrow>
    task_step cfg b \<lparr>bt_consumer = c', bt_permits = bt_permits b + (if is_gone ph' then 1 else 0),
                    bt_tasks = (bt_tasks b)[i := (m, env, ph')]\<rparr>"

text \<open>Between two steps of the tasks other processes may change the database.\<close>

inductive batch_step :: "worker_settings \<Rightarrow> batch \<Rightarrow> batch \<Rightarrow> bool" for cfg where
  tasks: "task_step cfg b b' \<Longrightarrow> batch_step cfg b b'"
| others: "batch_step cfg b (b\<lparr>bt_consumer := (bt_consumer b)\<lparr>lc_db := db\<rparr>\<rparr>)"

inductive batch_reach :: "worker_settings \<Rightarrow> batch \<Rightarrow> batch \<Rightarrow> bool" for cfg b0 where
  start: "batch_reach cfg b0 b0"
| step: "batch_reach cfg b0 b \<Longrightarrow> batch_step cfg b b' \<Longrightarrow> batch_reach cfg b0 b'"

definition busy :: "rphase \<Rightarrow> int" where
  "busy ph = (if ph = Waiting \<or> is_gone ph then 0 else 1)"

definition busy_tasks :: "task list \<Rightarrow> int" where
  "busy_tasks ts = (\<Sum>t \<leftarrow> ts. busy (snd (snd t)))"

definition batch_inv :: "worker_settings \<Rightarrow> batch \<Rightarrow> bool" where
  "batch_inv cfg b \<longleftrightarrow>
     0 \<le> bt_permits b \<and>
     bt_permits b + busy_tasks (bt_tasks b) = WORKER_CONCURRENCY cfg \<and>
     cn_active (bt_consumer b) = busy_tasks (bt_tasks b)"

lemma busy_update:
  "i < length ts \<Longrightarrow> busy_tasks (ts[i := t]) = busy_tasks ts - busy (snd (snd (ts ! i))) + busy (snd (snd t))"
  unfolding busy_tasks_def by (induction ts arbitrary: i) (auto split: nat.split)

lemma busy_tasks_nonneg: "0 \<le> busy_tasks ts"
  by (induction ts) (auto simp: busy_tasks_def busy_def)

lemma busy_tasks_ge: "t \<in> set ts \<Longrightarrow> busy (snd (snd t)) \<le> busy_tasks ts"
proof (induction ts)
  case (Cons a ts)
  then show ?case using busy_tasks_nonneg [of ts] by (auto simp: busy_tasks_def busy_def)
qed simp

lemma busy_1: "busy ph = 1 \<Longrightarrow> ph \<noteq> Waiting \<and> \<not> is_gone ph"
  by (auto simp: busy_def split: if_splits)

lemma on_record_error_active:
  "cn_active (snd (on_record_error v c)) = cn_active c" "busy (fst (on_record_error v c)) = 1"
  by (cases v; simp add: on_record_error_def Let_def busy_def)+

lemma process_step_active: "cn_active (snd (process_step cfg env ph c)) = cn_active c"
  by (cases ph) (auto simp: process_defs Let_def on_lc_Pair observe_def split: process_splits)

lemma record_step_begin:
  "cn_active (snd (record_step cfg env m Waiting c)) = cn_active c + 1"
  "busy (fst (record_step cfg env m Waiting c)) = 1"
proof -
  have [simp]: "busy (Consuming kvs) = 1" "busy (Processing kvs q) = 1" for kvs q by (simp_all add: busy_def)
  show "cn_active (snd (record_step cfg env m Waiting c)) = cn_active c + 1"
    "busy (fst (record_step cfg env m Waiting c)) = 1"
    by (auto simp: step_begin_def Let_def on_record_error_active split: sum.split pyval.split)
qed

lemma record_step_active:
  assumes "ph \<noteq> Waiting" "\<not> is_gone ph" "0 < cn_active c"
  shows "cn_active (snd (record_step cfg env m ph c)) = cn_active c - 1 + busy (fst (record_step cfg env m ph c))"
    "is_gone (fst (record_step cfg env m ph c)) \<longleftrightarrow> busy (fst (record_step cfg env m ph c)) = 0"
proof -
  have [simp]: "busy (Leaving e) = 1" "busy (Processing kvs q) = 1" "busy (Gone e) = 0" for e kvs q
    by (simp_all add: busy_def)
  note err = on_record_error_active
  have proc: "cn_active (snd (step_process cfg env kvs q c)) = cn_active c \<and> busy (fst (step_process cfg env kvs q c)) = 1" for kvs q
    using process_step_active [of cfg "re_process env" q c] err
    by (cases q) (auto simp: step_process_def Let_def split: bool.split prod.split simp del: process_step.simps)
  show "cn_active (snd (record_step cfg env m ph c)) = cn_active c - 1 + busy (fst (record_step cfg env m ph c))"
    using assms proc err
    by (cases ph) (auto simp: step_consume_def step_recover_def step_leave_def observe_def on_lc_Pair split: prod.split sum.split)
  have "fst (step_process cfg env kvs q c) \<noteq> Waiting" "fst (on_record_error v d) \<noteq> Waiting" for kvs q v d
    using proc busy_1 err(2) by blast+
  then have "fst (record_step cfg env m ph c) \<noteq> Waiting"
    using assms(1,2)
    by (cases ph) (auto simp: step_consume_def step_recover_def step_leave_def split: prod.split sum.split)
  then show "is_gone (fst (record_step cfg env m ph c)) \<longleftrightarrow> busy (fst (record_step cfg env m ph c)) = 0"
    by (simp add: busy_def)
qed

lemma task_step_inv:
  assumes "task_step cfg b b'" and inv: "batch_inv cfg b" shows "batch_inv cfg b'"
  using assms(1)
proof cases
  case (begins i m env ph' c')
  have "busy ph' = 1" "cn_active c' = cn_active (bt_consumer b) + 1"
    using record_step_begin [of cfg env m "bt_consumer b"] unfolding begins(5) by simp_all
  then show ?thesis using inv begins by (simp add: batch_inv_def busy_update busy_def [of Waiting])
next
  case (works i m env ph ph' c')
  have one: "busy ph = 1" using works by (simp add: busy_def)
  have "(m, env, ph) \<in> set (bt_tasks b)" using works(2,3) by (metis nth_mem)
  from busy_tasks_ge [OF this] have "0 < cn_active (bt_consumer b)" using inv one by (simp add: batch_inv_def)
  note a = record_step_active [OF works(4,5) this, of cfg env m, unfolded works(6)]
  have "busy ph' = (if is_gone ph' then 0 else 1)" using a(2) by (auto simp: busy_def split: if_splits)
  then show ?thesis using inv works one a(1) by (simp add: batch_inv_def busy_update)
qed

lemma batch_step_inv: "batch_step cfg b b' \<Longrightarrow> batch_inv cfg b \<Longrightarrow> batch_inv cfg b'"
proof (induction rule: batch_step.induct)
  case (others b db)
  then show ?case by (simp add: batch_inv_def)
qed (rule task_step_inv)

lemma batch_reach_inv: "batch_reach cfg b0 b \<Longrightarrow> batch_inv cfg b0 \<Longrightarrow> batch_inv cfg b"
  by (induction rule: batch_reach.induct) (auto intro: batch_step_inv)

lemma new_batch_inv: "cn_active c = 0 \<Longrightarrow> 0 \<le> WORKER_CONCURRENCY cfg \<Longrightarrow> batch_inv cfg (new_batch cfg c ms)"
  by (induction ms) (auto simp: batch_inv_def new_batch_def busy_tasks_def busy_def)

section \<open>One round of the loop\<close>

type_synonym topic_partition = "string \<times> int"

record kafka_client =
  kc_position :: "topic_partition \<Rightarrow> int"
  kc_committed :: "topic_partition \<Rightarrow> int"

record poll_env =
  po_batch :: "(topic_partition \<times> (message \<times> record_env) list) list py_result"
  po_assigned :: "topic_partition list"
  po_ends :: "(topic_partition \<rightharpoonup> int) py_result"
  po_commit :: fault

datatype round = Idle | LoopError py_exn | Committed

text \<open>\<^verbatim>\<open>getmany\<close> moves the position behind the last record it hands out.\<close>

definition fetched :: "(topic_partition \<times> (message \<times> record_env) list) list \<Rightarrow> kafka_client \<Rightarrow> kafka_client" where
  "fetched batch k = k\<lparr>kc_position := (\<lambda>tp.
     case map_of batch tp of
       Some ms \<Rightarrow> (if ms = [] then kc_position k tp else ms_offset (fst (last ms)) + 1)
     | None \<Rightarrow> kc_position k tp)\<rparr>"

text \<open>The records run one after the other here; \<^verbatim>\<open>batch_step\<close> has the other orders.  The result is
  the exceptions that left \<^verbatim>\<open>handle_record\<close>.\<close>

fun run_records :: "worker_settings \<Rightarrow> (message \<times> record_env) list \<Rightarrow> consumer \<Rightarrow> py_exn list \<times> consumer" where
  "run_records cfg [] c = ([], c)"
| "run_records cfg ((m, env) # ms) c =
     (case handle_record cfg env m c of
        (ph, c1) \<Rightarrow>
          (case run_records cfg ms c1 of
             (es, c2) \<Rightarrow> ((case ph of Gone (Some e) \<Rightarrow> e # es | _ \<Rightarrow> es), c2)))"

definition lag_metrics :: "poll_env \<Rightarrow> kafka_client \<Rightarrow> worker_metric list" where
  "lag_metrics env k =
     (case po_ends env of
        Inl _ \<Rightarrow> []
      | Inr ends \<Rightarrow>
          map (\<lambda>tp. ConsumerLag (fst tp) (int_str (snd tp))
                (max 0 ((case ends tp of None \<Rightarrow> 0 | Some n \<Rightarrow> n) - kc_position k tp)))
            (po_assigned env))"

definition commit :: "fault \<Rightarrow> (kafka_client, unit) op" where
  "commit f = with_fault f (\<lambda>k. (Inr (), k\<lparr>kc_committed := kc_position k\<rparr>))"

definition consume_once ::
  "worker_settings \<Rightarrow> poll_env \<Rightarrow> consumer \<times> kafka_client \<Rightarrow> round \<times> consumer \<times> kafka_client" where
  "consume_once cfg env s =
     (case po_batch env of
        Inl e \<Rightarrow> (LoopError e, s)
      | Inr batch \<Rightarrow>
          (if batch = [] then (Idle, s)
           else case run_records cfg (concat (map snd batch)) (fst s) of
                  (e # _, c) \<Rightarrow> (LoopError e, c, fetched batch (snd s))
                | ([], c) \<Rightarrow>
                    (let k = fetched batch (snd s);
                         c' = observe (lag_metrics env k) c
                     in case commit (po_commit env) k of
                          (Inl e, k') \<Rightarrow> (LoopError e, c', k')
                        | (Inr _, k') \<Rightarrow> (Committed, c', k'))))"

text \<open>The loop, for the rounds a run of it sees; a restarted consumer resumes at the committed
  offsets.\<close>

fun consume_rounds :: "worker_settings \<Rightarrow> poll_env list \<Rightarrow> consumer \<times> kafka_client \<Rightarrow> consumer \<times> kafka_client" where
  "consume_rounds cfg [] s = s"
| "consume_rounds cfg (env # envs) s =
     (if cn_running (fst s) then consume_rounds cfg envs (snd (consume_once cfg env s)) else s)"

definition restart_client :: "kafka_client \<Rightarrow> kafka_client" where
  "restart_client k = k\<lparr>kc_position := kc_committed k\<rparr>"

section \<open>Shutdown and entry point\<close>

text \<open>\<^verbatim>\<open>stop\<close>: the consumer's own stop and the two statements can raise; a pool is closed last.\<close>

definition worker_stop :: "bool py_result \<Rightarrow> fault \<Rightarrow> fault \<Rightarrow> host_env \<Rightarrow> (consumer, unit) op" where
  "worker_stop client f1 f2 h =
     op_bind (\<lambda>c. (Inr (), c\<lparr>cn_running := False\<rparr>)) (\<lambda>_.
     op_bind (op_lift client) (\<lambda>_.
     op_bind (\<lambda>c. if lc_pool c
        then op_bind
          (on_lc (with_fault f1 (heartbeat_worker (cn_worker c)
             (idle_report ''DRAINING'' (cn_failed c) (cn_retries c)) (he_now h))))
          (\<lambda>_. on_lc (with_fault f2 (worker_append_event
             (worker_note c WORKER_STOPPED ''Worker shutdown initiated.'' (host_metadata h)) (he_id h)))) c
        else (Inr (), c)) (\<lambda>_.
     (\<lambda>c. (Inr (), c\<lparr>lc_pool := False\<rparr>)))))"

record main_env =
  me_db_ok :: bool
  me_host :: host_env
  me_register :: fault
  me_registered :: fault
  me_polls :: "poll_env list"
  me_client_stop :: "bool py_result"
  me_drain :: fault
  me_stopped :: fault

definition worker_main :: "worker_settings \<Rightarrow> main_env \<Rightarrow> consumer \<times> kafka_client \<Rightarrow> unit py_result \<times> consumer \<times> kafka_client" where
  "worker_main cfg env s =
     (let c = worker_start (me_db_ok env) (me_register env) (me_registered env) (me_host env) (fst s)
      in case consume_rounds cfg (me_polls env) (c, snd s) of
           (c1, k) \<Rightarrow>
             (case worker_stop (me_client_stop env) (me_drain env) (me_stopped env) (me_host env) c1 of
                (r, c2) \<Rightarrow> (r, c2, k)))"

section \<open>What a worker keeps\<close>

context worker_invariant
begin

lemma on_record_error_keeps: "P (lc_db c) \<Longrightarrow> P (lc_db (snd (on_record_error v c)))"
  by (cases v) (simp_all add: on_record_error_def Let_def)

lemma record_step_keeps: "P (lc_db c) \<Longrightarrow> P (lc_db (snd (record_step cfg env m ph c)))"
proof (cases ph)
  case (Processing kvs q)
  assume "P (lc_db c)"
  then show ?thesis using Processing process_step_keeps [of c cfg "re_process env" q] on_record_error_keeps
    by (cases q) (auto simp: step_process_def Let_def split: bool.split prod.splits simp del: process_step.simps)
qed (auto simp: step_begin_def step_consume_def step_recover_def step_leave_def Let_def on_record_error_keeps
  split: prod.split sum.split pyval.split dest: on_lc_keeps [OF keeps_worker_append_event])

lemma handle_record_keeps: "P (lc_db c) \<Longrightarrow> P (lc_db (snd (handle_record cfg env m c)))"
  unfolding handle_record_def
  by (rule records.run_invariant [where P = "\<lambda>ph c. P (lc_db c)", simplified]) (auto simp: record_step_keeps)

lemma task_step_keeps: "task_step cfg b b' \<Longrightarrow> P (lc_db (bt_consumer b)) \<Longrightarrow> P (lc_db (bt_consumer b'))"
  by (induction rule: task_step.induct) (metis record_step_keeps batch.select_convs(1) snd_conv)+

lemma run_records_keeps: "P (lc_db c) \<Longrightarrow> P (lc_db (snd (run_records cfg ms c)))"
proof (induction cfg ms c rule: run_records.induct)
  case (2 cfg m env ms c)
  then show ?case using handle_record_keeps [of c cfg env m]
    by (cases "handle_record cfg env m c") (auto split: prod.split)
qed simp

lemma run_records_keeps_run: "run_records cfg ms c = (es, c') \<Longrightarrow> P (lc_db c) \<Longrightarrow> P (lc_db c')"
  by (metis run_records_keeps snd_conv)

lemma consume_once_keeps: "P (lc_db (fst s)) \<Longrightarrow> P (lc_db (fst (snd (consume_once cfg env s))))"
  by (auto simp: consume_once_def Let_def split: prod.split sum.split list.split dest: run_records_keeps_run)

lemma consume_rounds_keeps: "P (lc_db (fst s)) \<Longrightarrow> P (lc_db (fst (consume_rounds cfg envs s)))"
  by (induction envs arbitrary: s) (auto simp: consume_once_keeps)

end

end
