(* ===== verification/WorkerRuns.thy ===== *)
theory WorkerRuns imports ConsumerLoop begin

text \<open>
  Whole runs of a worker: the statements of the lifecycle where nothing fails, the run of
  \<^verbatim>\<open>process_event\<close> to completion, and what an exception in it leads to.
\<close>

section \<open>Statements that succeed\<close>

lemma insert_event_ok:
  assumes "event_document e = None \<or> (\<exists>u. event_document e = Some u \<and> document_exists u db)"
    "event_id e \<notin> event_id ` set (events db)"
  shows "insert_event e db = (Inr (), db\<lparr>events := events db @ [e]\<rparr>)"
  using assms by (auto simp: insert_event_def image_iff)

lemma document_event_ok:
  assumes "find_document u db = Some d" "event_document (f d) = Some u" "event_id (f d) \<notin> event_id ` set (events db)"
  shows "document_event u f db = (Inr (), db\<lparr>events := events db @ [f d]\<rparr>)"
proof -
  have "document_exists u db" using find_document_Some [OF assms(1)] by (auto simp: document_exists_def)
  then show ?thesis using assms by (simp add: document_event_def insert_event_ok)
qed

lemma find_update_document:
  assumes "find_document u db = Some d" "\<And>d. document_id (f d) = document_id d"
  shows "find_document u (snd (update_document u f db)) = Some (f d)"
proof -
  have "find (\<lambda>d. document_id d = u) (map (\<lambda>d. if document_id d = u then f d else d) ds) =
      map_option f (find (\<lambda>d. document_id d = u) ds)" for ds
    using assms(2) by (induction ds) auto
  then show ?thesis using assms(1) by (simp add: find_document_def update_document_def)
qed

lemma find_document_events [simp]: "find_document u (db\<lparr>events := es\<rparr>) = find_document u db"
  by (simp add: find_document_def)

lemma find_document_results [simp]: "find_document u (db\<lparr>results := rs\<rparr>) = find_document u db"
  by (simp add: find_document_def)

text \<open>Values a well-formed payload carries in an optional column.\<close>

definition int_field :: "nat \<Rightarrow> pyval \<Rightarrow> bool" where
  "int_field bits v \<longleftrightarrow> v = PNone \<or> (\<exists>i. v = PInt i \<and> - (2 ^ (bits - 1)) \<le> i \<and> i < 2 ^ (bits - 1))"

definition text_field :: "pyval \<Rightarrow> bool" where
  "text_field v \<longleftrightarrow> v = PNone \<or> (\<exists>t. v = PStr t \<and> CHR 0x00 \<notin> set t)"

lemma int_field_ok: "int_field bits v \<Longrightarrow> \<exists>i. pg_integer bits v = Inr i"
  by (auto simp: int_field_def pg_integer_def)

lemma text_field_ok: "text_field v \<Longrightarrow> \<exists>t. pg_text v = Inr t"
  by (auto simp: text_field_def pg_text_def)

lemma int_field_or_zero: "int_field bits v \<Longrightarrow> int_field bits (or_zero v)"
  by (auto simp: int_field_def or_zero_def py_or_def)

lemma text_field_serialisable: "text_field v \<Longrightarrow> serialisable v" "int_field b v \<Longrightarrow> serialisable v"
  by (auto simp: text_field_def int_field_def)

lemma uuid_str_nonempty [simp]: "uuid_str u \<noteq> []"
  using parse_uuid_str [of u] by (auto simp: parse_uuid_def strip_with_def)

definition job_ok :: "worker_settings \<Rightarrow> uuid \<Rightarrow> job \<Rightarrow> bool" where
  "job_ok cfg u j \<longleftrightarrow>
     jb_document j = uuid_str u \<and> text_field (jb_topic j) \<and> int_field 32 (jb_partition j) \<and>
     int_field 64 (jb_offset j) \<and> text_field (jb_agency j) \<and> int_field 64 (jb_sequence j) \<and>
     KAFKA_TOPIC_INGEST_W cfg \<noteq> [] \<and> CHR 0x00 \<notin> set (KAFKA_TOPIC_INGEST_W cfg)"

lemma or_topic_ok: "job_ok cfg u j \<Longrightarrow> \<exists>t. pg_not_null (pg_text (or_topic cfg j)) = Inr t"
  by (auto simp: job_ok_def or_topic_def text_field_def py_or_def pg_text_def pg_not_null_def)

text \<open>\<^verbatim>\<open>mark_processing_started\<close> on a stored document.\<close>

lemma mark_started_ok:
  assumes "job_ok cfg u j" "find_document u db = Some d" "i \<notin> event_id ` set (events db)"
  obtains d' db' where
    "mark_processing_started (jb_document j) w (or_topic cfg j) (or_zero (jb_partition j)) (or_zero (jb_offset j)) st now i db = (Inr (), db')"
    "find_document u db' = Some d'" "doc_status d' = PROCESSING" "results db' = results db"
    "event_id ` set (events db') = insert i (event_id ` set (events db))"
proof -
  obtain t p f where v: "pg_not_null (pg_text (or_topic cfg j)) = Inr t" "pg_integer 32 (or_zero (jb_partition j)) = Inr p"
    "pg_integer 64 (or_zero (jb_offset j)) = Inr f"
    using assms(1) or_topic_ok [OF assms(1)] int_field_ok [OF int_field_or_zero] unfolding job_ok_def by metis
  let ?row = "mark_started_row t p f w st now"
  have idem: "document_id (?row x) = document_id x" for x by (simp add: mark_started_row_def)
  define db1 where "db1 = snd (update_document u ?row db)"
  have up: "update_document u ?row db = (Inr (), db1)" by (simp add: db1_def update_document_def)
  have fd: "find_document u db1 = Some (?row d)"
    unfolding db1_def using find_update_document [OF assms(2), of ?row] idem by simp
  have same: "results db1 = results db" "events db1 = events db" by (simp_all add: db1_def update_document_def)
  let ?e = "\<lambda>d. lifecycle_event i PROCESSING_STARTED w INFO ''Worker started processing Kafka message''
      (kafka_partition d) (kafka_offset d) d"
  have id: "document_id (?row d) = u" using find_document_Some [OF fd] by simp
  have ev: "document_event u ?e db1 = (Inr (), db1\<lparr>events := events db1 @ [?e (?row d)]\<rparr>)"
    using assms(3) id same by (intro document_event_ok [OF fd]) (simp_all add: lifecycle_event_def)
  show ?thesis
  proof (rule that)
    show "mark_processing_started (jb_document j) w (or_topic cfg j) (or_zero (jb_partition j)) (or_zero (jb_offset j)) st now i db =
        (Inr (), db1\<lparr>events := events db1 @ [?e (?row d)]\<rparr>)"
      using assms(1) v up ev
      by (simp add: mark_processing_started_def transaction_def op_bind_def op_lift_def job_ok_def parse_uuid_str)
    show "find_document u (db1\<lparr>events := events db1 @ [?e (?row d)]\<rparr>) = Some (?row d)" using fd by simp
  qed (use same in \<open>simp_all add: mark_started_row_def lifecycle_event_def\<close>)
qed

text \<open>A worker's event about a stored document.\<close>

definition event_fields_ok :: "worker_event \<Rightarrow> bool" where
  "event_fields_ok we \<longleftrightarrow>
     text_field (we_agency we) \<and> int_field 64 (we_sequence we) \<and> int_field 32 (we_partition we) \<and>
     int_field 64 (we_offset we) \<and> CHR 0x00 \<notin> set (we_message we) \<and> serialisable (we_metadata we)"

lemma worker_event_ok:
  assumes "event_fields_ok we" "we_document we = PStr (uuid_str u)" "find_document u db = Some d"
    "i \<notin> event_id ` set (events db)"
  obtains db' where "worker_append_event we i db = (Inr (), db')" "find_document u db' = Some d" "results db' = results db"
    "event_id ` set (events db') = insert i (event_id ` set (events db))"
proof -
  obtain ag sq p f where v: "pg_text (we_agency we) = Inr ag" "pg_integer 64 (we_sequence we) = Inr sq"
    "pg_integer 32 (we_partition we) = Inr p" "pg_integer 64 (we_offset we) = Inr f"
    using assms(1) text_field_ok int_field_ok unfolding event_fields_ok_def by metis
  have doc: "uuid_or_none (we_document we) = Inr (Some u)"
    by (simp add: assms(2) uuid_or_none_def parse_uuid_str)
  have msg: "pg_not_null (pg_text (PStr (we_message we))) = Inr (we_message we)"
    using assms(1) by (simp add: event_fields_ok_def pg_text_def pg_not_null_def)
  let ?e = "\<lparr>event_id = i, event_document = Some u, event_agency = ag, event_sequence = sq, event_type = we_type we,
    event_worker = Some (we_worker we), event_partition = p, event_offset = f, event_severity = we_severity we,
    event_message = we_message we, event_metadata = we_metadata we\<rparr>"
  have ex: "document_exists u db" using find_document_Some [OF assms(3)] by (auto simp: document_exists_def)
  have "insert_event ?e db = (Inr (), db\<lparr>events := events db @ [?e]\<rparr>)"
    using assms(4) ex by (intro insert_event_ok) simp_all
  then have "worker_append_event we i db = (Inr (), db\<lparr>events := events db @ [?e]\<rparr>)"
    using assms(1) v doc msg
    unfolding worker_append_event_def op_Inr by (auto simp: json_dumps_def event_fields_ok_def)
  then show ?thesis by (rule that) (simp_all add: assms(3))
qed

text \<open>\<^verbatim>\<open>save_result\<close> on a stored document that has no result.\<close>

lemma save_result_ok:
  assumes "job_ok cfg u j" "find_document u db = Some d" "\<not> has_result u db"
    "fst ids \<notin> result_id ` set (results db)" "pg_int4 (rt_duration_ms tm) = Inr ms"
  obtains d' db' where
    "save_result (jb_document j) (PDict [(''status'', PStr ''COMPLETED''), (''worker_id'', PStr w), (''processing_mode'', PStr ''minimal'')])
       w (or_topic cfg j) (or_zero (jb_partition j)) (or_zero (jb_offset j)) tm ids db = (Inr (), db')"
    "find_document u db' = Some d'" "doc_status d' = COMPLETED" "has_result u db'"
    "event_id ` set (events db') \<subseteq> insert (snd ids) (event_id ` set (events db))"
proof -
  obtain t p f where v: "pg_not_null (pg_text (or_topic cfg j)) = Inr t" "pg_integer 32 (or_zero (jb_partition j)) = Inr p"
    "pg_integer 64 (or_zero (jb_offset j)) = Inr f"
    using assms(1) or_topic_ok [OF assms(1)] int_field_ok [OF int_field_or_zero] unfolding job_ok_def by metis
  let ?json = "PDict [(''status'', PStr ''COMPLETED''), (''worker_id'', PStr w), (''processing_mode'', PStr ''minimal'')]"
  let ?r = "\<lparr>result_id = fst ids, result_document = u, classification_status = ''COMPLETED'',
    result_started_at = rt_started tm, result_completed_at = rt_completed tm, result_duration_ms = ms,
    model_version = ''v1'', result_json = ?json\<rparr>"
  let ?row = "completed_row t p f w tm"
  have ex: "document_exists u db" using find_document_Some [OF assms(2)] by (auto simp: document_exists_def)
  define db1 where "db1 = db\<lparr>results := results db @ [?r]\<rparr>"
  have ins: "insert_result ?r db = (Inr (), db1)"
    using assms(3,4) ex by (auto simp: insert_result_def has_result_def db1_def image_iff)
  define db2 where "db2 = snd (update_document u ?row db1)"
  have up: "update_document u ?row db1 = (Inr (), db2)" by (simp add: db2_def update_document_def)
  have "find_document u db1 = Some d" using assms(2) by (simp add: db1_def)
  then have fd: "find_document u db2 = Some (?row d)"
    unfolding db2_def using find_update_document [of u db1 d ?row] by (simp add: completed_row_def)
  let ?e = "\<lambda>d. lifecycle_event (snd ids) PROCESSING_COMPLETED w INFO ''Worker processed and completed Kafka message''
      (kafka_partition d) (kafka_offset d) d"
  define db3 where "db3 = snd (ignore_conflict (document_event u ?e) db2)"
  have ev: "ignore_conflict (document_event u ?e) db2 = (Inr (), db3)"
    by (auto simp: db3_def ignore_conflict_def split: prod.split sum.split)
  have db3: "db3 = db2 \<or> db3 = db2\<lparr>events := events db2 @ [?e (?row d)]\<rparr>"
    using fd by (auto simp: db3_def ignore_conflict_def document_event_def insert_event_def split: prod.split sum.split option.split)
  have same: "results db2 = results db @ [?r]" "events db2 = events db" by (simp_all add: db2_def db1_def update_document_def)
  show ?thesis
  proof (rule that)
    show "save_result (jb_document j) ?json w (or_topic cfg j) (or_zero (jb_partition j)) (or_zero (jb_offset j)) tm ids db = (Inr (), db3)"
      using assms(1,5) v ins up ev
      by (simp add: save_result_def transaction_def op_bind_def op_lift_def job_ok_def parse_uuid_str json_dumps_def)
    show "find_document u db3 = Some (?row d)" using db3 fd by auto
    show "has_result u db3" using db3 same by (auto simp: has_result_def)
    show "event_id ` set (events db3) \<subseteq> insert (snd ids) (event_id ` set (events db))"
      using db3 same by (auto simp: lifecycle_event_def)
  qed (simp add: completed_row_def)
qed

section \<open>The run to completion\<close>

definition pruns ::
  "worker_settings \<Rightarrow> process_env \<Rightarrow> pphase \<times> 'z lifecycle_scheme \<Rightarrow> pphase \<times> 'z lifecycle_scheme" where
  "pruns cfg env c = run_phases (process_step cfg env) process_fuel c"

lemma pphase_rank_le: "pphase_rank ph \<le> process_fuel"
  by (cases ph) (simp_all add: process_fuel_def)

lemma pruns_step: "pruns cfg env (ph, s) = pruns cfg env (process_step cfg env ph s)"
  using process.run_step [OF pphase_rank_le, where c = "(ph, s)"] by (simp add: pruns_def)

lemma pruns_ended: "is_ended ph \<Longrightarrow> pruns cfg env (ph, s) = (ph, s)"
  unfolding pruns_def by (rule process.run_final) simp

lemma process_event_pruns: "process_event cfg env kvs s = pruns cfg env (Entering kvs, s)"
  by (simp add: process_event_def pruns_def)

text \<open>Nothing fails up to the work itself, and the identifiers drawn are new; nothing fails at all.\<close>

definition begins_well :: "process_env \<Rightarrow> database \<Rightarrow> bool" where
  "begins_well env db \<longleftrightarrow>
     pe_check env = NoFault \<and> pe_start env = NoFault \<and> pe_announce env = NoFault \<and>
     7 \<le> length (pe_ids env) \<and> distinct (pe_ids env) \<and>
     set (pe_ids env) \<inter> event_id ` set (events db) = {} \<and>
     set (pe_ids env) \<inter> result_id ` set (results db) = {}"

definition peaceful :: "process_env \<Rightarrow> database \<Rightarrow> bool" where
  "peaceful env db \<longleftrightarrow>
     begins_well env db \<and> pe_save env = NoFault \<and> pe_report env = NoFault \<and>
     (\<exists>ms. pg_int4 (duration_ms env) = Inr ms)"

lemma fresh_ids:
  assumes "7 \<le> length (pe_ids env)" "distinct (pe_ids env)"
  shows "n < 7 \<Longrightarrow> fresh_id env n \<in> set (pe_ids env)"
    "n < 7 \<Longrightarrow> m < 7 \<Longrightarrow> fresh_id env n = fresh_id env m \<longleftrightarrow> n = m"
  using assms by (auto simp: fresh_id_def nth_eq_iff_index_eq)

text \<open>A payload about document \<^verbatim>\<open>u\<close>, as the API publishes them.\<close>

definition payload_ok :: "worker_settings \<Rightarrow> uuid \<Rightarrow> (string \<times> pyval) list \<Rightarrow> int \<Rightarrow> bool" where
  "payload_ok cfg u kvs n \<longleftrightarrow>
     document_of kvs = PStr (uuid_str u) \<and>
     py_int (py_or (field kvs ''retry_count'') (PInt 0)) = Inr n \<and>
     job_ok cfg u (job_of kvs n)"

lemma payload_document: "payload_ok cfg u kvs n \<Longrightarrow> py_str (py_or (document_of kvs) (PStr [])) = uuid_str u"
  by (simp add: payload_ok_def py_or_def py_str_def)

lemma enters:
  assumes "payload_ok cfg u kvs n" "pe_check env = NoFault" "\<not> has_result u (lc_db s)"
  shows "process_step cfg env (Entering kvs) s = (Marking (job_of kvs n), s)"
proof -
  have "completed (uuid_str u) (lc_db s) = Inr False"
    using assms(3) by (simp add: completed_def parse_uuid_str has_result_def)
  then have "has_completed (pe_check env) (uuid_str u) s = Inr False"
    using assms(2) by (simp add: has_completed_def)
  then show ?thesis
    using assms(1) payload_document [OF assms(1)] by (simp add: step_enter_def Let_def payload_ok_def)
qed

lemma reaches_work:
  assumes "lc_pool s" "payload_ok cfg u kvs n" "begins_well env (lc_db s)"
    "find_document u (lc_db s) = Some d" "\<not> has_result u (lc_db s)"
  obtains db' d' where "pruns cfg env (Entering kvs, s) = pruns cfg env (Working (job_of kvs n), s\<lparr>lc_db := db'\<rparr>)"
    "find_document u db' = Some d'" "results db' = results (lc_db s)"
    "event_id ` set (events db') = {fresh_id env 0, fresh_id env 1} \<union> event_id ` set (events (lc_db s))"
proof -
  let ?j = "job_of kvs n" and ?w = "pe_worker env"
  have j: "job_ok cfg u ?j" using assms(2) by (simp add: payload_ok_def)
  have f: "pe_check env = NoFault" "pe_start env = NoFault" "pe_announce env = NoFault"
    and ids: "7 \<le> length (pe_ids env)" "distinct (pe_ids env)"
    and new: "set (pe_ids env) \<inter> event_id ` set (events (lc_db s)) = {}"
    using assms(3) by (simp_all add: begins_well_def)
  note fr = fresh_ids [OF ids]
  have fresh: "fresh_id env k \<notin> event_id ` set (events (lc_db s))" if "k < 7" for k using fr(1) [OF that] new by blast
  have ser: "serialisable (jb_topic ?j)" "serialisable (jb_partition ?j)" "serialisable (jb_offset ?j)"
    using j text_field_serialisable by (auto simp: job_ok_def)
  obtain d1 db1 where 1: "mark_processing_started (jb_document ?j) ?w (or_topic cfg ?j) (or_zero (jb_partition ?j))
      (or_zero (jb_offset ?j)) (pe_started_at env) (pe_now env) (fresh_id env 0) (lc_db s) = (Inr (), db1)"
    and r1: "find_document u db1 = Some d1" "results db1 = results (lc_db s)"
      "event_id ` set (events db1) = insert (fresh_id env 0) (event_id ` set (events (lc_db s)))"
    using mark_started_ok [OF j assms(4) fresh [of 0]] by (metis zero_less_numeral)
  have "event_fields_ok (processing_event env ?j)"
    using j ser by (simp add: event_fields_ok_def processing_event_def job_ok_def)
  moreover have "we_document (processing_event env ?j) = PStr (uuid_str u)" using j by (simp add: processing_event_def job_ok_def)
  moreover have "fresh_id env 1 \<notin> event_id ` set (events db1)" using r1(3) fresh [of 1] fr(2) [of 1 0] by simp
  ultimately obtain db2 where 2: "worker_append_event (processing_event env ?j) (fresh_id env 1) db1 = (Inr (), db2)"
    and r2: "find_document u db2 = Some d1" "results db2 = results db1"
      "event_id ` set (events db2) = insert (fresh_id env 1) (event_id ` set (events db1))"
    using worker_event_ok r1(1) by metis
  have "pruns cfg env (Entering kvs, s) = pruns cfg env (Marking ?j, s)"
    by (subst pruns_step) (simp only: enters [OF assms(2) f(1) assms(5)])
  also have "\<dots> = pruns cfg env (Announcing ?j, s\<lparr>lc_db := db1\<rparr>)"
    using assms(1) 1 by (subst pruns_step) (simp add: step_mark_def on_lc_def f(2))
  also have "\<dots> = pruns cfg env (Working ?j, s\<lparr>lc_db := db2\<rparr>)"
    using 2 by (subst pruns_step) (simp add: step_announce_def on_lc_def f(3))
  finally show ?thesis using r1 r2 by (intro that [of db2 d1]) auto
qed

lemma completes:
  assumes "lc_pool s" "payload_ok cfg u kvs n" "peaceful env (lc_db s)"
    "find_document u (lc_db s) = Some d" "\<not> has_result u (lc_db s)"
  obtains s' d' where "pruns cfg env (Entering kvs, s) = (Returned True, s')"
    "find_document u (lc_db s') = Some d'" "doc_status d' = COMPLETED" "has_result u (lc_db s')"
    "processed_total (pe_worker env) (lc_metrics s') = Suc (processed_total (pe_worker env) (lc_metrics s))"
proof -
  let ?j = "job_of kvs n" and ?w = "pe_worker env"
  have j: "job_ok cfg u ?j" using assms(2) by (simp add: payload_ok_def)
  have f: "pe_save env = NoFault" "pe_report env = NoFault" and well: "begins_well env (lc_db s)"
    using assms(3) by (simp_all add: peaceful_def)
  have ids: "7 \<le> length (pe_ids env)" "distinct (pe_ids env)"
    and new: "set (pe_ids env) \<inter> event_id ` set (events (lc_db s)) = {}" "set (pe_ids env) \<inter> result_id ` set (results (lc_db s)) = {}"
    using well by (simp_all add: begins_well_def)
  obtain ms where ms: "pg_int4 (duration_ms env) = Inr ms" using assms(3) by (auto simp: peaceful_def)
  note fr = fresh_ids [OF ids]
  obtain db2 d1 where run: "pruns cfg env (Entering kvs, s) = pruns cfg env (Working ?j, s\<lparr>lc_db := db2\<rparr>)"
    and r2: "find_document u db2 = Some d1" "results db2 = results (lc_db s)"
      "event_id ` set (events db2) = {fresh_id env 0, fresh_id env 1} \<union> event_id ` set (events (lc_db s))"
    by (rule reaches_work [OF assms(1,2) well assms(4,5)])
  have nores: "\<not> has_result u db2" "fst (fresh_id env 2, fresh_id env 3) \<notin> result_id ` set (results db2)"
    using assms(5) r2(2) fr(1) [of 2] new(2) by (auto simp: has_result_def)
  let ?tm = "\<lparr>rt_started = pe_started_at env, rt_completed = pe_completed_at env, rt_duration_ms = duration_ms env, rt_now = pe_now env\<rparr>"
  obtain d3 db3 where 3: "save_result (jb_document ?j) (PDict [(''status'', PStr ''COMPLETED''), (''worker_id'', PStr ?w),
        (''processing_mode'', PStr ''minimal'')]) ?w (or_topic cfg ?j) (or_zero (jb_partition ?j)) (or_zero (jb_offset ?j)) ?tm
        (fresh_id env 2, fresh_id env 3) db2 = (Inr (), db3)"
    and r3: "find_document u db3 = Some d3" "doc_status d3 = COMPLETED" "has_result u db3"
      "event_id ` set (events db3) \<subseteq> insert (snd (fresh_id env 2, fresh_id env 3)) (event_id ` set (events db2))"
    by (rule save_result_ok [OF j r2(1) nores, of ?tm ms ?w]) (simp_all add: ms)
  have "event_fields_ok (completed_event env ?j (duration_ms env))"
    using j by (simp add: event_fields_ok_def completed_event_def job_ok_def text_field_def int_field_def)
  moreover have "we_document (completed_event env ?j (duration_ms env)) = PStr (uuid_str u)" using j by (simp add: completed_event_def job_ok_def)
  moreover have "fresh_id env 4 \<notin> event_id ` set (events (lc_db s))" using fr(1) [of 4] new(1) by auto
  then have "fresh_id env 4 \<notin> event_id ` set (events db3)"
    using r3(4) r2(3) fr(2) [of 4 3] fr(2) [of 4 1] fr(2) [of 4 0] by auto
  ultimately obtain db4 where 4: "worker_append_event (completed_event env ?j (duration_ms env)) (fresh_id env 4) db3 = (Inr (), db4)"
    and r4: "find_document u db4 = Some d3" "results db4 = results db3"
    using worker_event_ok r3(1) by metis
  let ?s4 = "s\<lparr>lc_db := db4\<rparr>"
  note run
  also have "pruns cfg env (Working ?j, s\<lparr>lc_db := db2\<rparr>) = pruns cfg env (Reporting ?j (duration_ms env), s\<lparr>lc_db := db3\<rparr>)"
    using assms(1) 3 by (subst pruns_step) (simp add: step_work_def on_lc_def f(1))
  also have "\<dots> = pruns cfg env (succeed env ?s4)"
    using 4 by (subst pruns_step) (simp add: step_report_def on_lc_def f(2))
  also have "\<dots> = succeed env ?s4" by (simp add: succeed_def pruns_ended)
  finally have run: "pruns cfg env (Entering kvs, s) = (Returned True, snd (succeed env ?s4))" by (simp add: succeed_def)
  show ?thesis
    by (rule that [OF run, of d3]) (use r4 r3 in \<open>auto simp: succeed_def has_result_def processed_total_def\<close>)
qed

end
