(* ===== verification/WorkerProperties.thy ===== *)
theory WorkerProperties imports WorkerRuns begin

text \<open>
  The worker's promises: a published document is completed and completed once, its statuses are
  backed by results, failures are recorded; and what the consume loop makes of records that fail.
\<close>

section \<open>A failing save\<close>

lemma update_ok:
  assumes "find_document u db = Some d" "\<And>d. document_id (f d) = document_id d"
  obtains db' where "update_document u f db = (Inr (), db')" "find_document u db' = Some (f d)"
    "results db' = results db" "events db' = events db"
  using find_update_document [OF assms] by (intro that [of "snd (update_document u f db)"]) (simp_all add: update_document_def)

text \<open>The handler of the exception: a retry is scheduled while the budget lasts, else the document has
  failed; the exception is raised again in both cases.\<close>

text \<open>An attempt that failed is recorded, as one to be made again or as the last one.\<close>

lemma retry_recorded:
  assumes "lc_pool s" "job_ok cfg u j" "find_document u (lc_db s) = Some d" "pg_int4 (jb_retries j + 1) = Inr (jb_retries j + 1)"
    "pe_retry env = NoFault" "pe_retry_log env = NoFault" "fresh_id env 5 \<notin> event_id ` set (events (lc_db s))"
  obtains s' d' where "pruns cfg env (Retrying j (jb_retries j + 1) e, s) = (Raised e, s')"
    "find_document u (lc_db s') = Some d'" "doc_retry_count d' = jb_retries j + 1" "results (lc_db s') = results (lc_db s)"
    "doc_status d' = RETRYING" "lc_pool s'" "event_id ` set (events (lc_db s')) \<subseteq> insert (fresh_id env 5) (event_id ` set (events (lc_db s)))"
proof -
  let ?n = "jb_retries j + 1" and ?row = "retry_row (jb_retries j + 1) (pe_now env)"
  obtain db1 where up: "update_document u ?row (lc_db s) = (Inr (), db1)" and r1: "find_document u db1 = Some (?row d)"
    "results db1 = results (lc_db s)" "events db1 = events (lc_db s)"
    using update_ok [OF assms(3), of ?row] by (auto simp: retry_row_def)
  obtain p f where v: "pg_integer 32 (or_zero (jb_partition j)) = Inr p" "pg_integer 64 (or_zero (jb_offset j)) = Inr f"
    using assms(2) int_field_ok [OF int_field_or_zero] unfolding job_ok_def by metis
  let ?e = "lifecycle_event (fresh_id env 5) EV_RETRYING (pe_worker env) WARNING ''Worker retry scheduled due to processing failure'' p f"
  have id: "document_id (?row d) = u" using find_document_Some [OF r1(1)] by simp
  have ev: "document_event u ?e db1 = (Inr (), db1\<lparr>events := events db1 @ [?e (?row d)]\<rparr>)"
    using assms(7) id r1(3) by (intro document_event_ok [OF r1(1)]) (simp_all add: lifecycle_event_def)
  let ?db2 = "db1\<lparr>events := events db1 @ [?e (?row d)]\<rparr>"
  have uu: "record_retry_update (jb_document j) ?n (pe_now env) (lc_db s) = (Inr (), db1)"
    using assms(2,4) up by (simp add: record_retry_update_def op_bind_def op_lift_def job_ok_def parse_uuid_str)
  have ee: "record_retry_event (jb_document j) (pe_worker env) (or_zero (jb_partition j)) (or_zero (jb_offset j)) (fresh_id env 5) db1 = (Inr (), ?db2)"
    using assms(2) v ev by (simp add: record_retry_event_def op_bind_def op_lift_def job_ok_def parse_uuid_str)
  let ?s = "observe [RetryTotal (pe_worker env)] (s\<lparr>lc_db := ?db2\<rparr>)"
  have "pruns cfg env (Retrying j ?n e, s) = pruns cfg env (RetryLogging j ?n e, s\<lparr>lc_db := db1\<rparr>)"
    using assms(1,5) uu by (subst pruns_step) (simp add: step_retry_def on_lc_def)
  also have "\<dots> = pruns cfg env (Raised e, ?s)"
    using assms(6) ee by (subst pruns_step) (simp add: step_retry_log_def on_lc_def)
  finally have "pruns cfg env (Retrying j ?n e, s) = (Raised e, ?s)" by (simp add: pruns_ended)
  then show ?thesis using that [of ?s "?row d"] r1 assms(1)
    by (auto simp: retry_row_def lifecycle_event_def)
qed

lemma failure_recorded:
  assumes "lc_pool s" "job_ok cfg u j" "find_document u (lc_db s) = Some d" "pg_int4 (jb_retries j + 1) = Inr (jb_retries j + 1)"
    "pe_fail env = NoFault" "pe_fail_log env = NoFault" "fresh_id env 6 \<notin> event_id ` set (events (lc_db s))" "CHR 0x00 \<notin> set (pe_error env)"
  obtains s' d' where "pruns cfg env (Failing j (jb_retries j + 1) e, s) = (Raised e, s')"
    "find_document u (lc_db s') = Some d'" "doc_retry_count d' = jb_retries j + 1" "results (lc_db s') = results (lc_db s)"
    "doc_status d' = FAILED" "lc_pool s'" "event_id ` set (events (lc_db s')) \<subseteq> insert (fresh_id env 6) (event_id ` set (events (lc_db s)))"
proof -
  let ?n = "jb_retries j + 1" and ?row = "failed_row (jb_retries j + 1) (pe_now env)"
  obtain db1 where up: "update_document u ?row (lc_db s) = (Inr (), db1)" and r1: "find_document u db1 = Some (?row d)"
    "results db1 = results (lc_db s)" "events db1 = events (lc_db s)"
    using update_ok [OF assms(3), of ?row] by (auto simp: failed_row_def)
  have uu: "record_failure (jb_document j) ?n (pe_now env) (lc_db s) = (Inr (), db1)"
    using assms(2,4) up by (simp add: record_failure_def op_bind_def op_lift_def job_ok_def parse_uuid_str)
  have "event_fields_ok (failed_event env j ?n)"
    using assms(2,8) text_field_serialisable
    by (auto simp: event_fields_ok_def failed_event_def job_ok_def text_field_def int_field_def)
  moreover have "we_document (failed_event env j ?n) = PStr (uuid_str u)" using assms(2) by (simp add: failed_event_def job_ok_def)
  moreover have "fresh_id env 6 \<notin> event_id ` set (events db1)" using assms(7) r1(3) by simp
  ultimately obtain db2 where ee: "worker_append_event (failed_event env j ?n) (fresh_id env 6) db1 = (Inr (), db2)"
    and r2: "find_document u db2 = Some (?row d)" "results db2 = results db1"
      "event_id ` set (events db2) = insert (fresh_id env 6) (event_id ` set (events db1))"
    using worker_event_ok r1(1) by metis
  let ?s = "observe [DocumentsFailed (pe_worker env)] (s\<lparr>lc_db := db2\<rparr>)"
  have "pruns cfg env (Failing j ?n e, s) = pruns cfg env (FailLogging j ?n e, s\<lparr>lc_db := db1\<rparr>)"
    using assms(1,5) uu by (subst pruns_step) (simp add: step_fail_def on_lc_def)
  also have "\<dots> = pruns cfg env (Raised e, ?s)"
    using assms(6) ee by (subst pruns_step) (simp add: step_fail_log_def on_lc_def)
  finally have "pruns cfg env (Failing j ?n e, s) = (Raised e, ?s)" by (simp add: pruns_ended)
  then show ?thesis using that [of ?s "?row d"] r1 r2 assms(1)
    by (auto simp: failed_row_def)
qed

lemma exception_recorded:
  assumes "lc_pool s" "job_ok cfg u j" "find_document u (lc_db s) = Some d" "pg_int4 (jb_retries j + 1) = Inr (jb_retries j + 1)"
    "pe_retry env = NoFault" "pe_retry_log env = NoFault" "pe_fail env = NoFault" "pe_fail_log env = NoFault"
    "fresh_id env 5 \<notin> event_id ` set (events (lc_db s))" "fresh_id env 6 \<notin> event_id ` set (events (lc_db s))"
    "CHR 0x00 \<notin> set (pe_error env)"
  obtains s' d' where "pruns cfg env (on_exception cfg j e, s) = (Raised e, s')"
    "find_document u (lc_db s') = Some d'" "doc_retry_count d' = jb_retries j + 1" "results (lc_db s') = results (lc_db s)"
    "doc_status d' = (if jb_retries j + 1 < PROCESSING_MAX_RETRIES cfg then RETRYING else FAILED)"
    "lc_pool s'" "event_id ` set (events (lc_db s')) \<subseteq> {fresh_id env 5, fresh_id env 6} \<union> event_id ` set (events (lc_db s))"
proof (cases "jb_retries j + 1 < PROCESSING_MAX_RETRIES cfg")
  case True
  show ?thesis by (rule retry_recorded [OF assms(1-6,9), of e]) (use True in \<open>auto simp: on_exception_def intro!: that\<close>)
next
  case False
  show ?thesis by (rule failure_recorded [OF assms(1-4,7,8,10,11), of e]) (use False in \<open>auto simp: on_exception_def intro!: that\<close>)
qed

section \<open>A worker to use\<close>

definition example_row :: doc_row where
  "example_row = \<lparr>
     document_id = 1, idempotency_key = ''a'', doc_agency = ''a'', filename = None, object_key = ''o'',
     doc_sha256 = [], doc_size = 1, doc_status = QUEUED, sequence_number = 1,
     kafka_topic = None, kafka_partition = None, kafka_offset = None, doc_worker = None,
     processing_started_at = None, processing_completed_at = None, processing_duration_ms = None,
     doc_audit_type = ''Federal Grant Single Audit'', doc_report_year = Some 2024, doc_auditor_org = None,
     doc_retry_count = 0, error_code = None, created_at = 0, updated_at = 0\<rparr>"

definition example_worker :: consumer where
  "example_worker =
     (new_consumer default_worker_settings None (empty_database\<lparr>documents := [example_row]\<rparr>))
       \<lparr>lc_pool := True, cn_running := True\<rparr>"

definition example_payload :: "(string \<times> pyval) list" where
  "example_payload =
     [(''job_id'', PStr (uuid_str 1)), (''agency_id'', PStr ''a''), (''sequence_number'', PInt 1),
      (''kafka_topic'', PStr ''t''), (''kafka_partition'', PInt 3), (''kafka_offset'', PInt 7)]"

definition example_process :: process_env where
  "example_process = \<lparr>
     pe_worker = ''worker-01'', pe_started_at = 0, pe_completed_at = 0, pe_observed_at = 0, pe_now = 0,
     pe_ids = [10, 11, 12, 13, 14, 15, 16],
     pe_check = NoFault, pe_start = NoFault, pe_announce = NoFault, pe_save = NoFault, pe_report = NoFault,
     pe_retry = NoFault, pe_retry_log = NoFault, pe_fail = NoFault, pe_fail_log = NoFault, pe_error = ''timeout''\<rparr>"

definition example_message :: message where
  "example_message = \<lparr>ms_topic = ''t'', ms_partition = 3, ms_offset = 7, ms_value = Inr (PDict example_payload)\<rparr>"

definition example_record :: "process_env \<Rightarrow> record_env" where
  "example_record q = \<lparr>
     re_started = 0, re_rated = 0, re_ended = 0, re_consumed = NoFault, re_consumed_id = 17,
     re_failed = NoFault, re_failed_id = 18, re_error = ''timeout'', re_process = q\<rparr>"

lemma example_worker_fields [simp]:
  "lc_pool example_worker" "find_document 1 (lc_db example_worker) = Some example_row"
  "\<not> has_result 1 (lc_db example_worker)" "events (lc_db example_worker) = []" "results (lc_db example_worker) = []"
  "documents (lc_db example_worker) = [example_row]" "cn_running example_worker" "cn_active example_worker = 0"
  by (simp_all add: example_worker_def new_consumer_def find_document_def has_result_def empty_database_def example_row_def)

lemma example_payload_ok: "payload_ok default_worker_settings 1 example_payload 0"
proof -
  have d: "document_of example_payload = PStr (uuid_str 1)"
    by (simp add: document_of_def field_def example_payload_def py_or_def)
  have "py_or (field example_payload ''retry_count'') (PInt 0) = PInt 0"
    by (simp add: field_def example_payload_def py_or_def)
  then have "py_int (py_or (field example_payload ''retry_count'') (PInt 0)) = Inr 0" by simp
  moreover have "py_str (py_or (PStr (uuid_str 1)) (PStr [])) = uuid_str 1" by (simp add: py_or_def py_str_def)
  ultimately show ?thesis
    using d by (simp add: payload_ok_def job_ok_def job_of_def text_field_def int_field_def field_def example_payload_def
      default_worker_settings_def)
qed

lemma example_begins_well: "begins_well (example_process\<lparr>pe_save := f\<rparr>) (lc_db example_worker)"
  by (simp add: begins_well_def example_process_def)

lemma example_peaceful: "peaceful example_process (lc_db example_worker)"
proof -
  have "duration_ms example_process = 0" by code_simp
  then have "\<exists>ms. pg_int4 (duration_ms example_process) = Inr ms" by (simp add: pg_int4_def)
  then show ?thesis by (simp add: peaceful_def begins_well_def example_process_def)
qed

section \<open>A record's run\<close>

definition rruns :: "worker_settings \<Rightarrow> record_env \<Rightarrow> message \<Rightarrow> rphase \<times> consumer \<Rightarrow> rphase \<times> consumer" where
  "rruns cfg env m c = run_phases (record_step cfg env m) record_fuel c"

lemma rphase_rank_le: "rphase_rank ph \<le> record_fuel"
proof (cases ph)
  case (Processing kvs q)
  then show ?thesis by (cases q) (simp_all add: record_fuel_def)
qed (simp_all add: record_fuel_def)

lemma rruns_step: "rruns cfg env m (ph, c) = rruns cfg env m (record_step cfg env m ph c)"
  using records.run_step [OF rphase_rank_le, where c = "(ph, c)"] by (simp add: rruns_def)

lemma rruns_gone: "rruns cfg env m (Gone e, c) = (Gone e, c)"
  unfolding rruns_def by (rule records.run_final) simp

lemma handle_record_rruns: "handle_record cfg env m c = rruns cfg env m (Waiting, c)"
  by (simp add: handle_record_def rruns_def)

text \<open>A record waits for its processing to end.\<close>

lemma rruns_process_steps:
  "rruns cfg env m (Processing kvs ph, c) =
   rruns cfg env m (case run_phases (process_step cfg (re_process env)) n (ph, c) of (ph', c') \<Rightarrow> (Processing kvs ph', c'))"
proof (induction n arbitrary: ph c)
  case (Suc n)
  show ?case
  proof (cases "is_ended ph")
    case True
    then have "process_step cfg (re_process env) ph c = (ph, c)" by (rule process.final_stays)
    then show ?thesis using Suc.IH [of ph c] by simp
  next
    case False
    then have "record_step cfg env m (Processing kvs ph) c =
        (case process_step cfg (re_process env) ph c of (ph', c') \<Rightarrow> (Processing kvs ph', c'))"
      by (cases ph) (simp_all add: step_process_def)
    then show ?thesis using Suc.IH [of "fst (process_step cfg (re_process env) ph c)" "snd (process_step cfg (re_process env) ph c)"]
      by (subst rruns_step) (simp add: case_prod_beta)
  qed
qed simp

lemma rruns_process:
  assumes "pruns cfg (re_process env) (ph, c) = (ph', c')"
  shows "rruns cfg env m (Processing kvs ph, c) = rruns cfg env m (Processing kvs ph', c')"
  using rruns_process_steps [of cfg env m kvs ph c process_fuel] assms by (simp add: pruns_def)

section \<open>Completion\<close>

text \<open>C4: a worker that takes up a published document and meets no failure completes it: the event is
  processed, the document's status is COMPLETED and its result is stored.\<close>

theorem published_document_is_completed:
  assumes "lc_pool s" "payload_ok cfg u kvs n" "peaceful env (lc_db s)"
    "find_document u (lc_db s) = Some d" "\<not> has_result u (lc_db s)"
  shows "\<exists>s' d'. process_event cfg env kvs s = (Returned True, s') \<and> find_document u (lc_db s') = Some d' \<and>
    doc_status d' = COMPLETED \<and> has_result u (lc_db s') \<and>
    processed_total (pe_worker env) (lc_metrics s') = Suc (processed_total (pe_worker env) (lc_metrics s))"
  unfolding process_event_pruns by (rule completes [OF assms]) blast

theorem published_document_is_completed_witness:
  "\<exists>s' d'. process_event default_worker_settings example_process example_payload example_worker = (Returned True, s') \<and>
     find_document 1 (lc_db s') = Some d' \<and> doc_status d' = COMPLETED"
  using published_document_is_completed [OF example_worker_fields(1) example_payload_ok example_peaceful
    example_worker_fields(2,3)] by blast

text \<open>A document with a result is skipped.\<close>

lemma skips_completed:
  assumes "lc_pool s" "document_of kvs = PStr (uuid_str u)" "pe_check env = NoFault" "has_result u (lc_db s)"
  shows "pruns cfg env (Entering kvs, s) = (Returned True, s)"
proof -
  have "py_str (py_or (document_of kvs) (PStr [])) = uuid_str u" using assms(2) by (simp add: py_or_def py_str_def)
  moreover have "completed (uuid_str u) (lc_db s) = Inr True"
    using assms(4) by (simp add: completed_def parse_uuid_str has_result_def)
  ultimately have "process_step cfg env (Entering kvs) s = (Returned True, s)"
    using assms(1,3) by (simp add: step_enter_def has_completed_def)
  then show ?thesis by (subst pruns_step) (simp add: pruns_ended)
qed



section \<open>Failures\<close>

lemma fresh_event_id:
  assumes "begins_well env db" "k < 7" shows "fresh_id env k \<notin> event_id ` set (events db)"
  using fresh_ids(1) [of env k] assms by (auto simp: begins_well_def)

lemma failing_save:
  assumes "lc_pool s" "payload_ok cfg u kvs n" "begins_well env (lc_db s)"
    "find_document u (lc_db s) = Some d" "\<not> has_result u (lc_db s)" "pe_save env = FailsBefore"
    "pe_retry env = NoFault" "pe_retry_log env = NoFault" "pe_fail env = NoFault" "pe_fail_log env = NoFault"
    "pg_int4 (n + 1) = Inr (n + 1)" "CHR 0x00 \<notin> set (pe_error env)"
  obtains s' d' where "pruns cfg env (Entering kvs, s) = (Raised ExternalError, s')" "lc_pool s'"
    "find_document u (lc_db s') = Some d'" "doc_retry_count d' = n + 1" "\<not> has_result u (lc_db s')"
    "event_id ` set (events (lc_db s')) \<subseteq> set (pe_ids env) \<union> event_id ` set (events (lc_db s))"
    "doc_status d' = (if n + 1 < PROCESSING_MAX_RETRIES cfg then RETRYING else FAILED)"
proof -
  let ?j = "job_of kvs n"
  obtain db1 d1 where run: "pruns cfg env (Entering kvs, s) = pruns cfg env (Working ?j, s\<lparr>lc_db := db1\<rparr>)"
    and r1: "find_document u db1 = Some d1" "results db1 = results (lc_db s)"
      "event_id ` set (events db1) = {fresh_id env 0, fresh_id env 1} \<union> event_id ` set (events (lc_db s))"
    by (rule reaches_work [OF assms(1-5)])
  let ?s1 = "s\<lparr>lc_db := db1\<rparr>"
  have ids: "7 \<le> length (pe_ids env)" "distinct (pe_ids env)" using assms(3) by (simp_all add: begins_well_def)
  have new: "fresh_id env 5 \<notin> event_id ` set (events (lc_db ?s1))" "fresh_id env 6 \<notin> event_id ` set (events (lc_db ?s1))"
    using r1(3) fresh_event_id [OF assms(3), of 5] fresh_event_id [OF assms(3), of 6]
      fresh_ids(2) [OF ids, of 5 0] fresh_ids(2) [OF ids, of 5 1] fresh_ids(2) [OF ids, of 6 0] fresh_ids(2) [OF ids, of 6 1] by auto
  have j: "job_ok cfg u ?j" using assms(2) by (simp add: payload_ok_def)
  have n: "jb_retries ?j = n" by (simp add: job_of_def)
  have "pruns cfg env (Working ?j, ?s1) = pruns cfg env (on_exception cfg ?j ExternalError, ?s1)"
    using assms(1,6) by (subst pruns_step) (simp add: step_work_def on_lc_def)
  moreover obtain s' d' where "pruns cfg env (on_exception cfg ?j ExternalError, ?s1) = (Raised ExternalError, s')"
    "find_document u (lc_db s') = Some d'" "doc_retry_count d' = jb_retries ?j + 1" "results (lc_db s') = results (lc_db ?s1)"
    "doc_status d' = (if jb_retries ?j + 1 < PROCESSING_MAX_RETRIES cfg then RETRYING else FAILED)" "lc_pool s'"
    "event_id ` set (events (lc_db s')) \<subseteq> {fresh_id env 5, fresh_id env 6} \<union> event_id ` set (events (lc_db ?s1))"
    by (rule exception_recorded [of ?s1, OF _ j _ _ assms(7-10) new assms(12)]) (use assms(1,11) r1 n in simp_all)
  moreover have "{fresh_id env 5, fresh_id env 6, fresh_id env 0, fresh_id env 1} \<subseteq> set (pe_ids env)"
    using fresh_ids(1) [OF ids] by simp
  ultimately show ?thesis
    using run n assms(5) r1(2,3) by (intro that [of s' d']) (auto simp: has_result_def)
qed

text \<open>A document whose result cannot be stored does not stay PROCESSING: the attempt is counted, the
  document is left RETRYING while the payload's retry count and this attempt are below the budget
  and FAILED otherwise, no result is stored, and the exception goes on to the consumer.\<close>

theorem failed_save_is_recorded:
  assumes "lc_pool s" "payload_ok cfg u kvs n" "begins_well env (lc_db s)"
    "find_document u (lc_db s) = Some d" "\<not> has_result u (lc_db s)" "pe_save env = FailsBefore"
    "pe_retry env = NoFault" "pe_retry_log env = NoFault" "pe_fail env = NoFault" "pe_fail_log env = NoFault"
    "pg_int4 (n + 1) = Inr (n + 1)" "CHR 0x00 \<notin> set (pe_error env)"
  shows "\<exists>s' d'. process_event cfg env kvs s = (Raised ExternalError, s') \<and> find_document u (lc_db s') = Some d' \<and>
    doc_retry_count d' = n + 1 \<and> \<not> has_result u (lc_db s') \<and>
    doc_status d' = (if n + 1 < PROCESSING_MAX_RETRIES cfg then RETRYING else FAILED)"
  unfolding process_event_pruns by (rule failing_save [OF assms]) blast

theorem failed_save_is_recorded_witness:
  "\<exists>s' d'. process_event default_worker_settings (example_process\<lparr>pe_save := FailsBefore\<rparr>) example_payload example_worker
      = (Raised ExternalError, s') \<and> find_document 1 (lc_db s') = Some d' \<and> doc_status d' = RETRYING"
proof -
  let ?e = "example_process\<lparr>pe_save := FailsBefore\<rparr>"
  have "pe_save ?e = FailsBefore" "pe_retry ?e = NoFault" "pe_retry_log ?e = NoFault" "pe_fail ?e = NoFault"
    "pe_fail_log ?e = NoFault" "pg_int4 (0 + 1) = Inr (0 + 1)" "CHR 0x00 \<notin> set (pe_error ?e)"
    by (simp_all add: example_process_def pg_int4_def)
  from failed_save_is_recorded [OF example_worker_fields(1) example_payload_ok example_begins_well example_worker_fields(2,3) this]
  show ?thesis by (simp add: default_worker_settings_def) blast
qed

end
