(* ===== verification/ConsumerProperties.thy ===== *)
theory ConsumerProperties imports WorkerProperties begin

text \<open>
  The consume loop's promises: how many records run at once, that every record is counted, what is
  committed, what a record that fails or cannot be read leads to, and what a worker's whole life
  keeps of the database.
\<close>

section \<open>Polls to use\<close>

definition example_poll :: "message \<Rightarrow> process_env \<Rightarrow> poll_env" where
  "example_poll m q = \<lparr>
     po_batch = Inr [((''t'', 3), [(m, example_record q)])], po_assigned = [], po_ends = Inl ExternalError, po_commit = NoFault\<rparr>"

section \<open>A worker's life\<close>

context lifecycle_invariant
begin

lemma on_lc_run: "keeps P m \<Longrightarrow> P (lc_db s) \<Longrightarrow> P (lc_db (snd (on_lc (with_fault f m) s)))"
  using on_lc_keeps [of m f s "fst (on_lc (with_fault f m) s)" "snd (on_lc (with_fault f m) s)"] by simp

lemma bind_keeps:
  assumes "P (lc_db (snd (m s)))" "\<And>v t. P (lc_db t) \<Longrightarrow> P (lc_db (snd (g v t)))"
  shows "P (lc_db (snd (op_bind m g s)))"
  using assms by (cases "m s") (auto simp: op_bind_def split: sum.split)

lemma worker_start_keeps: "P (lc_db c) \<Longrightarrow> P (lc_db (worker_start db_ok f1 f2 h c))"
  unfolding worker_start_def Let_def
  by (simp, intro impI bind_keeps on_lc_run keeps_workers keeps_worker_append_event) simp_all

lemma worker_stop_keeps: "P (lc_db c) \<Longrightarrow> P (lc_db (snd (worker_stop client f1 f2 h c)))"
  unfolding worker_stop_def
  by (intro bind_keeps) (auto simp: op_lift_def intro!: bind_keeps on_lc_run keeps_workers keeps_worker_append_event)

lemma heartbeat_keeps: "P (lc_db c) \<Longrightarrow> P (lc_db (heartbeat f wall now c))"
  by (auto simp: heartbeat_def Let_def split: prod.split sum.split dest: on_lc_keeps [OF keeps_workers(2)])

end

context worker_invariant
begin

lemma worker_main_keeps:
  assumes "P (lc_db (fst s))" shows "P (lc_db (fst (snd (worker_main cfg env s))))"
proof -
  let ?c = "worker_start (me_db_ok env) (me_register env) (me_registered env) (me_host env) (fst s)"
  obtain c1 k where r: "consume_rounds cfg (me_polls env) (?c, snd s) = (c1, k)" by force
  have "P (lc_db ?c)" using assms by (rule worker_start_keeps)
  then have "P (lc_db c1)" using consume_rounds_keeps [of "(?c, snd s)" cfg "me_polls env"] r by simp
  from worker_stop_keeps [OF this, of "me_client_stop env" "me_drain env" "me_stopped env" "me_host env"]
  show ?thesis using r
    by (cases "worker_stop (me_client_stop env) (me_drain env) (me_stopped env) (me_host env) c1") (simp add: worker_main_def Let_def)
qed

end

text \<open>A worker's whole life, from its start over any rounds of its loop to its stop, and whatever
  statements fail in it, keeps the schema's constraints and never leaves a document COMPLETED
  without its result.\<close>

theorem worker_keeps_database:
  assumes "db_inv (lc_db (fst s))" "completed_has_result (lc_db (fst s))"
  shows "db_inv (lc_db (fst (snd (worker_main cfg env s)))) \<and>
    completed_has_result (lc_db (fst (snd (worker_main cfg env s))))"
  using worker_constraints.worker_main_keeps [OF assms(1)] completion.worker_main_keeps [OF assms(2)] by blast

text \<open>A life that takes up the example's message twice, its save failing the first time.\<close>

definition example_life :: main_env where
  "example_life = \<lparr>
     me_db_ok = True, me_host = \<lparr>he_host = [], he_pid = 1, he_now = 0, he_id = 20\<rparr>, me_register = NoFault, me_registered = NoFault,
     me_polls = [example_poll example_message (example_process\<lparr>pe_save := FailsBefore\<rparr>), example_poll example_message example_process],
     me_client_stop = Inr True, me_drain = NoFault, me_stopped = NoFault\<rparr>"

theorem worker_keeps_database_witness:
  "completed_has_result (lc_db (fst (snd (worker_main default_worker_settings example_life
     (example_worker, \<lparr>kc_position = (\<lambda>_. 0), kc_committed = (\<lambda>_. 0)\<rparr>)))))"
proof -
  have "db_inv (lc_db example_worker)"
    by (simp add: db_inv_def example_worker_def new_consumer_def empty_database_def)
  moreover have "completed_has_result (lc_db example_worker)"
    by (simp add: completed_has_result_def example_row_def)
  ultimately show ?thesis
    using worker_keeps_database [of "(example_worker, \<lparr>kc_position = (\<lambda>_. 0), kc_committed = (\<lambda>_. 0)\<rparr>)"] by simp
qed

section \<open>The records of a batch at once\<close>

text \<open>C15: however the records of a batch interleave, and whatever the other processes do to the database
  meanwhile, the worker's count of active jobs is the number of records between their start and
  their end, which is never more than WORKER_CONCURRENCY, and it is zero when all have ended.\<close>

theorem batch_concurrency_is_bounded:
  assumes "batch_reach cfg (new_batch cfg c ms) b" "cn_active c = 0" "0 \<le> WORKER_CONCURRENCY cfg"
  shows "cn_active (bt_consumer b) =
      int (length (filter (\<lambda>t. snd (snd t) \<noteq> Waiting \<and> \<not> is_gone (snd (snd t))) (bt_tasks b))) \<and>
    cn_active (bt_consumer b) \<le> WORKER_CONCURRENCY cfg \<and>
    ((\<forall>t \<in> set (bt_tasks b). is_gone (snd (snd t))) \<longrightarrow> cn_active (bt_consumer b) = 0)"
proof -
  have inv: "batch_inv cfg b" using assms by (intro batch_reach_inv [OF assms(1)] new_batch_inv)
  have count: "busy_tasks ts = int (length (filter (\<lambda>t. snd (snd t) \<noteq> Waiting \<and> \<not> is_gone (snd (snd t))) ts))" for ts
    by (induction ts) (auto simp: busy_tasks_def busy_def)
  have "filter (\<lambda>t. snd (snd t) \<noteq> Waiting \<and> \<not> is_gone (snd (snd t))) (bt_tasks b) = []"
    if "\<forall>t \<in> set (bt_tasks b). is_gone (snd (snd t))"
    using that by (simp add: filter_empty_conv)
  then show ?thesis using inv count [of "bt_tasks b"] by (auto simp: batch_inv_def)
qed

theorem batch_concurrency_is_bounded_witness:
  "\<exists>b. batch_reach default_worker_settings
       (new_batch default_worker_settings example_worker [(example_message, example_record example_process)]) b \<and>
     cn_active (bt_consumer b) \<le> 8 \<and> (\<forall>t \<in> set (bt_tasks b). snd (snd t) \<noteq> Waiting)"
proof -
  let ?b = "new_batch default_worker_settings example_worker [(example_message, example_record example_process)]"
  obtain ph c where s: "record_step default_worker_settings (example_record example_process) example_message Waiting example_worker = (ph, c)"
    by force
  let ?b' = "\<lparr>bt_consumer = c, bt_permits = bt_permits ?b - 1, bt_tasks = (bt_tasks ?b)[0 := (example_message, example_record example_process, ph)]\<rparr>"
  have "batch_step default_worker_settings ?b ?b'"
    by (rule batch_step.tasks [OF task_step.begins]) (use s in \<open>simp_all add: new_batch_def default_worker_settings_def\<close>)
  then have r: "batch_reach default_worker_settings ?b ?b'" by (rule batch_reach.step [OF batch_reach.start])
  have "ph \<noteq> Waiting"
    using record_step_begin(2) [of default_worker_settings "example_record example_process" example_message example_worker] busy_1 s by auto
  moreover have "cn_active c \<le> 8"
    using batch_concurrency_is_bounded [OF r] by (simp add: default_worker_settings_def)
  ultimately show ?thesis using r by (intro exI [of _ ?b']) (simp add: new_batch_def)
qed

section \<open>Counting\<close>

text \<open>A record is counted once, as processed or as failed, by the time it leaves.\<close>

fun counted :: "rphase \<Rightarrow> int" where
  "counted Waiting = 0"
| "counted (Consuming _) = 0"
| "counted (Processing _ _) = 0"
| "counted (Recovering _) = 1"
| "counted (Leaving _) = 1"
| "counted (Gone _) = 1"

definition tally :: "consumer \<Rightarrow> int" where
  "tally c = cn_processed c + cn_failed c"

lemma tally_frame [simp]: "tally (observe ms c) = tally c" "cn_retries (observe ms c) = cn_retries c"
  by (simp_all add: tally_def observe_def)

lemma on_record_error_tally:
  "counted (fst (on_record_error v c)) = 1 \<and> tally (snd (on_record_error v c)) = tally c + 1 \<and>
   cn_retries (snd (on_record_error v c)) = cn_retries c \<and> lc_pool (snd (on_record_error v c)) = lc_pool c"
  by (cases v) (simp_all add: on_record_error_def Let_def tally_def)

lemma process_step_tally:
  fixes c :: consumer
  shows "tally (snd (process_step cfg env ph c)) = tally c \<and> cn_retries (snd (process_step cfg env ph c)) = cn_retries c"
  by (cases ph) (auto simp: process_defs Let_def on_lc_Pair observe_def tally_def split: process_splits)

lemma record_step_tally:
  "tally (snd (record_step cfg env m ph c)) - counted (fst (record_step cfg env m ph c)) = tally c - counted ph \<and>
   cn_retries (snd (record_step cfg env m ph c)) = cn_retries c \<and>
   lc_pool (snd (record_step cfg env m ph c)) = lc_pool c"
proof (cases ph)
  case (Processing kvs q)
  then show ?thesis
    using on_record_error_tally process_step_tally [of cfg "re_process env" q c] process_pool [of cfg "re_process env" q c]
    by (cases q) (auto simp: step_process_def Let_def tally_def split: bool.split prod.splits simp del: process_step.simps process_pool)
next
  case Waiting
  have "tally (c\<lparr>cn_state := st, cn_active := n\<rparr>) = tally c" for st n by (simp add: tally_def)
  then show ?thesis using Waiting on_record_error_tally
    by (auto simp: step_begin_def Let_def tally_def split: sum.split pyval.split)
next
  case (Consuming kvs)
  have "tally c' = tally c \<and> cn_retries c' = cn_retries c \<and> lc_pool c' = lc_pool c" if "on_lc g c = (r, c')" for g r c'
    using that by (auto simp: on_lc_Pair tally_def)
  then show ?thesis using Consuming on_record_error_tally
    by (auto simp: step_consume_def split: prod.split sum.split)
qed (auto simp: step_recover_def step_leave_def on_lc_Pair tally_def observe_def split: prod.split sum.split)

lemma handle_record_tally:
  assumes "handle_record cfg env m c = (ph, c')"
  shows "tally c' = tally c + 1 \<and> cn_retries c' = cn_retries c \<and> lc_pool c' = lc_pool c \<and> is_gone ph"
proof -
  let ?P = "\<lambda>ph c'. tally c' - counted ph = tally c \<and> cn_retries c' = cn_retries c \<and> lc_pool c' = lc_pool c"
  have "?P (fst (run_phases (record_step cfg env m) record_fuel (Waiting, c))) (snd (run_phases (record_step cfg env m) record_fuel (Waiting, c)))"
    by (rule records.run_invariant [where P = ?P]) (use record_step_tally in auto)
  moreover have "is_gone ph"
    using records.run_finishes [of "(Waiting, c)" record_fuel cfg env m] assms by (simp add: handle_record_def record_fuel_def)
  moreover have "counted ph = 1" using calculation(2) by (cases ph) simp_all
  ultimately show ?thesis using assms by (simp add: handle_record_def)
qed

text \<open>C16: every record of a batch is counted exactly once, as processed or as failed, whatever happens to
  it; and the worker's retry counter, which its heartbeats report, never moves.\<close>

theorem every_record_is_counted:
  "cn_processed (snd (run_records cfg ms c)) + cn_failed (snd (run_records cfg ms c)) =
     cn_processed c + cn_failed c + int (length ms) \<and>
   cn_retries (snd (run_records cfg ms c)) = cn_retries c"
proof (induction cfg ms c rule: run_records.induct)
  case (2 cfg m env ms c)
  obtain ph c1 where h: "handle_record cfg env m c = (ph, c1)" by force
  from 2 [OF h [symmetric]] handle_record_tally [OF h] h show ?case
    by (cases "run_records cfg ms c1") (simp add: tally_def)
qed simp

section \<open>Giving up\<close>

text \<open>Payloads without a retry count, such as the API's: no phase of their processing gives up.\<close>

definition first_try :: "(string \<times> pyval) list \<Rightarrow> bool" where
  "first_try kvs \<longleftrightarrow> field kvs ''retry_count'' = PNone"

fun tries_left :: "pphase \<Rightarrow> bool" where
  "tries_left (Entering kvs) = first_try kvs"
| "tries_left (Marking j) = (jb_retries j = 0)"
| "tries_left (Announcing j) = (jb_retries j = 0)"
| "tries_left (Working j) = (jb_retries j = 0)"
| "tries_left (Reporting j _) = (jb_retries j = 0)"
| "tries_left (Failing _ _ _) = False"
| "tries_left (FailLogging _ _ _) = False"
| "tries_left _ = True"

fun record_tries_left :: "rphase \<Rightarrow> bool" where
  "record_tries_left (Consuming kvs) = first_try kvs"
| "record_tries_left (Processing kvs ph) = tries_left ph"
| "record_tries_left _ = True"

definition first_tries :: "message \<Rightarrow> bool" where
  "first_tries m \<longleftrightarrow> (\<forall>kvs. ms_value m = Inr (PDict kvs) \<longrightarrow> first_try kvs)"

lemma tries_left_gives_up: "tries_left ph \<Longrightarrow> \<not> gives_up ph"
  by (cases ph) simp_all

lemma process_tries_left:
  assumes "1 < PROCESSING_MAX_RETRIES cfg" "tries_left ph" shows "tries_left (fst (process_step cfg env ph s))"
  using assms
  by (cases ph) (auto simp: process_defs Let_def first_try_def job_of_def py_or_def split: process_splits)

lemma field_append: "field (kvs @ [(k, v)]) k' = (if map_of kvs k' = None \<and> k = k' then v else field kvs k')"
  by (auto simp: field_def split: option.split)

lemma first_try_position: "first_try (with_position m kvs) = first_try kvs"
  by (simp add: first_try_def with_position_def setdefault_def field_append)

lemma on_record_error_tries: "record_tries_left (fst (on_record_error v c))"
  by (cases v) (simp_all add: on_record_error_def Let_def)

lemma record_step_tries:
  assumes "1 < PROCESSING_MAX_RETRIES cfg" "first_tries m" "record_tries_left ph"
  shows "record_tries_left (fst (record_step cfg env m ph c))"
proof (cases ph)
  case (Processing kvs q)
  then show ?thesis using process_tries_left [OF assms(1), of q "re_process env" c] assms(3) on_record_error_tries
    by (cases q) (auto simp: step_process_def Let_def split: bool.split prod.split simp del: process_step.simps)
qed (use assms(2,3) on_record_error_tries in \<open>auto simp: step_begin_def step_consume_def step_recover_def step_leave_def
  Let_def first_tries_def first_try_position split: prod.split sum.split pyval.split\<close>)

lemma record_step_unfailed:
  assumes "record_tries_left ph" "none_failed (lc_db c)" shows "none_failed (lc_db (snd (record_step cfg env m ph c)))"
proof (cases ph)
  case (Processing kvs q)
  have err: "none_failed (lc_db (snd (on_record_error v c)))" for v
    using assms(2) by (cases v) (simp_all add: on_record_error_def Let_def)
  show ?thesis using Processing unfailed.unfailing_step_keeps [of q c cfg "re_process env"] tries_left_gives_up [of q] assms err
    by (cases q) (auto simp: step_process_def Let_def split: bool.split prod.splits simp del: process_step.simps)
next
  case Waiting
  then show ?thesis using assms(2)
    by (auto simp: step_begin_def Let_def on_record_error_def split: sum.split pyval.split)
next
  case (Consuming kvs)
  have "lc_db (snd (on_record_error v c')) = lc_db c'" for v c' by (cases v) (simp_all add: on_record_error_def Let_def)
  then show ?thesis using Consuming assms(2)
    by (auto simp: step_consume_def split: prod.split sum.split dest: unfailed.on_lc_keeps [OF unfailed.keeps_worker_append_event])
qed (use assms(2) in \<open>auto simp: step_recover_def step_leave_def split: prod.split sum.split
  dest: unfailed.on_lc_keeps [OF unfailed.keeps_worker_append_event]\<close>)

lemma handle_record_unfailed:
  assumes "1 < PROCESSING_MAX_RETRIES cfg" "first_tries m" "none_failed (lc_db c)"
  shows "none_failed (lc_db (snd (handle_record cfg env m c)))"
proof -
  let ?P = "\<lambda>ph c. record_tries_left ph \<and> none_failed (lc_db c)"
  have "?P (fst (run_phases (record_step cfg env m) record_fuel (Waiting, c))) (snd (run_phases (record_step cfg env m) record_fuel (Waiting, c)))"
    by (rule records.run_invariant [where P = ?P]) (use assms record_step_tries record_step_unfailed in auto)
  then show ?thesis by (simp add: handle_record_def)
qed

lemma run_records_unfailed:
  assumes "1 < PROCESSING_MAX_RETRIES cfg"
  shows "(\<forall>(m, env) \<in> set ms. first_tries m) \<Longrightarrow> none_failed (lc_db c) \<Longrightarrow> none_failed (lc_db (snd (run_records cfg ms c)))"
proof (induction ms arbitrary: c)
  case (Cons x ms)
  obtain m env where x: "x = (m, env)" by force
  obtain ph c1 where h: "handle_record cfg env m c = (ph, c1)" by force
  have "none_failed (lc_db c1)" using handle_record_unfailed [OF assms, of m c env] Cons.prems x h by auto
  then have "none_failed (lc_db (snd (run_records cfg ms c1)))" using Cons by auto
  then show ?case using x h by (cases "run_records cfg ms c1") simp
qed simp

text \<open>C31: FAILED is never reached on payloads such as the API publishes: whatever fails in whatever
  rounds of the loop, a document that has not been given up is not given up, where the payloads
  carry no retry count and the budget is above one attempt.\<close>

theorem published_documents_never_fail:
  assumes "1 < PROCESSING_MAX_RETRIES cfg" "none_failed (lc_db (fst s))"
    "\<forall>env \<in> set envs. \<forall>batch. po_batch env = Inr batch \<longrightarrow> (\<forall>tp ms m r. (tp, ms) \<in> set batch \<longrightarrow> (m, r) \<in> set ms \<longrightarrow> first_tries m)"
  shows "none_failed (lc_db (fst (consume_rounds cfg envs s)))"
  using assms(2,3)
proof (induction envs arbitrary: s)
  case (Cons env envs)
  have "none_failed (lc_db (fst (snd (consume_once cfg env s))))"
  proof (cases "po_batch env")
    case (Inr batch)
    then have "\<forall>(m, r) \<in> set (concat (map snd batch)). first_tries m" using Cons.prems(2) by force
    from run_records_unfailed [OF assms(1) this Cons.prems(1)] show ?thesis
      using Inr Cons.prems(1) by (auto simp: consume_once_def Let_def split: prod.split sum.split list.split)
  qed (use Cons.prems in \<open>simp add: consume_once_def\<close>)
  then show ?case using Cons by simp
qed simp

theorem published_documents_never_fail_witness:
  "none_failed (lc_db (fst (consume_rounds default_worker_settings
     [example_poll example_message (example_process\<lparr>pe_save := FailsBefore\<rparr>), example_poll example_message example_process]
     (example_worker, \<lparr>kc_position = (\<lambda>_. 0), kc_committed = (\<lambda>_. 0)\<rparr>))))"
  by (rule published_documents_never_fail)
     (auto simp: default_worker_settings_def none_failed_def example_row_def example_poll_def first_tries_def first_try_def
       example_message_def example_payload_def field_def)

section \<open>What is committed\<close>

text \<open>A record that the consumer's own events can be written about, and an attempt at it whose save fails.\<close>

definition readable :: "message \<Rightarrow> (string \<times> pyval) list \<Rightarrow> bool" where
  "readable m kvs \<longleftrightarrow>
     text_field (field kvs ''agency_id'') \<and> int_field 64 (field kvs ''sequence_number'') \<and>
     int_field 32 (PInt (ms_partition m)) \<and> int_field 64 (PInt (ms_offset m))"

lemma with_position_nonempty [simp]: "with_position m kvs \<noteq> []"
  by (auto simp: with_position_def setdefault_def)

lemma record_event_ok:
  assumes "readable m kvs" "CHR 0x00 \<notin> set msg" "serialisable md"
  shows "event_fields_ok (record_event c m kvs ty sev msg md)"
  using assms by (simp add: event_fields_ok_def record_event_def readable_def)

lemma consumed_step:
  assumes "lc_pool c" "ms_value m = Inr (PDict kvs)" "document_of (with_position m kvs) = PStr (uuid_str u)"
    "readable m (with_position m kvs)" "re_consumed r = NoFault" "find_document u (lc_db c) = Some d"
    "re_consumed_id r \<notin> event_id ` set (events (lc_db c))"
  obtains c1 where "rruns cfg r m (Waiting, c) = rruns cfg r m (Processing (with_position m kvs) (Entering (with_position m kvs)), c1)"
    "lc_pool c1" "find_document u (lc_db c1) = Some d" "results (lc_db c1) = results (lc_db c)"
    "event_id ` set (events (lc_db c1)) = insert (re_consumed_id r) (event_id ` set (events (lc_db c)))"
proof -
  let ?kvs = "with_position m kvs"
  let ?c = "c\<lparr>cn_state := ''PROCESSING'', cn_active := cn_active c + 1, cn_document := document_of ?kvs\<rparr>"
  have "event_fields_ok (consumed_event ?c m ?kvs)"
    unfolding consumed_event_def by (rule record_event_ok [OF assms(4)]) simp_all
  moreover have "we_document (consumed_event ?c m ?kvs) = PStr (uuid_str u)"
    using assms(3) by (simp add: consumed_event_def record_event_def)
  ultimately obtain db' where ev: "worker_append_event (consumed_event ?c m ?kvs) (re_consumed_id r) (lc_db c) = (Inr (), db')"
    and r: "find_document u db' = Some d" "results db' = results (lc_db c)"
      "event_id ` set (events db') = insert (re_consumed_id r) (event_id ` set (events (lc_db c)))"
    by (rule worker_event_ok [OF _ _ assms(6,7)])
  have "rruns cfg r m (Waiting, c) = rruns cfg r m (Consuming ?kvs, ?c)"
    using assms(1,2) by (subst rruns_step) (simp add: step_begin_def Let_def)
  also have "\<dots> = rruns cfg r m (Processing ?kvs (Entering ?kvs), ?c\<lparr>lc_db := db'\<rparr>)"
    using ev assms(5) by (subst rruns_step) (simp add: step_consume_def on_lc_def)
  finally show ?thesis using r assms(1) by (intro that [of "?c\<lparr>lc_db := db'\<rparr>"]) simp_all
qed

definition failing_attempt :: "record_env \<Rightarrow> bool" where
  "failing_attempt r \<longleftrightarrow>
     pe_save (re_process r) = FailsBefore \<and> pe_retry (re_process r) = NoFault \<and> pe_retry_log (re_process r) = NoFault \<and>
     pe_fail (re_process r) = NoFault \<and> pe_fail_log (re_process r) = NoFault \<and> CHR 0x00 \<notin> set (pe_error (re_process r)) \<and>
     re_consumed r = NoFault \<and> re_failed r = NoFault \<and> CHR 0x00 \<notin> set (re_error r)"

lemma failing_record:
  assumes "lc_pool c" "ms_value m = Inr (PDict kvs)" "payload_ok cfg u (with_position m kvs) n" "readable m (with_position m kvs)"
    "find_document u (lc_db c) = Some d" "\<not> has_result u (lc_db c)" "failing_attempt r" "begins_well (re_process r) (lc_db c)"
    "distinct (re_consumed_id r # re_failed_id r # pe_ids (re_process r))"
    "re_consumed_id r \<notin> event_id ` set (events (lc_db c))" "re_failed_id r \<notin> event_id ` set (events (lc_db c))"
    "pg_int4 (n + 1) = Inr (n + 1)"
  obtains c' d' where "handle_record cfg r m c = (Gone None, c')" "find_document u (lc_db c') = Some d'"
    "doc_status d' = (if n + 1 < PROCESSING_MAX_RETRIES cfg then RETRYING else FAILED)" "\<not> has_result u (lc_db c')"
proof -
  let ?kvs = "with_position m kvs" and ?q = "re_process r"
  note fa = assms(7) [unfolded failing_attempt_def]
  have doc: "document_of ?kvs = PStr (uuid_str u)" using assms(3) by (simp add: payload_ok_def)
  obtain c1 where run: "rruns cfg r m (Waiting, c) = rruns cfg r m (Processing ?kvs (Entering ?kvs), c1)"
    and c1: "lc_pool c1" "find_document u (lc_db c1) = Some d" "results (lc_db c1) = results (lc_db c)"
      "event_id ` set (events (lc_db c1)) = insert (re_consumed_id r) (event_id ` set (events (lc_db c)))"
    using fa by (blast intro: consumed_step [OF assms(1,2) doc assms(4) _ assms(5,10)])
  have "begins_well ?q (lc_db c1)" using assms(8,9) c1(3,4) by (auto simp: begins_well_def)
  moreover have "\<not> has_result u (lc_db c1)" using assms(6) c1(3) by (simp add: has_result_def)
  ultimately obtain s' d' where r: "pruns cfg ?q (Entering ?kvs, c1) = (Raised ExternalError, s')" "lc_pool s'"
    "find_document u (lc_db s') = Some d'" "\<not> has_result u (lc_db s')"
    "event_id ` set (events (lc_db s')) \<subseteq> set (pe_ids ?q) \<union> event_id ` set (events (lc_db c1))"
    "doc_status d' = (if n + 1 < PROCESSING_MAX_RETRIES cfg then RETRYING else FAILED)"
    using fa by (blast intro: failing_save [OF c1(1) assms(3) _ c1(2) _ _ _ _ _ _ assms(12)])
  let ?s = "s'\<lparr>cn_failed := cn_failed s' + 1\<rparr>"
  let ?e = "record_event ?s m ?kvs PROCESSING_FAILED ERROR (re_error r) (PDict [])"
  have "event_fields_ok ?e" using fa by (intro record_event_ok assms(4)) simp_all
  moreover have "we_document ?e = PStr (uuid_str u)" using doc by (simp add: record_event_def)
  moreover have "re_failed_id r \<notin> event_id ` set (events (lc_db s'))" using r(5) c1(4) assms(9,11) by auto
  ultimately obtain db' where ev: "worker_append_event ?e (re_failed_id r) (lc_db s') = (Inr (), db')"
    and db': "find_document u db' = Some d'" "results db' = results (lc_db s')"
    using worker_event_ok r(3) by metis
  have "rruns cfg r m (Processing ?kvs (Entering ?kvs), c1) = rruns cfg r m (Processing ?kvs (Raised ExternalError), s')"
    by (rule rruns_process [OF r(1)])
  also have "\<dots> = rruns cfg r m (Recovering ?kvs, ?s)"
    using r(2) doc by (subst rruns_step) (simp add: step_process_def on_record_error_def Let_def)
  also have "\<dots> = rruns cfg r m (Leaving None, ?s\<lparr>lc_db := db'\<rparr>)"
    using ev fa by (subst rruns_step) (simp add: step_recover_def on_lc_def)
  also have "\<dots> = rruns cfg r m (step_leave r None (?s\<lparr>lc_db := db'\<rparr>))"
    by (subst rruns_step) simp
  also have "\<dots> = step_leave r None (?s\<lparr>lc_db := db'\<rparr>)" by (simp add: step_leave_def rruns_gone)
  finally have "handle_record cfg r m c = step_leave r None (?s\<lparr>lc_db := db'\<rparr>)" using run by (simp add: handle_record_rruns)
  then show ?thesis using db' r(4,6)
    by (intro that [of "snd (step_leave r None (?s\<lparr>lc_db := db'\<rparr>))" d']) (auto simp: step_leave_def has_result_def)
qed



section \<open>Records that cannot be read\<close>

text \<open>A record whose value does not decode to JSON is dropped: it is counted as failed, nothing is
  written to the database or to a dead-letter topic, and the round commits the offset behind it.\<close>

theorem undecodable_record_is_dropped:
  assumes "ms_value m = Inl e" "po_batch env = Inr [(tp, [(m, r)])]" "po_commit env = NoFault"
  shows "\<exists>c' k'. consume_once cfg env (c, k) = (Committed, c', k') \<and> lc_db c' = lc_db c \<and>
    cn_failed c' = cn_failed c + 1 \<and> kc_committed k' tp = ms_offset m + 1"
proof -
  let ?c = "c\<lparr>cn_state := ''PROCESSING'', cn_active := cn_active c + 1, cn_failed := cn_failed c + 1\<rparr>"
  have "rruns cfg r m (Waiting, c) = rruns cfg r m (Leaving None, ?c)"
    using assms(1) by (subst rruns_step) (simp add: step_begin_def on_record_error_def Let_def)
  also have "\<dots> = rruns cfg r m (step_leave r None ?c)" by (subst rruns_step) simp
  finally have "handle_record cfg r m c = step_leave r None ?c" by (simp add: handle_record_rruns step_leave_def rruns_gone)
  then show ?thesis using assms(2,3)
    by (simp add: consume_once_def step_leave_def Let_def fetched_def commit_def observe_def)
qed

theorem undecodable_record_is_dropped_witness:
  "\<exists>c' k'. consume_once default_worker_settings (example_poll (example_message\<lparr>ms_value := Inl ValueError\<rparr>) example_process)
     (example_worker, \<lparr>kc_position = (\<lambda>_. 0), kc_committed = (\<lambda>_. 0)\<rparr>) = (Committed, c', k') \<and>
     lc_db c' = lc_db example_worker \<and> kc_committed k' (''t'', 3) = 8"
  using undecodable_record_is_dropped [of "example_message\<lparr>ms_value := Inl ValueError\<rparr>" ValueError
      "example_poll (example_message\<lparr>ms_value := Inl ValueError\<rparr>) example_process" "(''t'', 3)"
      "example_record example_process" default_worker_settings example_worker "\<lparr>kc_position = (\<lambda>_. 0), kc_committed = (\<lambda>_. 0)\<rparr>"]
  by (auto simp: example_poll_def example_message_def)

text \<open>A value that is JSON but no object makes the error handler itself raise.\<close>

lemma poison_record:
  assumes "lc_pool c" "ms_value m = Inr v" "truthy v" "\<forall>kvs. v \<noteq> PDict kvs"
  shows "fst (handle_record cfg r m c) = Gone (Some AttributeError)"
proof -
  obtain c1 where c1: "step_begin m c = (Leaving (Some AttributeError), c1)"
    using assms by (cases v) (auto simp: step_begin_def on_record_error_def Let_def)
  have "rruns cfg r m (Waiting, c) = rruns cfg r m (Leaving (Some AttributeError), c1)"
    using c1 by (subst rruns_step) simp
  also have "\<dots> = rruns cfg r m (step_leave r (Some AttributeError) c1)" by (subst rruns_step) simp
  finally show ?thesis by (simp add: handle_record_rruns step_leave_def rruns_gone)
qed

lemma poison_run:
  assumes "ms_value m = Inr v" "truthy v" "\<forall>kvs. v \<noteq> PDict kvs"
  shows "(m, r) \<in> set ms \<Longrightarrow> lc_pool c \<Longrightarrow> fst (run_records cfg ms c) \<noteq> []"
proof (induction ms arbitrary: c)
  case (Cons x ms)
  obtain m' r' where x: "x = (m', r')" by force
  obtain ph c1 where h: "handle_record cfg r' m' c = (ph, c1)" by force
  have "lc_pool c1" using handle_record_tally [OF h] Cons.prems(2) by simp
  moreover have "ph = Gone (Some AttributeError)" if "(m', r') = (m, r)"
    using poison_record [OF Cons.prems(2) assms, of cfg r] that h by simp
  ultimately show ?case using Cons x h
    by (cases "run_records cfg ms c1") (auto split: rphase.split option.split dest: Cons.IH)
qed simp



end
