(* ===== verification/Pipeline.thy ===== *)
theory Pipeline imports ApiProperties ConsumerProperties begin

text \<open>
  The API and a worker together: they share the database, and the records the API hands to the
  broker are the messages a worker takes up.  A message comes with what \<^verbatim>\<open>json.loads\<close> gives of its
  value, which for a record of the API is the payload it was made from.
\<close>

section \<open>The payload on its way\<close>

definition delivered :: "settings \<Rightarrow> parsed \<Rightarrow> (string \<times> pyval) list \<Rightarrow> kafka_record \<Rightarrow> int \<Rightarrow> message" where
  "delivered cfg p pl q off = \<lparr>
     ms_topic = rec_topic q, ms_partition = rec_partition q, ms_offset = off,
     ms_value = Inr (PDict (with_sharding cfg (p_agency p) (rec_partition q) pl))\<rparr>"

text \<open>The settings of the two services that have to fit each other and the database's columns.\<close>

definition services_fit :: "settings \<Rightarrow> worker_settings \<Rightarrow> bool" where
  "services_fit cfg wcfg \<longleftrightarrow>
     0 < KAFKA_NUM_PARTITIONS cfg \<and> KAFKA_NUM_PARTITIONS cfg \<le> 2 ^ 31 \<and> clean (KAFKA_TOPIC_INGEST cfg) \<and>
     KAFKA_TOPIC_INGEST_W wcfg \<noteq> [] \<and> clean (KAFKA_TOPIC_INGEST_W wcfg)"

lemma services_fit_default: "services_fit default_settings default_worker_settings"
  by (simp add: services_fit_def default_settings_def default_worker_settings_def clean_def)

lemma field_simps:
  "field kvs k = (case map_of kvs k of None \<Rightarrow> PNone | Some v \<Rightarrow> v)"
  "map_of (setdefault k v kvs) = (\<lambda>k'. if k' = k \<and> map_of kvs k = None then Some v else map_of kvs k')"
  by (auto simp: field_def setdefault_def map_add_def fun_eq_iff split: option.split)

text \<open>Every payload of the API is one that the worker can process: it names its document, carries no
  retry count, and fits the columns.\<close>

lemma delivered_payload:
  assumes "services_fit cfg wcfg" "storable p key" "carries mm cfg p (event_payload env d n) q"
    "rec_topic q = KAFKA_TOPIC_INGEST cfg" "dr_job d = uuid_str u" "dr_parsed d = p"
    "- (2 ^ 63) \<le> n" "n < 2 ^ 63" "- (2 ^ 63) \<le> off" "off < 2 ^ 63"
  defines "m \<equiv> delivered cfg p (event_payload env d n) q off"
    and "kvs \<equiv> with_sharding cfg (p_agency p) (rec_partition q) (event_payload env d n)"
  shows "ms_value m = Inr (PDict kvs)" "first_tries m"
    "payload_ok wcfg u (with_position m kvs) 0" "readable m (with_position m kvs)"
proof -
  show v: "ms_value m = Inr (PDict kvs)" by (simp add: m_def kvs_def delivered_def)
  obtain ag where ag: "p_agency p = PStr ag" "clean ag" using assms(2) by (auto simp: storable_def)
  have "0 \<le> rec_partition q" "rec_partition q < KAFKA_NUM_PARTITIONS cfg"
    using assms(1,3) hash_key_to_partition_range by (auto simp: carries_def services_fit_def)
  then have part: "- (2 ^ 31) \<le> rec_partition q" "rec_partition q < 2 ^ 31" using assms(1) by (auto simp: services_fit_def)
  let ?kvs = "with_position m kvs"
  have f: "field ?kvs ''document_id'' = PNone" "field ?kvs ''job_id'' = PStr (uuid_str u)"
    "field ?kvs ''retry_count'' = PNone" "field ?kvs ''agency_id'' = PStr ag" "field ?kvs ''sequence_number'' = PInt n"
    "field ?kvs ''kafka_topic'' = PStr (KAFKA_TOPIC_INGEST cfg)" "field ?kvs ''kafka_partition'' = PInt (rec_partition q)"
    "field ?kvs ''kafka_offset'' = PInt off"
    by (simp_all add: field_simps with_position_def kvs_def with_sharding_def m_def delivered_def event_payload_def assms(4-6) ag)
  have "field kvs ''retry_count'' = PNone" using f(3) by (simp add: field_simps with_position_def split: if_splits)
  then show "first_tries m" using v by (simp add: first_tries_def first_try_def)
  have doc: "document_of ?kvs = PStr (uuid_str u)" by (simp add: document_of_def f py_or_def)
  have "py_int (py_or PNone (PInt 0)) = Inr 0" by (simp add: py_or_def)
  moreover have "py_str (py_or (PStr (uuid_str u)) (PStr [])) = uuid_str u" by (simp add: py_or_def py_str_def)
  ultimately show "payload_ok wcfg u ?kvs 0"
    using assms(1,7-10) part ag doc
    by (simp add: payload_ok_def f job_ok_def job_of_def text_field_def int_field_def services_fit_def clean_def)
  have "ms_partition m = rec_partition q" "ms_offset m = off" by (simp_all add: m_def delivered_def)
  then show "readable m ?kvs"
    using assms(7-10) part ag by (simp add: readable_def f text_field_def int_field_def clean_def)
qed

section \<open>From acceptance to completion\<close>

text \<open>A worker's handling of one record that meets no failure.\<close>

definition smooth_handling :: "record_env \<Rightarrow> database \<Rightarrow> bool" where
  "smooth_handling r db \<longleftrightarrow>
     re_consumed r = NoFault \<and> re_consumed_id r \<notin> event_id ` set (events db) \<and>
     re_consumed_id r \<notin> set (pe_ids (re_process r)) \<and> peaceful (re_process r) db"

lemma smooth_record:
  assumes "lc_pool c" "ms_value m = Inr (PDict kvs)" "payload_ok wcfg u (with_position m kvs) n" "readable m (with_position m kvs)"
    "find_document u (lc_db c) = Some d" "\<not> has_result u (lc_db c)" "smooth_handling r (lc_db c)"
  obtains c' d' where "handle_record wcfg r m c = (Gone None, c')" "find_document u (lc_db c') = Some d'"
    "doc_status d' = COMPLETED" "has_result u (lc_db c')"
proof -
  let ?kvs = "with_position m kvs" and ?q = "re_process r"
  have doc: "document_of ?kvs = PStr (uuid_str u)" using assms(3) by (simp add: payload_ok_def)
  obtain c1 where run: "rruns wcfg r m (Waiting, c) = rruns wcfg r m (Processing ?kvs (Entering ?kvs), c1)"
    and c1: "lc_pool c1" "find_document u (lc_db c1) = Some d" "results (lc_db c1) = results (lc_db c)"
      "event_id ` set (events (lc_db c1)) = insert (re_consumed_id r) (event_id ` set (events (lc_db c)))"
    using assms(7) unfolding smooth_handling_def by (blast intro: consumed_step [OF assms(1,2) doc assms(4) _ assms(5)])
  have "peaceful ?q (lc_db c1)" using assms(7) c1(3,4) by (auto simp: smooth_handling_def peaceful_def begins_well_def)
  moreover have "\<not> has_result u (lc_db c1)" using assms(6) c1(3) by (simp add: has_result_def)
  ultimately obtain s' d' where r: "pruns wcfg ?q (Entering ?kvs, c1) = (Returned True, s')"
    "find_document u (lc_db s') = Some d'" "doc_status d' = COMPLETED" "has_result u (lc_db s')"
    by (rule completes [OF c1(1) assms(3) _ c1(2)])
  let ?s = "snd (step_process wcfg r ?kvs (Returned True) s')"
  have "rruns wcfg r m (Processing ?kvs (Entering ?kvs), c1) = rruns wcfg r m (Processing ?kvs (Returned True), s')"
    by (rule rruns_process [OF r(1)])
  also have "\<dots> = rruns wcfg r m (Leaving None, ?s)" by (subst rruns_step) (simp add: step_process_def Let_def)
  also have "\<dots> = rruns wcfg r m (step_leave r None ?s)" by (subst rruns_step) simp
  also have "\<dots> = step_leave r None ?s" by (simp add: step_leave_def rruns_gone)
  finally have "handle_record wcfg r m c = step_leave r None ?s" using run by (simp add: handle_record_rruns)
  then show ?thesis
    using r by (intro that [of "snd (step_leave r None ?s)" d']) (simp_all add: step_leave_def step_process_def Let_def)
qed

text \<open>A worker forgets no document and no key.\<close>

lemma has_document_documents: "documents db' = documents db \<Longrightarrow> has_document u k db' = has_document u k db"
  by (simp add: has_document_def)

interpretation worker_retention: worker_invariant "has_document u k" for u k
proof unfold_locales
  fix r t p f w tm db v db'
  assume run: "transaction (op_bind (insert_result r) (\<lambda>_.
      update_document (result_document r) (completed_row t p f w tm))) db = (Inr v, db')"
    and inv: "has_document u k db"
  then obtain db1 where 1: "insert_result r db = (Inr (), db1)"
    and 2: "update_document (result_document r) (completed_row t p f w tm) db1 = (Inr v, db')"
    unfolding op_Inr by auto
  have "has_document u k db1" using insert_result_has [OF 1] inv has_document_documents by metis
  then have "has_document u k (snd (update_document (result_document r) (completed_row t p f w tm) db1))"
    by (rule has_document_update [rotated]) simp
  then show "has_document u k db'" using 2 by simp
next
  fix e show "keeps (has_document u k) (insert_event e)"
    by (rule keepsI) (auto simp: insert_event_def has_document_def)
next
  fix wr show "keeps (has_document u k) (upsert_worker wr)"
    by (rule keepsI) (auto simp: upsert_worker_def has_document_def)
next
  fix w rep doc now show "keeps (has_document u k) (update_worker w (heartbeat_row rep doc now))"
    by (rule keepsI) (auto simp: update_worker_def has_document_def)
qed (auto intro!: keepsI has_document_update)

lemma document_key:
  assumes "db_inv db" "has_document u k db" "find_document u db = Some d" shows "idempotency_key d = k"
proof -
  obtain e where e: "e \<in> set (documents db)" "document_id e = u" "idempotency_key e = k"
    using assms(2) by (auto simp: has_document_def)
  have "distinct (map document_id (documents db))" using assms(1) by (simp add: db_inv_def)
  then have "find_document u db = Some e" using e(1,2) by (auto simp: find_document_def intro: find_distinct)
  then show ?thesis using assms(3) e(3) by simp
qed


text \<open>The example's request accepted, and its document ready for a worker.\<close>

lemma example_accepted:
  obtains resp a row where "ingest None default_settings (example_request ''a'') (example_env 0) (example_app b) = (Finished resp, a)"
    "reachable None default_settings (example_app b) \<lparr>sys_app = a, sys_calls = [(example_request ''a'', example_env 0, Finished resp)]\<rparr>"
    "resp_status resp = 202" "documents (a_db a) = [row]" "document_id row = 1" "results (a_db a) = []"
    "smooth_handling (example_record example_process) (a_db a)" "event_id ` set (events (a_db a)) = {2, 3, 4}"
proof -
  obtain resp a row where r: "ingest None default_settings (example_request ''a'') (example_env 0) (example_app b) = (Finished resp, a)"
    "resp_status resp = 202" "documents (a_db a) = [row]" "document_id row = 1" "event_id ` set (events (a_db a)) = {2, 3, 4}"
    "reachable None default_settings (example_app b) \<lparr>sys_app = a, sys_calls = [(example_request ''a'', example_env 0, Finished resp)]\<rparr>"
    by (rule example_first [of None b])
  have i: "db_inv (a_db (example_app b))" "sequences_dense (a_db (example_app b))" "length (documents (a_db (example_app b))) < 2 ^ 62"
    using example_start(4) [of None b] by (simp_all add: app_inv_def example_start)
  obtain resp' a' where "ingest None default_settings (example_request ''a'') (example_env 0) (example_app b) = (Finished resp', a')"
    "results (a_db a') = results (a_db (example_app b))"
    by (rule ingest_published [OF example_start(1) example_env_ok(2) example_fresh(2) example_start(2,3) i, of None]) blast
  then have res: "results (a_db a) = []" using r(1) by (simp add: example_app_def app_startup_def new_app_def empty_database_def)
  have "peaceful example_process (a_db a)"
    using example_peaceful r(5) res by (auto simp: peaceful_def begins_well_def example_process_def)
  then have "smooth_handling (example_record example_process) (a_db a)"
    using r(5) by (simp add: smooth_handling_def example_record_def example_process_def)
  then show ?thesis using r res by (intro that)
qed


section \<open>A race\<close>

text \<open>C27: a worker that is faster than the API's update of the published document loses its status: the
  update sets a COMPLETED document back to QUEUED, its result is kept, and no redelivery of its
  event changes that again, since a document with a result is skipped.\<close>

theorem late_update_hides_completion:
  assumes "a_pool a" "ev_update env = NoFault" "dr_job d = uuid_str u" "find_document u (a_db a) = Some row"
    "doc_status row = COMPLETED" "has_result u (a_db a)" "lc_pool c" "lc_db c = a_db (snd (handler_step mm cfg rq env (Updating d bm) a))"
    "document_of kvs = PStr (uuid_str u)" "pe_check penv = NoFault"
  shows "\<exists>row'. find_document u (lc_db c) = Some row' \<and> doc_status row' = QUEUED \<and> has_result u (lc_db c) \<and>
    process_event wcfg penv kvs c = (Returned True, c)"
proof -
  let ?f = "apply_update (published_update bm) (ev_update_now env)"
  have "lc_db c = snd (update_document u ?f (a_db a))"
    using assms(2,3,8)
    by (simp add: step_update_def on_db_def with_fault_NoFault update_document_metadata_def transaction_def
        op_bind_def op_lift_def parse_uuid_str update_document_def)
  moreover have "document_id (?f x) = document_id x" for x by (simp add: apply_update_def)
  ultimately have "find_document u (lc_db c) = Some (?f row)" "has_result u (lc_db c)"
    using find_update_document [OF assms(4)] assms(6) by (simp_all add: has_result_def update_document_def)
  moreover have "process_event wcfg penv kvs c = (Returned True, c)"
    unfolding process_event_pruns using skips_completed [OF assms(7,9,10) calculation(2)] .
  ultimately show ?thesis by (intro exI [of _ "?f row"]) (simp add: apply_update_def published_update_def given_def)
qed

theorem late_update_hides_completion_witness:
  "\<exists>(c :: consumer) row'. find_document 1 (lc_db c) = Some row' \<and> doc_status row' = QUEUED \<and> has_result 1 (lc_db c)"
proof -
  obtain s' d' where r: "pruns default_worker_settings example_process (Entering example_payload, example_worker) = (Returned True, s')"
    "find_document 1 (lc_db s') = Some d'" "doc_status d' = COMPLETED" "has_result 1 (lc_db s')"
    by (rule completes [OF example_worker_fields(1) example_payload_ok example_peaceful example_worker_fields(2,3)])
  let ?a = "(example_app False)\<lparr>a_db := lc_db s'\<rparr>"
  have "dr_job ((undefined :: draft)\<lparr>dr_job := uuid_str 1\<rparr>) = uuid_str 1" by simp
  then obtain d :: draft where d: "dr_job d = uuid_str 1" by blast
  have a: "a_pool ?a" using example_fresh(2) by simp
  have e: "ev_update (example_env 0) = NoFault" "pe_check example_process = NoFault"
    by (simp_all add: example_env_def example_process_def)
  have f: "find_document 1 (a_db ?a) = Some d'" "has_result 1 (a_db ?a)" using r by simp_all
  let ?c = "example_worker\<lparr>lc_db := a_db (snd (handler_step None default_settings (example_request ''a'') (example_env 0)
      (Updating d \<lparr>bm_topic = [], bm_partition = 0, bm_offset = 0, bm_status = []\<rparr>) ?a))\<rparr>"
  have p: "document_of example_payload = PStr (uuid_str 1)" using example_payload_ok by (simp add: payload_ok_def)
  have c: "lc_pool ?c" by simp
  from late_update_hides_completion [OF a e(1) d f(1) r(3) f(2) c _ p e(2)]
  have "\<exists>row'. find_document 1 (lc_db ?c) = Some row' \<and> doc_status row' = QUEUED \<and> has_result 1 (lc_db ?c)" by fastforce
  then show ?thesis by blast
qed

end
