(* ===== verification/JointSystem.thy ===== *)
theory JointSystem imports Pipeline begin

text \<open>
  The deployed system: one API under concurrent requests and any number of workers on one database.
  Workers join, register, poll, handle the records of their batches in any order, send heartbeats,
  stop or die; the API may be killed and started again.  \<^verbatim>\<open>joint_step\<close> is one step of any of them.
\<close>

section \<open>A worker by itself\<close>

text \<open>What a worker process does between two of its awaits: its start, a heartbeat, a poll once the
  records of the last batch are gone, a step of a record, its stop.\<close>

inductive worker_move :: "worker_settings \<Rightarrow> batch \<Rightarrow> batch \<Rightarrow> bool" for wcfg where
  starts: "worker_move wcfg b (b\<lparr>bt_consumer := worker_start db_ok f1 f2 h (bt_consumer b)\<rparr>)"
| beats: "worker_move wcfg b (b\<lparr>bt_consumer := heartbeat f wall now (bt_consumer b)\<rparr>)"
| polls: "cn_running (bt_consumer b) \<Longrightarrow> \<forall>t \<in> set (bt_tasks b). is_gone (snd (snd t)) \<Longrightarrow>
    worker_move wcfg b (new_batch wcfg (bt_consumer b) ms)"
| handles: "task_step wcfg b b' \<Longrightarrow> worker_move wcfg b b'"
| stops: "worker_move wcfg b (b\<lparr>bt_consumer := snd (worker_stop client f1 f2 h (bt_consumer b))\<rparr>)"

context worker_invariant
begin

lemma worker_move_keeps: "worker_move wcfg b b' \<Longrightarrow> P (lc_db (bt_consumer b)) \<Longrightarrow> P (lc_db (bt_consumer b'))"
  by (induction rule: worker_move.induct)
     (simp_all add: worker_start_keeps heartbeat_keeps worker_stop_keeps new_batch_def task_step_keeps)

end

lemma bind_active:
  assumes "cn_active (snd (m c)) = cn_active c" "\<And>v c. cn_active (snd (g v c)) = cn_active c"
  shows "cn_active (snd (op_bind m g c)) = cn_active c"
  using assms by (cases "m c") (auto simp: op_bind_def split: sum.split)

lemma on_lc_active [simp]: "cn_active (snd (on_lc m c)) = cn_active c"
  by (simp add: on_lc_def split: prod.split)

lemma worker_start_active: "cn_active (worker_start db_ok f1 f2 h c) = cn_active c"
  unfolding worker_start_def Let_def by (simp, intro impI, subst bind_active) simp_all

lemma heartbeat_active: "cn_active (heartbeat f wall now c) = cn_active c"
  by (auto simp: heartbeat_def Let_def observe_def on_lc_Pair split: prod.split sum.split)

lemma worker_stop_active: "cn_active (snd (worker_stop client f1 f2 h c)) = cn_active c"
  unfolding worker_stop_def by (intro bind_active) (auto simp: op_lift_def intro!: bind_active)

lemma busy_none: "\<forall>t \<in> set ts. is_gone (snd (snd t)) \<Longrightarrow> busy_tasks ts = 0"
  by (induction ts) (auto simp: busy_tasks_def busy_def)

lemma worker_move_inv: "worker_move wcfg b b' \<Longrightarrow> batch_inv wcfg b \<Longrightarrow> batch_inv wcfg b'"
proof (induction rule: worker_move.induct)
  case (polls b ms)
  then have "cn_active (bt_consumer b) = 0" "0 \<le> WORKER_CONCURRENCY wcfg"
    using busy_none [OF polls(2)] by (auto simp: batch_inv_def)
  then show ?case by (rule new_batch_inv)
qed (auto simp: batch_inv_def worker_start_active heartbeat_active worker_stop_active
  dest: task_step_inv [unfolded batch_inv_def])

section \<open>All of them on one database\<close>

record joint =
  jt_api :: system
  jt_workers :: "(worker_settings \<times> batch) list"

definition shared_db :: "joint \<Rightarrow> database" where
  "shared_db s = a_db (sys_app (jt_api s))"

definition with_db :: "database \<Rightarrow> system \<Rightarrow> system" where
  "with_db db s = s\<lparr>sys_app := (sys_app s)\<lparr>a_db := db\<rparr>\<rparr>"

definition sees :: "database \<Rightarrow> batch \<Rightarrow> batch" where
  "sees db b = b\<lparr>bt_consumer := (bt_consumer b)\<lparr>lc_db := db\<rparr>\<rparr>"

text \<open>A new API process on the same database, files and bucket, with its pool connected: the answers
  already given stand, the requests in progress are lost with the old process.\<close>

definition restarted_app :: "settings \<Rightarrow> bool py_result \<Rightarrow> unit py_result \<Rightarrow> bool \<Rightarrow> bool \<Rightarrow> app \<Rightarrow> app" where
  "restarted_app cfg bucket_exists make_bucket made started a =
     app_startup True bucket_exists make_bucket made started
       ((new_app cfg (has_client (a_store a)))\<lparr>
          a_store := (a_store a)\<lparr>remote_available := False\<rparr>, a_db := a_db a\<rparr>)"

definition answered :: "call \<Rightarrow> bool" where
  "answered c \<longleftrightarrow> is_finished (snd (snd c))"

inductive joint_step :: "murmur \<Rightarrow> settings \<Rightarrow> joint \<Rightarrow> joint \<Rightarrow> bool" for mm cfg where
  api: "sys_step mm cfg (jt_api s) s' \<Longrightarrow> joint_step mm cfg s (s\<lparr>jt_api := s'\<rparr>)"
| restarts: "joint_step mm cfg s (s\<lparr>jt_api := \<lparr>
     sys_app = restarted_app cfg bucket_exists make_bucket made started (sys_app (jt_api s)),
     sys_calls = filter answered (sys_calls (jt_api s))\<rparr>\<rparr>)"
| worker: "i < length (jt_workers s) \<Longrightarrow> jt_workers s ! i = (wcfg, b) \<Longrightarrow>
    worker_move wcfg (sees (shared_db s) b) b' \<Longrightarrow>
    joint_step mm cfg s \<lparr>jt_api = with_db (lc_db (bt_consumer b')) (jt_api s),
                         jt_workers = (jt_workers s)[i := (wcfg, b')]\<rparr>"
| joins: "0 \<le> WORKER_CONCURRENCY wcfg \<Longrightarrow>
    joint_step mm cfg s (s\<lparr>jt_workers := jt_workers s @ [(wcfg, new_batch wcfg (new_consumer wcfg env_id (shared_db s)) [])]\<rparr>)"
| dies: "joint_step mm cfg s (s\<lparr>jt_workers := take i (jt_workers s) @ drop (Suc i) (jt_workers s)\<rparr>)"

inductive joint_reach :: "murmur \<Rightarrow> settings \<Rightarrow> joint \<Rightarrow> joint \<Rightarrow> bool" for mm cfg s0 where
  start: "joint_reach mm cfg s0 s0"
| step: "joint_reach mm cfg s0 s \<Longrightarrow> joint_step mm cfg s s' \<Longrightarrow> joint_reach mm cfg s0 s'"

text \<open>A state to start from: an API that is up and has no request, on a database in which nothing is
  COMPLETED without a result, and workers that have nothing in hand.\<close>

definition joint_start :: "murmur \<Rightarrow> settings \<Rightarrow> joint \<Rightarrow> bool" where
  "joint_start mm cfg s \<longleftrightarrow>
     settings_ok cfg \<and> fresh_app mm cfg (sys_app (jt_api s)) \<and> a_pool (sys_app (jt_api s)) \<and>
     sys_calls (jt_api s) = [] \<and> completed_has_result (shared_db s) \<and>
     (\<forall>(wcfg, b) \<in> set (jt_workers s). batch_inv wcfg b)"

section \<open>What is kept\<close>

text \<open>The two contracts meet: a property of databases that the API's statements and the workers' keep.\<close>

context admission_invariant
begin

lemma sys_step_keeps: "sys_step mm cfg s s' \<Longrightarrow> P (a_db (sys_app s)) \<Longrightarrow> P (a_db (sys_app s'))"
  by (erule sys_step_cases) (simp, metis handler_keeps snd_conv system.select_convs(1))

end

lemma cog_insert_results: "results (snd (cog_insert nd ids db)) = results db"
proof -
  have "keeps (\<lambda>d. results d = results db) (cog_insert nd ids)"
    unfolding cog_insert_def Let_def
    by (intro op_keeps) (auto simp: keeps_def insert_document_def insert_event_def)
  then show ?thesis by (simp add: keeps_def)
qed

interpretation completion_admission: admission_invariant completed_has_result
proof unfold_locales
  fix job bm now show "keeps completed_has_result (update_document_metadata job (published_update bm) now)"
    unfolding update_document_metadata_def
    by (intro op_keeps keepsI completed_has_result_update) (auto simp: apply_update_def published_update_def given_def)
next
  fix ne fresh show "keeps completed_has_result (append_event ne fresh)"
    unfolding append_event_def by (intro op_keeps completion.keeps_event)
next
  fix nd ids show "keeps completed_has_result (cog_insert nd ids)"
  proof (rule keepsI)
    fix db assume "completed_has_result db"
    with cog_insert_results [of nd ids db] show "completed_has_result (snd (cog_insert nd ids db))"
      by (cases rule: cog_insert_cases [of nd ids db]) (auto simp: completed_has_result_def has_result_def)
  qed
qed

lemma sequences_dense_documents: "sequences_dense db \<Longrightarrow> documents db' = documents db \<Longrightarrow> sequences_dense db'"
  by (simp add: sequences_dense_def agency_sequence_def del: upt_Suc)

lemma keeps_dense_rows: "keeps_identity f \<Longrightarrow> keeps sequences_dense (update_document i f)"
  by (simp add: keeps_def sequences_dense_def)

interpretation worker_numbering: worker_invariant sequences_dense
proof unfold_locales
  fix r t p f w tm db v db'
  assume run: "transaction (op_bind (insert_result r) (\<lambda>_.
      update_document (result_document r) (completed_row t p f w tm))) db = (Inr v, db')"
    and inv: "sequences_dense db"
  then obtain db1 where 1: "insert_result r db = (Inr (), db1)"
    and 2: "update_document (result_document r) (completed_row t p f w tm) db1 = (Inr v, db')"
    unfolding op_Inr by auto
  have "sequences_dense db1" using insert_result_has [OF 1] inv sequences_dense_documents by metis
  then show "sequences_dense db'" using keeps_run [OF keeps_dense_rows _ 2] by simp
next
  fix e show "keeps sequences_dense (insert_event e)"
    by (rule keepsI) (auto simp: insert_event_def elim!: sequences_dense_documents)
next
  fix wr show "keeps sequences_dense (upsert_worker wr)"
    by (rule keepsI) (auto simp: upsert_worker_def elim!: sequences_dense_documents)
next
  fix w rep doc now show "keeps sequences_dense (update_worker w (heartbeat_row rep doc now))"
    by (rule keepsI) (auto simp: update_worker_def elim!: sequences_dense_documents)
qed (simp_all add: keeps_dense_rows)

lemma sys_inv_with_db:
  assumes "sys_inv mm cfg s" "db_inv db" "sequences_dense db"
    "\<And>u k. has_document u k (a_db (sys_app s)) \<Longrightarrow> has_document u k db"
  shows "sys_inv mm cfg (with_db db s)"
proof -
  have "claim_ok (sys_app (with_db db s)) c" if "claim_ok (sys_app s) c" for c
    using that assms(4) by (cases c) (fastforce simp: claim_ok_def with_db_def)
  then show ?thesis using assms(1-3) by (auto simp: sys_inv_def app_inv_def with_db_def)
qed

lemma answered_slots: "answered c \<Longrightarrow> slots (snd (snd c)) = 0"
  by (cases "snd (snd c)") (simp_all add: answered_def slots_def)

lemma held_answered: "held (filter answered cs) = 0"
  by (induction cs) (simp_all add: held_def answered_slots)

lemma claims_distinct_Cons:
  "claims_distinct (c # cs) \<longleftrightarrow> claims_distinct cs \<and>
     (\<forall>c' \<in> set cs. \<forall>u. claimed (snd (snd c)) = Some u \<longrightarrow> claimed (snd (snd c')) \<noteq> Some u)"
  (is "?l \<longleftrightarrow> ?r")
proof
  assume l: ?l
  have "claims_distinct cs"
    unfolding claims_distinct_def
  proof (intro allI impI)
    fix i j u assume "i < length cs" "j < length cs" "i \<noteq> j" "claimed (snd (snd (cs ! i))) = Some u"
    then show "claimed (snd (snd (cs ! j))) \<noteq> Some u"
      using l [unfolded claims_distinct_def, rule_format, of "Suc i" "Suc j" u] by simp
  qed
  moreover have "claimed (snd (snd c')) \<noteq> Some u" if c: "c' \<in> set cs" "claimed (snd (snd c)) = Some u" for c' u
  proof -
    obtain j where "j < length cs" "cs ! j = c'" using c(1) unfolding in_set_conv_nth by blast
    then show ?thesis using l [unfolded claims_distinct_def, rule_format, of 0 "Suc j" u] c(2) by simp
  qed
  ultimately show ?r by blast
next
  assume r: ?r
  show ?l
    unfolding claims_distinct_def
  proof (intro allI impI)
    fix i j u assume a: "i < length (c # cs)" "j < length (c # cs)" "i \<noteq> j" "claimed (snd (snd ((c # cs) ! i))) = Some u"
    show "claimed (snd (snd ((c # cs) ! j))) \<noteq> Some u"
    proof (cases i)
      case 0
      then obtain k where "j = Suc k" "k < length cs" using a(2,3) by (cases j) auto
      then show ?thesis using r a(4) 0 by simp
    next
      case i: (Suc k)
      then have k: "k < length cs" "claimed (snd (snd (cs ! k))) = Some u" using a(1,4) by auto
      show ?thesis
      proof (cases j)
        case 0
        then show ?thesis using r k nth_mem [OF k(1)] by auto
      next
        case (Suc l)
        then show ?thesis using r a(2,3) i k unfolding claims_distinct_def by auto
      qed
    qed
  qed
qed

lemma claims_distinct_filter: "claims_distinct cs \<Longrightarrow> claims_distinct (filter p cs)"
  by (induction cs) (auto simp: claims_distinct_Cons)

lemma restarted_app_fresh:
  assumes "settings_ok cfg" "app_inv mm cfg a" shows "fresh_app mm cfg (restarted_app cfg be mb made started a)"
proof -
  have "fresh_app mm cfg (app_startup True be mb made started (new_app cfg (has_client (a_store a))))"
    using assms(1) by (rule fresh_app_start)
  moreover have "cas_inv ((a_store a)\<lparr>remote_available := False\<rparr>)"
    using assms(2) by (simp add: app_inv_def cas_inv_def)
  ultimately show ?thesis using assms(2)
    by (auto simp: fresh_app_def app_inv_def restarted_app_def app_startup_def new_app_def intro: cas_inv_start)
qed

lemma sys_inv_restart:
  assumes "settings_ok cfg" "sys_inv mm cfg s" "a_pool (sys_app s)"
  shows "sys_inv mm cfg \<lparr>sys_app = restarted_app cfg be mb made started (sys_app s), sys_calls = filter answered (sys_calls s)\<rparr>"
proof -
  let ?a = "restarted_app cfg be mb made started (sys_app s)"
  have f: "fresh_app mm cfg ?a" using assms(1,2) by (intro restarted_app_fresh) (simp_all add: sys_inv_def)
  have d: "a_db ?a = a_db (sys_app s)" by (simp add: restarted_app_def app_startup_def)
  have "claim_ok ?a c" if "claim_ok (sys_app s) c" for c
    using that assms(3) by (cases c) (auto simp: claim_ok_def d)
  then show ?thesis
    using f assms(2) by (auto simp: sys_inv_def fresh_app_def held_answered claims_distinct_filter)
qed

definition joint_inv :: "murmur \<Rightarrow> settings \<Rightarrow> joint \<Rightarrow> bool" where
  "joint_inv mm cfg s \<longleftrightarrow>
     settings_ok cfg \<and> sys_inv mm cfg (jt_api s) \<and> a_pool (sys_app (jt_api s)) \<and> completed_has_result (shared_db s) \<and>
     (\<forall>(wcfg, b) \<in> set (jt_workers s). batch_inv wcfg b)"

lemma joint_start_inv: "joint_start mm cfg s \<Longrightarrow> joint_inv mm cfg s"
  by (cases "jt_api s") (auto simp: joint_start_def joint_inv_def dest: sys_inv_start)

lemma worker_move_shared:
  assumes inv: "joint_inv mm cfg s" and move: "worker_move wcfg (sees (shared_db s) b) b'"
  defines "db \<equiv> lc_db (bt_consumer b')"
  shows "sys_inv mm cfg (with_db db (jt_api s))" "completed_has_result db"
proof -
  have sees: "lc_db (bt_consumer (sees (shared_db s) b)) = shared_db s" by (simp add: sees_def)
  have "db_inv (shared_db s)" "sequences_dense (shared_db s)" "completed_has_result (shared_db s)"
    using inv by (simp_all add: joint_inv_def sys_inv_def app_inv_def shared_db_def)
  then have k: "db_inv db" "sequences_dense db" "completed_has_result db"
    using worker_constraints.worker_move_keeps [OF move] worker_numbering.worker_move_keeps [OF move]
      completion.worker_move_keeps [OF move] unfolding db_def sees by blast+
  have "has_document u k db" if "has_document u k (shared_db s)" for u k
    using worker_retention.worker_move_keeps [OF move] that unfolding db_def sees by blast
  then show "sys_inv mm cfg (with_db db (jt_api s))"
    using inv k(1,2) by (intro sys_inv_with_db) (simp_all add: joint_inv_def shared_db_def)
  show "completed_has_result db" by (rule k(3))
qed

lemma joint_step_inv:
  assumes "joint_step mm cfg s s'" and inv: "joint_inv mm cfg s" shows "joint_inv mm cfg s'"
  using assms(1)
proof cases
  case (api t)
  then show ?thesis using inv sys_step_inv [OF api(2)] sys_step_pool [OF api(2)] completion_admission.sys_step_keeps [OF api(2)]
    by (simp add: joint_inv_def shared_db_def)
next
  case (restarts be mb made started)
  then show ?thesis using inv sys_inv_restart [of cfg mm "jt_api s" be mb made started]
    by (simp add: joint_inv_def shared_db_def) (simp add: restarted_app_def app_startup_def)
next
  case (worker i wcfg b b')
  have "(wcfg, b) \<in> set (jt_workers s)" using worker(2,3) by (metis nth_mem)
  then have "batch_inv wcfg (sees (shared_db s) b)" using inv by (auto simp: joint_inv_def batch_inv_def sees_def)
  then have "batch_inv wcfg b'" using worker_move_inv [OF worker(4)] by blast
  then show ?thesis using worker_move_shared [OF inv worker(4)] inv worker(1)
    by (auto simp: joint_inv_def shared_db_def with_db_def dest!: set_update_subset_insert [THEN subsetD])
next
  case (joins wcfg env_id)
  then show ?thesis using inv new_batch_inv [of "new_consumer wcfg env_id (shared_db s)" wcfg "[]"]
    by (auto simp: joint_inv_def shared_db_def new_consumer_def)
next
  case (dies i)
  then show ?thesis using inv by (auto simp: joint_inv_def shared_db_def dest: in_set_takeD in_set_dropD)
qed

lemma joint_reach_inv: "joint_reach mm cfg s0 s \<Longrightarrow> joint_start mm cfg s0 \<Longrightarrow> joint_inv mm cfg s"
  by (induction rule: joint_reach.induct) (auto intro: joint_start_inv joint_step_inv)

section \<open>Runs of one part\<close>

lemma joint_reach_trans: "joint_reach mm cfg t u \<Longrightarrow> joint_reach mm cfg s t \<Longrightarrow> joint_reach mm cfg s u"
  by (induction rule: joint_reach.induct) (auto intro: joint_reach.step)

lemma api_runs:
  assumes "reachable mm cfg a0 t"
  shows "joint_reach mm cfg \<lparr>jt_api = \<lparr>sys_app = a0, sys_calls = []\<rparr>, jt_workers = ws\<rparr> \<lparr>jt_api = t, jt_workers = ws\<rparr>"
  using assms
proof (induction rule: reachable.induct)
  case (step t t')
  from joint_reach.step [OF step.IH joint_step.api] step(2) show ?case by fastforce
qed (rule joint_reach.start)

lemma last_worker_moves:
  assumes "joint_reach mm cfg s0 \<lparr>jt_api = t, jt_workers = ws @ [(wcfg, b)]\<rparr>" "worker_move wcfg (sees (a_db (sys_app t)) b) b'"
  shows "joint_reach mm cfg s0 \<lparr>jt_api = with_db (lc_db (bt_consumer b')) t, jt_workers = ws @ [(wcfg, b')]\<rparr>"
  using joint_step.worker [of "length ws" "\<lparr>jt_api = t, jt_workers = ws @ [(wcfg, b)]\<rparr>" wcfg b b'] assms joint_reach.step
  by (fastforce simp: shared_db_def)

lemma record_step_not_waiting: "fst (record_step cfg env m ph c) \<noteq> Waiting"
  using record_rank [of cfg env m ph c] rphase_rank_le [of ph] by (auto simp: record_fuel_def)

text \<open>The last worker that joined can handle the record it has in hand.\<close>

lemma record_runs:
  assumes "joint_reach mm cfg s0 \<lparr>jt_api = t, jt_workers = ws @ [(wcfg, b)]\<rparr>"
    "bt_tasks b = [(m, env, ph)]" "ph = Waiting \<longrightarrow> 0 < bt_permits b"
    "run_phases (record_step wcfg env m) n (ph, (bt_consumer b)\<lparr>lc_db := a_db (sys_app t)\<rparr>) = (ph', c')"
  obtains b' t' where "joint_reach mm cfg s0 \<lparr>jt_api = t', jt_workers = ws @ [(wcfg, b')]\<rparr>" "bt_tasks b' = [(m, env, ph')]"
    "t' = with_db (lc_db c') t"
  using assms
proof (induction n arbitrary: t b ph thesis)
  case 0
  have "with_db (lc_db c') t = t" using 0(5) by (auto simp: with_db_def)
  then show ?case using 0 by auto
next
  case (Suc n)
  let ?b = "sees (a_db (sys_app t)) b"
  obtain q c where s: "record_step wcfg env m ph (bt_consumer ?b) = (q, c)" by force
  have run: "run_phases (record_step wcfg env m) n (q, c) = (ph', c')"
    using Suc.prems(5) s by (simp add: sees_def)
  show ?case
  proof (cases "is_gone ph")
    case True
    then have "(q, c) = (ph, bt_consumer ?b)" using s records.final_stays by metis
    then show ?thesis using Suc.IH [OF Suc.prems(1-4)] run by (simp add: sees_def)
  next
    case False
    let ?n = "bt_permits b + (if ph = Waiting then -1 else if is_gone q then 1 else 0)"
    let ?b' = "\<lparr>bt_consumer = c, bt_permits = ?n, bt_tasks = [(m, env, q)]\<rparr>"
    have t: "bt_tasks ?b = [(m, env, ph)]" "bt_permits ?b = bt_permits b" using Suc.prems(3) by (simp_all add: sees_def)
    have "task_step wcfg ?b ?b'"
    proof (cases "ph = Waiting")
      case True
      then show ?thesis using task_step.begins [of 0 ?b m env wcfg q c] t s Suc.prems(4) by simp
    next
      case w: False
      then show ?thesis using task_step.works [of 0 ?b m env ph wcfg q c] t s False by simp
    qed
    from last_worker_moves [OF Suc.prems(2) worker_move.handles [OF this]]
    have r: "joint_reach mm cfg s0 \<lparr>jt_api = with_db (lc_db c) t, jt_workers = ws @ [(wcfg, ?b')]\<rparr>" by simp
    have "q \<noteq> Waiting" using record_step_not_waiting s by (metis fst_conv)
    moreover have "c\<lparr>lc_db := a_db (sys_app (with_db (lc_db c) t))\<rparr> = c" by (simp add: with_db_def)
    moreover have "with_db (lc_db c') (with_db (lc_db c) t) = with_db (lc_db c') t" by (simp add: with_db_def)
    ultimately show ?thesis using Suc.IH [OF _ r] run Suc.prems(1) by fastforce
  qed
qed

section \<open>The promises of the deployed system\<close>


text \<open>C3: however the API and the workers share the database, it is consistent: the constraints of the
  schema hold, the documents of every agency are numbered 1, 2, 3, ... without a gap, every
  COMPLETED document has its result, and no worker runs more records than its concurrency.\<close>

theorem shared_database_is_consistent:
  assumes "joint_reach mm cfg s0 s" "joint_start mm cfg s0"
  shows "db_inv (shared_db s) \<and>
    agency_sequence ag (shared_db s) = map int [1 ..< Suc (length (agency_sequence ag (shared_db s)))] \<and>
    (\<forall>d \<in> set (documents (shared_db s)). doc_status d = COMPLETED \<longrightarrow> has_result (document_id d) (shared_db s)) \<and>
    (\<forall>(wcfg, b) \<in> set (jt_workers s). cn_active (bt_consumer b) \<le> WORKER_CONCURRENCY wcfg)"
proof -
  have inv: "joint_inv mm cfg s" using assms by (rule joint_reach_inv)
  then have "app_inv mm cfg (sys_app (jt_api s))" by (simp add: joint_inv_def sys_inv_def)
  then have "db_inv (shared_db s)" "sequences_dense (shared_db s)" by (simp_all add: app_inv_def shared_db_def)
  moreover have "cn_active (bt_consumer b) \<le> WORKER_CONCURRENCY wcfg" if "(wcfg, b) \<in> set (jt_workers s)" for wcfg b
  proof -
    have "batch_inv wcfg b" using inv that by (auto simp: joint_inv_def)
    then show ?thesis by (simp add: batch_inv_def)
  qed
  ultimately show ?thesis
    using inv unfolding joint_inv_def completed_has_result_def sequences_dense_def by blast
qed

text \<open>A run of both: requests are accepted, and a worker takes up the message of the first.\<close>

definition example_batch :: batch where
  "example_batch = new_batch default_worker_settings example_worker []"

definition example_joint :: joint where
  "example_joint = \<lparr>jt_api = \<lparr>sys_app = example_app False, sys_calls = []\<rparr>,
     jt_workers = [(default_worker_settings, example_batch)]\<rparr>"

lemma example_joint_start: "joint_start None default_settings example_joint"
  using example_fresh(1) [of None False] example_fresh(2) [of False] new_batch_inv [of example_worker default_worker_settings "[]"]
  by (simp add: joint_start_def example_joint_def shared_db_def example_start settings_ok_default completed_has_result_def
      example_batch_def default_worker_settings_def)

definition example_state :: "system \<Rightarrow> joint" where
  "example_state t = \<lparr>jt_api = t, jt_workers = [(default_worker_settings, example_batch)]\<rparr>"

lemma example_state_reached:
  "reachable None default_settings (example_app False) t \<Longrightarrow> joint_reach None default_settings example_joint (example_state t)"
  unfolding example_joint_def example_state_def by (rule api_runs)

lemma example_polls:
  obtains b where "joint_reach None default_settings (example_state t) \<lparr>jt_api = t, jt_workers = [(default_worker_settings, b)]\<rparr>"
    "bt_tasks b = [(example_message, example_record example_process, Waiting)]" "0 < bt_permits b"
    "(bt_consumer b)\<lparr>lc_db := a_db (sys_app t)\<rparr> = example_worker\<lparr>lc_db := a_db (sys_app t)\<rparr>"
proof -
  let ?b = "new_batch default_worker_settings (bt_consumer (sees (a_db (sys_app t)) example_batch)) [(example_message, example_record example_process)]"
  have "worker_move default_worker_settings (sees (a_db (sys_app t)) example_batch) ?b"
    by (rule worker_move.polls) (simp_all add: sees_def example_batch_def new_batch_def)
  from last_worker_moves [of _ _ _ _ "[]", OF _ this] joint_reach.start [of None default_settings "example_state t"]
  have "joint_reach None default_settings (example_state t) \<lparr>jt_api = t, jt_workers = [(default_worker_settings, ?b)]\<rparr>"
    by (simp add: example_state_def new_batch_def sees_def with_db_def)
  then show ?thesis
    by (rule that) (simp_all add: new_batch_def sees_def example_batch_def default_worker_settings_def)
qed

text \<open>The message of the accepted document, handled to its end.\<close>

lemma example_handles:
  obtains s' where "joint_reach None default_settings (example_state t) s'" "length (jt_workers s') = 1"
    "jt_api s' = with_db (lc_db (snd (handle_record default_worker_settings (example_record example_process) example_message
       (example_worker\<lparr>lc_db := a_db (sys_app t)\<rparr>)))) t"
proof -
  obtain b where b: "joint_reach None default_settings (example_state t) \<lparr>jt_api = t, jt_workers = [(default_worker_settings, b)]\<rparr>"
    "bt_tasks b = [(example_message, example_record example_process, Waiting)]" "0 < bt_permits b"
    "(bt_consumer b)\<lparr>lc_db := a_db (sys_app t)\<rparr> = example_worker\<lparr>lc_db := a_db (sys_app t)\<rparr>"
    by (rule example_polls)
  obtain ph' c' where h: "handle_record default_worker_settings (example_record example_process) example_message
      (example_worker\<lparr>lc_db := a_db (sys_app t)\<rparr>) = (ph', c')" by force
  obtain b' where "joint_reach None default_settings (example_state t) \<lparr>jt_api = with_db (lc_db c') t, jt_workers = [(default_worker_settings, b')]\<rparr>"
    by (rule record_runs [where ws = "[]" and n = record_fuel and ph' = ph' and c' = c', unfolded append_Nil, OF b(1,2)])
       (use b(3,4) h in \<open>auto simp: handle_record_def\<close>)
  then show ?thesis by (rule that) (simp_all add: h)
qed

text \<open>The first request is accepted, and its document completed.\<close>

lemma example_run:
  obtains t resp row s' d where "joint_reach None default_settings example_joint (example_state t)"
    "sys_calls t = [(example_request ''a'', example_env 0, Finished resp)]" "resp_status resp = 202"
    "documents (a_db (sys_app t)) = [row]" "document_id row = 1" "results (a_db (sys_app t)) = []"
    "card (event_id ` set (events (a_db (sys_app t)))) = 3"
    "joint_reach None default_settings (example_state t) s'"
    "find_document 1 (shared_db s') = Some d" "doc_status d = COMPLETED" "has_result 1 (shared_db s')"
proof -
  obtain resp a row where r: "reachable None default_settings (example_app False)
      \<lparr>sys_app = a, sys_calls = [(example_request ''a'', example_env 0, Finished resp)]\<rparr>" "resp_status resp = 202"
    "documents (a_db a) = [row]" "document_id row = 1" "results (a_db a) = []"
    "smooth_handling (example_record example_process) (a_db a)" "event_id ` set (events (a_db a)) = {2, 3, 4}"
    by (rule example_accepted)
  let ?c = "example_worker\<lparr>lc_db := a_db a\<rparr>"
  have pos: "with_position example_message example_payload = example_payload"
    by (simp add: with_position_def setdefault_def example_payload_def)
  have "readable example_message (with_position example_message example_payload)"
    unfolding pos by (simp add: readable_def text_field_def int_field_def field_def example_payload_def example_message_def)
  moreover have "lc_pool ?c" "find_document 1 (lc_db ?c) = Some row" "\<not> has_result 1 (lc_db ?c)"
    "smooth_handling (example_record example_process) (lc_db ?c)" "ms_value example_message = Inr (PDict example_payload)"
    "payload_ok default_worker_settings 1 (with_position example_message example_payload) 0"
    using r(3-6) example_payload_ok pos by (simp_all add: find_document_def has_result_def example_message_def)
  ultimately obtain c' d where
    h: "handle_record default_worker_settings (example_record example_process) example_message ?c = (Gone None, c')"
    "find_document 1 (lc_db c') = Some d" "doc_status d = COMPLETED" "has_result 1 (lc_db c')"
    using smooth_record by metis
  let ?t = "\<lparr>sys_app = a, sys_calls = [(example_request ''a'', example_env 0, Finished resp)]\<rparr>"
  obtain s' where "joint_reach None default_settings (example_state ?t) s'" "shared_db s' = lc_db c'"
    by (rule example_handles [of ?t]) (simp add: with_db_def shared_db_def h(1))
  then show ?thesis
    using r h by (intro that [of ?t resp row s' d] example_state_reached) simp_all
qed


theorem shared_database_is_consistent_witness:
  "\<exists>s d. joint_reach None default_settings example_joint s \<and> d \<in> set (documents (shared_db s)) \<and>
     doc_status d = COMPLETED \<and> has_result (document_id d) (shared_db s)"
proof -
  obtain t s d where s: "joint_reach None default_settings example_joint (example_state t)"
    "joint_reach None default_settings (example_state t) s" "find_document 1 (shared_db s) = Some d" "doc_status d = COMPLETED"
    by (rule example_run)
  have r: "joint_reach None default_settings example_joint s" using joint_reach_trans [OF s(2,1)] .
  have d: "d \<in> set (documents (shared_db s))" using find_document_Some [OF s(3)] by simp
  then have "has_result (document_id d) (shared_db s)"
    using shared_database_is_consistent [OF r example_joint_start] s(4) by blast
  then show ?thesis using r d s(4) by blast
qed

end
