(* ===== verification/Ledger.thy ===== *)
theory Ledger imports JointSystem begin

text \<open>
  What the deployed system is to its clients: a ledger of documents.  An entry is admitted once, under a
  new key and id and its agency's next number; its status may change at any time, and COMPLETED
  comes with a result, which stays.  \<^verbatim>\<open>ledger_step\<close> is that specification, and the deployed system
  refines it.
\<close>

section \<open>The specification\<close>

record entry =
  en_id :: uuid
  en_key :: string
  en_agency :: string
  en_number :: int
  en_status :: doc_status
  en_result :: "pyval option"

type_synonym ledger = "entry list"

definition with_status :: "doc_status \<Rightarrow> entry \<Rightarrow> entry" where
  "with_status st e = e\<lparr>en_status := st\<rparr>"

definition with_result :: "pyval \<Rightarrow> entry \<Rightarrow> entry" where
  "with_result v e = e\<lparr>en_status := COMPLETED, en_result := (case en_result e of None \<Rightarrow> Some v | Some w \<Rightarrow> Some w)\<rparr>"

definition on_entry :: "uuid \<Rightarrow> (entry \<Rightarrow> entry) \<Rightarrow> ledger \<Rightarrow> ledger" where
  "on_entry i f = map (\<lambda>e. if en_id e = i then f e else e)"

inductive ledger_step :: "ledger \<Rightarrow> ledger \<Rightarrow> bool" where
  admits: "en_key e \<notin> en_key ` set L \<Longrightarrow> en_id e \<notin> en_id ` set L \<Longrightarrow>
    en_number e = int (Suc (length (filter (\<lambda>x. en_agency x = en_agency e) L))) \<Longrightarrow>
    en_status e = QUEUED \<Longrightarrow> en_result e = None \<Longrightarrow> ledger_step L (L @ [e])"
| moves: "st \<noteq> COMPLETED \<Longrightarrow> ledger_step L (on_entry i (with_status st) L)"
| completes: "ledger_step L (on_entry i (with_result v) L)"

text \<open>What the specification promises: entries are neither lost nor reordered, who they are never changes,
  and a result that is there stays what it is.\<close>

definition same_entry :: "entry \<Rightarrow> entry \<Rightarrow> bool" where
  "same_entry e e' \<longleftrightarrow>
     en_id e' = en_id e \<and> en_key e' = en_key e \<and> en_agency e' = en_agency e \<and> en_number e' = en_number e \<and>
     (en_result e \<noteq> None \<longrightarrow> en_result e' = en_result e)"

definition extends :: "ledger \<Rightarrow> ledger \<Rightarrow> bool" where
  "extends L L' \<longleftrightarrow> length L \<le> length L' \<and> (\<forall>i < length L. same_entry (L ! i) (L' ! i))"

lemma same_entry_trans: "same_entry e f \<Longrightarrow> same_entry f g \<Longrightarrow> same_entry e g"
  by (auto simp: same_entry_def)

lemma extends_refl [simp]: "extends L L"
  by (simp add: extends_def same_entry_def)

lemma extends_trans: "extends L M \<Longrightarrow> extends M N \<Longrightarrow> extends L N"
  unfolding extends_def by (auto dest: order_less_le_trans intro: same_entry_trans)

lemma same_entry_rows: "same_entry e (with_status st e)" "same_entry e (with_result v e)"
  by (auto simp: same_entry_def with_status_def with_result_def)

lemma extends_on_entry: "(\<And>e. same_entry e (f e)) \<Longrightarrow> extends L (on_entry i f L)"
  by (simp add: extends_def on_entry_def) (simp add: same_entry_def)

lemma extends_snoc: "extends L (L @ [e])"
  by (simp add: extends_def nth_append same_entry_def)

lemma ledger_step_extends: "ledger_step L L' \<Longrightarrow> extends L L'"
  by (induction rule: ledger_step.induct) (rule extends_snoc extends_on_entry same_entry_rows)+

lemma ledger_extends: "ledger_step\<^sup>*\<^sup>* L L' \<Longrightarrow> extends L L'"
  by (induction rule: rtranclp_induct) (auto intro: extends_trans ledger_step_extends)

text \<open>And it keeps itself consistent.\<close>

definition ledger_inv :: "ledger \<Rightarrow> bool" where
  "ledger_inv L \<longleftrightarrow>
     distinct (map en_id L) \<and> distinct (map en_key L) \<and>
     (\<forall>a. map en_number (filter (\<lambda>e. en_agency e = a) L) = map int [1 ..< Suc (length (filter (\<lambda>e. en_agency e = a) L))]) \<and>
     (\<forall>e \<in> set L. en_status e = COMPLETED \<longrightarrow> en_result e \<noteq> None)"

lemma on_entry_fields:
  assumes "\<And>e. same_entry e (f e)"
  shows "map en_id (on_entry i f L) = map en_id L" "map en_key (on_entry i f L) = map en_key L"
    "map en_number (filter (\<lambda>e. en_agency e = a) (on_entry i f L)) = map en_number (filter (\<lambda>e. en_agency e = a) L)"
    "length (filter (\<lambda>e. en_agency e = a) (on_entry i f L)) = length (filter (\<lambda>e. en_agency e = a) L)"
  using assms by (induction L) (auto simp: on_entry_def same_entry_def)

lemma ledger_step_inv: "ledger_step L L' \<Longrightarrow> ledger_inv L \<Longrightarrow> ledger_inv L'"
proof (induction rule: ledger_step.induct)
  case (moves st L i)
  then show ?case
    unfolding ledger_inv_def on_entry_fields [OF same_entry_rows(1)] by (auto simp: on_entry_def with_status_def)
next
  case (completes L i v)
  then show ?case
    unfolding ledger_inv_def on_entry_fields [OF same_entry_rows(2)]
    by (auto simp: on_entry_def with_result_def split: option.split)
next
  case (admits e L)
  have "map int [1 ..< Suc (Suc n)] = map int [1 ..< Suc n] @ [int (Suc n)]" for n by simp
  with admits show ?case by (auto simp: ledger_inv_def simp del: upt_Suc)
qed

section \<open>The refinement\<close>

definition stored_result :: "database \<Rightarrow> uuid \<Rightarrow> pyval option" where
  "stored_result db i = map_option result_json (find (\<lambda>r. result_document r = i) (results db))"

definition entry_of :: "database \<Rightarrow> doc_row \<Rightarrow> entry" where
  "entry_of db d = \<lparr>
     en_id = document_id d, en_key = idempotency_key d, en_agency = doc_agency d,
     en_number = sequence_number d, en_status = doc_status d, en_result = stored_result db (document_id d)\<rparr>"

definition ledger_of :: "database \<Rightarrow> ledger" where
  "ledger_of db = map (entry_of db) (documents db)"

lemma ledger_of_fields [simp]:
  "en_id ` set (ledger_of db) = document_id ` set (documents db)"
  "en_key ` set (ledger_of db) = idempotency_key ` set (documents db)"
  "length (filter (\<lambda>x. en_agency x = a) (ledger_of db)) = length (agency_sequence a db)"
  by (simp_all add: ledger_of_def entry_of_def image_image agency_sequence_def filter_map o_def)

lemma entry_of_results: "results db' = results db \<Longrightarrow> entry_of db' = entry_of db"
  by (simp add: entry_of_def [abs_def] stored_result_def)

lemma entry_of_row: "keeps_identity f \<Longrightarrow> entry_of db (f d) = (entry_of db d)\<lparr>en_status := doc_status (f d)\<rparr>"
  by (simp add: entry_of_def keeps_identity_def)

lemma ledger_of_inv:
  assumes "db_inv db" "sequences_dense db" "completed_has_result db" shows "ledger_inv (ledger_of db)"
proof -
  have seq: "map en_number (filter (\<lambda>e. en_agency e = a) (ledger_of db)) = agency_sequence a db" for a
    by (simp add: ledger_of_def entry_of_def agency_sequence_def filter_map o_def)
  have ids: "map en_id (ledger_of db) = map document_id (documents db)" "map en_key (ledger_of db) = map idempotency_key (documents db)"
    by (simp_all add: ledger_of_def entry_of_def)
  have "stored_result db i \<noteq> None" if "has_result i db" for i
    using that by (auto simp: stored_result_def has_result_def find_None_iff)
  then have "\<forall>e \<in> set (ledger_of db). en_status e = COMPLETED \<longrightarrow> en_result e \<noteq> None"
    using assms(3) by (auto simp: completed_has_result_def ledger_of_def entry_of_def)
  then show ?thesis
    using assms(1,2) unfolding ledger_inv_def ids seq ledger_of_fields db_inv_def sequences_dense_def by blast
qed

lemma ledger_of_update:
  assumes "\<And>d. document_id d = i \<Longrightarrow> entry_of db' (f d) = g (entry_of db d)"
    "\<And>d. document_id d \<noteq> i \<Longrightarrow> entry_of db' d = entry_of db d"
    "documents db' = map (\<lambda>d. if document_id d = i then f d else d) (documents db)"
  shows "ledger_of db' = on_entry i g (ledger_of db)"
proof -
  have "en_id (entry_of db d) = document_id d" for d by (simp add: entry_of_def)
  then show ?thesis using assms by (simp add: ledger_of_def on_entry_def)
qed

definition follows :: "database \<Rightarrow> database \<Rightarrow> bool" where
  "follows db0 db \<longleftrightarrow> db_inv db \<and> sequences_dense db \<and> ledger_step\<^sup>*\<^sup>* (ledger_of db0) (ledger_of db)"

lemma follows_same:
  assumes "follows db0 db" "documents db' = documents db" "results db' = results db" "db_inv db'"
  shows "follows db0 db'"
proof -
  have "ledger_of db' = ledger_of db" using assms(2,3) by (simp add: ledger_of_def entry_of_def [abs_def] stored_result_def)
  then show ?thesis using assms sequences_dense_documents [OF _ assms(2)] by (simp add: follows_def)
qed

lemma keeps_follows_same:
  assumes "keeps db_inv m" "\<And>db. documents (snd (m db)) = documents db" "\<And>db. results (snd (m db)) = results db"
  shows "keeps (follows db0) m"
proof (rule keepsI)
  fix db assume f: "follows db0 db"
  show "follows db0 (snd (m db))"
    using f assms(1) by (intro follows_same [OF f assms(2,3)]) (simp add: follows_def keeps_def)
qed

lemma follows_step:
  "follows db0 db \<Longrightarrow> ledger_step (ledger_of db) (ledger_of db') \<Longrightarrow> db_inv db' \<Longrightarrow> sequences_dense db' \<Longrightarrow> follows db0 db'"
  by (auto simp: follows_def intro: rtranclp.rtrancl_into_rtrancl)

lemma follows_update:
  assumes "keeps_identity f" "\<And>d. doc_status (f d) = st" "st \<noteq> COMPLETED"
  shows "keeps (follows db0) (update_document i f)"
proof (rule keepsI)
  fix db assume f: "follows db0 db"
  let ?db' = "snd (update_document i f db)"
  have "ledger_of ?db' = on_entry i (with_status st) (ledger_of db)"
  proof (rule ledger_of_update)
    have "results ?db' = results db" by (simp add: update_document_def)
    note same = entry_of_results [OF this]
    show "entry_of ?db' (f d) = with_status st (entry_of db d)" for d
      by (simp add: same entry_of_row [OF assms(1)] assms(2) with_status_def)
    show "entry_of ?db' d = entry_of db d" for d by (simp add: same)
  qed (simp add: update_document_def)
  then have "ledger_step (ledger_of db) (ledger_of ?db')" using assms(3) by (simp add: ledger_step.moves)
  moreover have "db_inv ?db'" "sequences_dense ?db'"
    using f keepsD [OF keeps_update_document [OF assms(1)]] keepsD [OF keeps_dense_rows [OF assms(1)]]
    by (simp_all add: follows_def)
  ultimately show "follows db0 ?db'" by (rule follows_step [OF f])
qed

lemma stored_result_insert:
  assumes "insert_result r db = (Inr (), db')"
  shows "stored_result db' i =
    (if i = result_document r \<and> stored_result db i = None then Some (result_json r) else stored_result db i)"
proof (cases "\<exists>r' \<in> set (results db). result_document r' = result_document r")
  case True
  then have "db' = db" "find (\<lambda>r'. result_document r' = result_document r) (results db) \<noteq> None"
    using assms by (auto simp: insert_result_def find_None_iff)
  then show ?thesis by (auto simp: stored_result_def)
next
  case False
  then have "db' = db\<lparr>results := results db @ [r]\<rparr>" using assms by (auto simp: insert_result_def split: if_splits)
  then show ?thesis by (auto simp: stored_result_def find_append split: option.split)
qed

interpretation ledger_worker: worker_invariant "follows db0" for db0
proof unfold_locales
  fix r t p f w tm db v db'
  assume run: "transaction (op_bind (insert_result r) (\<lambda>_.
      update_document (result_document r) (completed_row t p f w tm))) db = (Inr v, db')"
    and fol: "follows db0 db"
  then obtain db1 where 1: "insert_result r db = (Inr (), db1)"
    and 2: "update_document (result_document r) (completed_row t p f w tm) db1 = (Inr v, db')"
    unfolding op_Inr by auto
  have docs: "documents db1 = documents db" using insert_result_has [OF 1] by simp
  have "results db' = results db1" using 2 by (auto simp: update_document_def)
  note same = entry_of_results [OF this]
  have "ledger_of db' = on_entry (result_document r) (with_result (result_json r)) (ledger_of db)"
  proof (rule ledger_of_update)
    show "entry_of db' (completed_row t p f w tm d) = with_result (result_json r) (entry_of db d)"
      if "document_id d = result_document r" for d
      using that by (simp add: same entry_of_def stored_result_insert [OF 1] completed_row_def with_result_def split: option.split)
    show "entry_of db' d = entry_of db d" if "document_id d \<noteq> result_document r" for d
      using that by (simp add: same entry_of_def stored_result_insert [OF 1])
  qed (use 2 docs in \<open>auto simp: update_document_def\<close>)
  then have "ledger_step (ledger_of db) (ledger_of db')" by (simp add: ledger_step.completes)
  moreover have "db_inv db'" "sequences_dense db'"
    using fol worker_constraints.keeps_completing [OF run] worker_numbering.keeps_completing [OF run] by (simp_all add: follows_def)
  ultimately show "follows db0 db'" by (rule follows_step [OF fol])
next
  fix e show "keeps (follows db0) (insert_event e)"
    by (rule keeps_follows_same [OF keeps_insert_event]) (simp_all add: insert_event_def)
next
  fix wr show "keeps (follows db0) (upsert_worker wr)"
    by (rule keeps_follows_same [OF keeps_upsert_worker]) (simp_all add: upsert_worker_def)
next
  fix w rep doc now show "keeps (follows db0) (update_worker w (heartbeat_row rep doc now))"
    by (rule keeps_follows_same [OF worker_constraints.keeps_heartbeat]) (simp_all add: update_worker_def)
qed (auto intro!: follows_update simp: mark_started_row_def retry_row_def failed_row_def)

interpretation ledger_api: admission_invariant "follows db0" for db0
proof unfold_locales
  fix job bm now show "keeps (follows db0) (update_document_metadata job (published_update bm) now)"
    unfolding update_document_metadata_def
    by (intro op_keeps follows_update [of _ QUEUED] keeps_identity_apply_update)
       (simp_all add: apply_update_def published_update_def given_def)
next
  fix ne fresh show "keeps (follows db0) (append_event ne fresh)"
    unfolding append_event_def by (intro op_keeps ledger_worker.keeps_event)
next
  fix nd ids show "keeps (follows db0) (cog_insert nd ids)"
  proof (rule keepsI)
    fix db assume fol: "follows db0 db"
    show "follows db0 (snd (cog_insert nd ids db))"
    proof (cases rule: cog_insert_cases [of nd ids db])
      case (2 row db')
      have inv: "db_inv db'" "sequences_dense db'"
        using fol 2(1) constraints.keeps_insert [of nd ids] numbering.keeps_insert [of nd ids] by (auto simp: follows_def dest: keeps_run)
      have res: "results db' = results db" using cog_insert_results [of nd ids db] 2(1) by simp
      have new: "document_id row \<notin> document_id ` set (documents db)" "idempotency_key row \<notin> idempotency_key ` set (documents db)"
        using inv(1) 2(2) by (auto simp: db_inv_def)
      have "\<forall>r \<in> set (results db). result_document r \<in> document_id ` set (documents db)"
        using fol unfolding follows_def db_inv_def document_exists_def by (metis imageI)
      then have "find (\<lambda>r. result_document r = document_id row) (results db) = None"
        using new(1) unfolding find_None_iff by metis
      then have none: "stored_result db (document_id row) = None" by (simp add: stored_result_def)
      have "ledger_of db' = ledger_of db @ [entry_of db row]"
        using 2(2) res by (simp add: ledger_of_def entry_of_def stored_result_def)
      moreover have "ledger_step (ledger_of db) (ledger_of db @ [entry_of db row])"
        using new none 2(3,8) fol next_sequence_dense [of db]
        by (intro ledger_step.admits) (simp_all add: entry_of_def follows_def)
      ultimately have "ledger_step (ledger_of db) (ledger_of db')" by simp
      then show ?thesis using follows_step [OF fol _ inv] 2(1) by simp
    qed (use fol in simp)
  qed
qed

lemma joint_step_follows: "joint_step mm cfg s s' \<Longrightarrow> follows db0 (shared_db s) \<Longrightarrow> follows db0 (shared_db s')"
proof (induction rule: joint_step.induct)
  case (worker i s wcfg b b')
  from ledger_worker.worker_move_keeps [OF worker(3)] worker(4) show ?case
    by (simp add: shared_db_def with_db_def sees_def)
qed (auto simp: shared_db_def restarted_app_def app_startup_def intro: ledger_api.sys_step_keeps)

lemma joint_reach_follows:
  "joint_reach mm cfg s s' \<Longrightarrow> follows db0 (shared_db s) \<Longrightarrow> follows db0 (shared_db s')"
  by (induction rule: joint_reach.induct) (auto intro: joint_step_follows)

lemma joint_inv_follows: "joint_inv mm cfg s \<Longrightarrow> follows (shared_db s) (shared_db s)"
  by (simp add: joint_inv_def sys_inv_def app_inv_def follows_def shared_db_def)

section \<open>What clients rely on\<close>





end
