(* ===== verification/Recovery.thy ===== *)
theory Recovery imports Ledger begin

text \<open>
  Nothing the deployed system reaches is beyond repair: a document without a result can be completed,
  by one more worker that is given a message naming the document and meets no failure.
\<close>

section \<open>New identifiers\<close>

lemma fresh_uuids:
  assumes "finite (S :: uuid set)" "card S + n \<le> 2 ^ 128"
  obtains xs :: "uuid list" where "length xs = n" "distinct xs" "set xs \<inter> S = {}"
proof -
  have "card (UNIV - S) = 2 ^ 128 - card S" using assms(1) by (simp add: card_Diff_subset card_word)
  then have "n \<le> card (UNIV - S)" using assms(2) by simp
  then obtain T where T: "T \<subseteq> UNIV - S" "card T = n" "finite T" by (rule obtain_subset_with_card_n)
  then obtain xs where "set xs = T" "distinct xs" using finite_distinct_list by blast
  then show ?thesis using T by (intro that [of xs]) (auto simp: distinct_card [symmetric])
qed

section \<open>One more worker\<close>

definition naming_message :: "uuid \<Rightarrow> message" where
  "naming_message u = \<lparr>ms_topic = ''t'', ms_partition = 0, ms_offset = 0, ms_value = Inr (PDict [(''job_id'', PStr (uuid_str u))])\<rparr>"

definition smooth_env :: "uuid \<Rightarrow> uuid list \<Rightarrow> record_env" where
  "smooth_env x xs = (example_record (example_process\<lparr>pe_ids := xs\<rparr>))\<lparr>re_consumed_id := x\<rparr>"

lemma naming_payload:
  fixes u :: uuid
  defines "m \<equiv> naming_message u" and "kvs \<equiv> [(''job_id'', PStr (uuid_str u))]"
  shows "ms_value m = Inr (PDict kvs)" "payload_ok default_worker_settings u (with_position m kvs) 0"
    "readable m (with_position m kvs)"
proof -
  show "ms_value m = Inr (PDict kvs)" by (simp add: m_def kvs_def naming_message_def)
  have f: "field (with_position m kvs) k =
      (if k = ''job_id'' then PStr (uuid_str u) else if k = ''kafka_topic'' then PStr ''t''
       else if k = ''kafka_partition'' then PInt 0 else if k = ''kafka_offset'' then PInt 0 else PNone)" for k
    by (simp add: field_simps with_position_def m_def kvs_def naming_message_def)
  have "document_of (with_position m kvs) = PStr (uuid_str u)" by (simp add: document_of_def f py_or_def)
  moreover have "py_str (py_or (PStr (uuid_str u)) (PStr [])) = uuid_str u" by (simp add: py_or_def py_str_def)
  moreover have "py_int (py_or PNone (PInt 0)) = Inr 0" by (simp add: py_or_def)
  ultimately show "payload_ok default_worker_settings u (with_position m kvs) 0"
    by (simp add: payload_ok_def f job_ok_def job_of_def text_field_def int_field_def default_worker_settings_def)
  have "ms_partition m = 0" "ms_offset m = 0" by (simp_all add: m_def naming_message_def)
  then show "readable m (with_position m kvs)" by (simp add: readable_def f text_field_def int_field_def)
qed

lemma smooth_env_ok:
  assumes "length xs = 7" "distinct (x # xs)" "set (x # xs) \<inter> (event_id ` set (events db) \<union> result_id ` set (results db)) = {}"
  shows "smooth_handling (smooth_env x xs) db"
proof -
  have "begins_well (example_process\<lparr>pe_ids := xs\<rparr>) db"
    using assms by (auto simp: begins_well_def example_process_def)
  moreover have "duration_ms (example_process\<lparr>pe_ids := xs\<rparr>) = 0" by code_simp
  ultimately have "peaceful (example_process\<lparr>pe_ids := xs\<rparr>) db"
    by (auto simp: peaceful_def pg_int4_def) (auto simp: example_process_def)
  then show ?thesis using assms(2,3) by (auto simp: smooth_handling_def smooth_env_def example_record_def)
qed

text \<open>A worker that joins, starts without being able to register, and polls the message.\<close>

lemma new_worker_polls:
  obtains b where "joint_reach mm cfg s \<lparr>jt_api = jt_api s, jt_workers = jt_workers s @ [(default_worker_settings, b)]\<rparr>"
    "bt_tasks b = [(m, env, Waiting)]" "0 < bt_permits b" "lc_pool (bt_consumer b)"
proof -
  let ?w = default_worker_settings and ?db = "a_db (sys_app (jt_api s))"
  let ?c = "new_consumer ?w None ?db"
  let ?started = "?c\<lparr>cn_running := True, lc_pool := True\<rparr>"
  have [simp]: "with_db ?db (jt_api s) = jt_api s" by (simp add: with_db_def)
  have joined: "joint_reach mm cfg s \<lparr>jt_api = jt_api s, jt_workers = jt_workers s @ [(?w, new_batch ?w ?c [])]\<rparr>"
    using joint_reach.step [OF joint_reach.start [of mm cfg s] joint_step.joins [of ?w mm cfg s None]]
    by (cases s) (simp add: default_worker_settings_def shared_db_def)
  have "worker_start True FailsBefore NoFault h ?c = ?started" for h
    by (simp add: worker_start_def Let_def op_bind_def on_lc_def)
  then have "worker_move ?w (sees ?db (new_batch ?w ?c [])) (new_batch ?w ?started [])"
    using worker_move.starts [of ?w "new_batch ?w ?c []" True FailsBefore NoFault] by (simp add: sees_def new_batch_def new_consumer_def)
  from last_worker_moves [OF joined this]
  have started: "joint_reach mm cfg s \<lparr>jt_api = jt_api s, jt_workers = jt_workers s @ [(?w, new_batch ?w ?started [])]\<rparr>"
    by (simp add: new_batch_def new_consumer_def)
  have "worker_move ?w (sees ?db (new_batch ?w ?started [])) (new_batch ?w ?started [(m, env)])"
    using worker_move.polls [of "new_batch ?w ?started []" ?w "[(m, env)]"] by (simp add: sees_def new_batch_def new_consumer_def)
  from last_worker_moves [OF started this]
  have "joint_reach mm cfg s \<lparr>jt_api = jt_api s, jt_workers = jt_workers s @ [(?w, new_batch ?w ?started [(m, env)])]\<rparr>"
    by (simp add: new_batch_def new_consumer_def)
  then show ?thesis by (rule that) (simp_all add: new_batch_def default_worker_settings_def)
qed



end
