(* ===== verification/Answers.thy ===== *)
theory Answers imports JointSystem begin

text \<open>
  The types of the ingestion endpoint's answers: for each status the fields of the body, their order
  and the types of their values.
\<close>

section \<open>The answers' types\<close>

datatype json_type = JString | JInteger | JNumber | JBoolean | JAny

fun has_type :: "json_type \<Rightarrow> pyval \<Rightarrow> bool" where
  "has_type JString (PStr _) = True"
| "has_type JInteger (PInt _) = True"
| "has_type JNumber (PFloat _) = True"
| "has_type JBoolean (PBool _) = True"
| "has_type JAny v = serialisable v"
| "has_type _ _ = False"

type_synonym body_type = "(string \<times> json_type) list"

definition accepted_type :: body_type where
  "accepted_type =
     [(''job_id'', JString), (''status'', JString), (''agency_id'', JString), (''audit_type'', JAny),
      (''sha256_checksum'', JString), (''partition'', JInteger), (''broker_status'', JString),
      (''estimated_wait_time_ms'', JInteger), (''latency_ms'', JNumber), (''status_url'', JString)]"

definition duplicate_type :: body_type where
  "duplicate_type =
     [(''job_id'', JString), (''status'', JString), (''agency_id'', JString), (''sha256_checksum'', JString),
      (''is_idempotent_duplicate'', JBoolean), (''message'', JString), (''status_url'', JString),
      (''latency_ms'', JNumber)]"

text \<open>The three refusals: the limiter's, the agency's, and that of an exception.\<close>

definition refusal_types :: "body_type list" where
  "refusal_types =
     [[(''status'', JString), (''reason'', JString), (''retry_after_seconds'', JNumber),
       (''current_limit'', JNumber), (''in_flight'', JInteger)],
      [(''status'', JString), (''agency_id'', JAny), (''reason'', JString), (''retry_after_seconds'', JNumber)],
      [(''status'', JString), (''message'', JString), (''error_type'', JString)]]"

definition body_types :: "nat \<Rightarrow> body_type list" where
  "body_types status =
     (if status = 202 then [accepted_type]
      else if status = 200 then [duplicate_type]
      else if status = 429 then refusal_types
      else if status = 400 \<or> status = 413 then [[(''detail'', JString)]]
      else [])"

definition body_has_type :: "(string \<times> pyval) list \<Rightarrow> body_type \<Rightarrow> bool" where
  "body_has_type = list_all2 (\<lambda>(k, v) (k', t). k = k' \<and> has_type t v)"

definition well_typed :: "response \<Rightarrow> bool" where
  "well_typed resp \<longleftrightarrow> (\<exists>ty \<in> set (body_types (resp_status resp)). body_has_type (resp_body resp) ty)"

lemmas answer_types = body_types_def accepted_type_def duplicate_type_def refusal_types_def body_has_type_def

lemma has_type_serialisable: "has_type ty v \<Longrightarrow> serialisable v"
  by (cases ty; cases v) auto

lemma well_typed_serialisable:
  assumes "well_typed resp" shows "serialisable (PDict (resp_body resp))"
proof -
  have "list_all2 (\<lambda>(k, v) (k', t). k = k' \<and> has_type t v) kvs ty \<Longrightarrow> \<forall>kv \<in> set kvs. serialisable (snd kv)" for kvs ty
    by (induction rule: list_all2_induct) (auto intro: has_type_serialisable)
  then show ?thesis using assms by (auto simp: well_typed_def body_has_type_def)
qed

section \<open>Every step keeps them\<close>

definition agency_text :: "draft \<Rightarrow> bool" where
  "agency_text d \<longleftrightarrow> (\<exists>a. p_agency (dr_parsed d) = PStr a)"

definition outcome_typed :: "response py_result \<Rightarrow> bool" where
  "outcome_typed r \<longleftrightarrow> (case r of Inl e \<Rightarrow> True | Inr resp \<Rightarrow> well_typed resp)"

fun phase_typed :: "phase \<Rightarrow> bool" where
  "phase_typed (Inserting d) = agency_text d"
| "phase_typed (Publishing d) = agency_text d"
| "phase_typed (Updating d _) = agency_text d"
| "phase_typed (LoggingPublish d _) = agency_text d"
| "phase_typed (Accepting d _) = agency_text d"
| "phase_typed (LoggingAccept d _) = agency_text d"
| "phase_typed (Unwinding r) = outcome_typed r"
| "phase_typed (Finished resp) = well_typed resp"
| "phase_typed _ = True"

lemma outcome_typed_Inl [simp]: "outcome_typed (Inl e)"
  by (simp add: outcome_typed_def)

lemma json_typed:
  "(\<And>resp. json_response c h b = Inr resp \<Longrightarrow> well_typed resp) \<Longrightarrow> outcome_typed (json_response c h b)"
  by (cases "json_response c h b") (auto simp: outcome_typed_def)

lemma responses_typed:
  "outcome_typed (saturated_response hint l)" "outcome_typed (agency_response p wait)"
  "agency_text d \<Longrightarrow> outcome_typed (duplicate_response env d)" "agency_text d \<Longrightarrow> outcome_typed (accepted_response env d bm)"
  unfolding saturated_response_def agency_response_def duplicate_response_def accepted_response_def
  by (rule json_typed; auto simp: json_response_Inr well_typed_def answer_types agency_text_def)+

lemma exception_typed:
  "(\<And>c. e = HTTPException c \<Longrightarrow> c = 400 \<or> c = 413) \<Longrightarrow> well_typed (exception_response client e)"
  by (cases e) (auto simp: exception_response_def well_typed_def answer_types)

lemma finish_typed: "outcome_ok r \<Longrightarrow> outcome_typed r \<Longrightarrow> phase_typed (fst (finish env r a))"
  by (cases r) (auto simp: finish_def outcome_typed_def outcome_ok_def intro: exception_typed)

lemma make_draft_text: "make_draft mm cfg env p saved = Inr d \<Longrightarrow> agency_text d"
  by (cases saved; cases "p_agency p")
     (auto simp: make_draft_def Let_def py_bind_eq_Inr hash_key_to_partition_def key_hash_def agency_text_def split: option.splits)

lemma agency_text_adopt [simp]: "agency_text (adopt_record row d) = agency_text d"
  by (simp add: agency_text_def adopt_record_def Let_def)

lemma after_record_typed: "agency_text (fst r) \<Longrightarrow> phase_typed (fst (after_record env r a))"
  by (auto simp: after_record_def responses_typed)

lemma record_locally_text: "record_locally d a = (Inr r, a') \<Longrightarrow> agency_text (fst r) = agency_text d"
  by (auto simp: record_locally_def agency_text_def split: sum.splits option.splits)

lemma fall_back_typed: "agency_text d \<Longrightarrow> phase_typed (fst (fall_back env d a))"
  using record_locally_text [of d a] by (auto simp: fall_back_def intro: after_record_typed split: prod.split sum.split)

lemma handler_typed:
  assumes "phase_typed ph" "phase_ok ph"
  shows "phase_typed (fst (handler_step mm cfg rq env ph a))"
proof (cases ph)
  case Arrive
  have "outcome_ok (saturated_response (or_one hint) l)" if "acquire (a_limiter a) = ((False, hint), l)" for hint l
    using arrive_hint [OF that] by (auto simp: saturated_response_def intro: json_outcome)
  then show ?thesis using Arrive by (auto simp: step_arrive_def responses_typed intro: finish_typed split: step_splits)
next
  case (Recording p saved)
  then show ?thesis
    by (auto simp: step_record_def Let_def make_draft_text intro!: fall_back_typed after_record_typed split: step_splits)
next
  case (Inserting d)
  then show ?thesis using assms(1)
    by (auto simp: step_insert_def Let_def intro!: fall_back_typed after_record_typed split: step_splits)
next
  case (Unwinding r)
  then show ?thesis using assms by (auto simp: step_unwind_def intro: finish_typed)
qed (use assms(1) in \<open>auto simp: step_parse_def step_check_def step_reject_def step_save_def step_upload_def step_publish_def
  step_update_def step_log_publish_def step_accept_def step_log_accept_def Let_def responses_typed split: step_splits\<close>)

section \<open>Every answer of the deployed system\<close>

text \<open>A property of phases that requests start with and every step of a request keeps.\<close>

lemma joint_calls:
  assumes "joint_reach mm cfg s0 s" "joint_start mm cfg s0" "Q Arrive"
    "\<And>rq env ph a. Q ph \<Longrightarrow> phase_ok ph \<Longrightarrow> Q (fst (handler_step mm cfg rq env ph a))"
  shows "\<forall>c \<in> set (sys_calls (jt_api s)). Q (snd (snd c))"
  using assms(1)
proof (induction rule: joint_reach.induct)
  case start
  then show ?case using assms(2) by (simp add: joint_start_def)
next
  case (step s s')
  have ok: "\<forall>c \<in> set (sys_calls (jt_api s)). call_ok c"
    using joint_reach_inv [OF step(1) assms(2)] by (simp add: joint_inv_def sys_inv_def)
  from step(2) show ?case
  proof cases
    case (api t)
    from api(2) show ?thesis
    proof cases
      case (arrives env rq)
      then show ?thesis using api step.IH assms(3) by auto
    next
      case (advances i rq env ph ph' a')
      have "(rq, env, ph) \<in> set (sys_calls (jt_api s))" using advances(2,3) by (metis nth_mem)
      then have "Q ph" "phase_ok ph" using step.IH ok by (auto simp: call_ok_def)
      then have "Q ph'" using assms(4) advances(4) by (metis fst_conv)
      then show ?thesis using api advances(1) step.IH by (auto dest!: set_update_subset_insert [THEN subsetD])
    qed
  qed (use step.IH in \<open>auto simp: with_db_def\<close>)
qed

text \<open>C5: every answer of the deployed system, under any interleaving and any failure of its services, is
  graceful and typed: its status is 200, 202, 400, 413 or 429; its body has the fields of one of that
  status's types, each of its type; a 200 and a 202 name their agency and job as strings; and every
  429 carries a Retry-After that is one second or a hint of at least 0.05 s.\<close>

theorem answers_are_graceful:
  assumes "joint_reach mm cfg s0 s" "joint_start mm cfg s0" "(rq, env, Finished resp) \<in> set (sys_calls (jt_api s))"
  shows "resp_status resp \<in> {200, 202, 400, 413, 429} \<and>
    (\<exists>ty \<in> set (body_types (resp_status resp)). body_has_type (resp_body resp) ty) \<and>
    (resp_status resp = 429 \<longrightarrow>
       (\<exists>h. retry_after resp = Some h \<and> (h = ''1'' \<or> (\<exists>x. h = float_repr x \<and> Fl (5/100) \<le> x))))"
proof -
  have "call_ok (rq, env, Finished resp)"
    using joint_reach_inv [OF assms(1,2)] assms(3) by (auto simp: joint_inv_def sys_inv_def)
  moreover have "\<forall>c \<in> set (sys_calls (jt_api s)). phase_typed (snd (snd c))"
    by (rule joint_calls [OF assms(1,2)]) (simp_all add: handler_typed)
  then have "well_typed resp" using assms(3) by fastforce
  ultimately show ?thesis by (auto simp: call_ok_def response_ok_def is_hint_def well_typed_def split: if_splits)
qed

theorem answers_are_graceful_witness:
  "\<exists>(s :: joint) resp :: response. resp_status resp = 202 \<and> body_has_type (resp_body resp) accepted_type"
proof -
  obtain t resp where r: "joint_reach None default_settings example_joint (example_state t)"
    "sys_calls t = [(example_request ''a'', example_env 0, Finished resp)]" "resp_status resp = 202"
    by (rule example_run)
  have "(example_request ''a'', example_env 0, Finished resp) \<in> set (sys_calls (jt_api (example_state t)))"
    using r(2) by (simp add: example_state_def)
  from answers_are_graceful [OF r(1) example_joint_start this] r(3) show ?thesis by (auto simp: body_types_def)
qed

end
