(* ===== verification/ApiWorkers.thy ===== *)
theory ApiWorkers imports ApiRepository WorkerRepository begin

text \<open>
  The worker rows in \<^verbatim>\<open>api/src/repository.py\<close>: \<^verbatim>\<open>register_worker\<close> and \<^verbatim>\<open>heartbeat_worker\<close> of the API,
  which nothing calls, and that they are the worker repository's.
\<close>

record status_report =
  sr_status :: string
  sr_state :: string
  sr_document :: "string option"
  sr_cpu :: pyfloat
  sr_memory :: pyfloat
  sr_rate :: pyfloat
  sr_failed :: int
  sr_retries :: int

text \<open>The keyword arguments' defaults; \<^verbatim>\<open>status\<close> is \<^verbatim>\<open>'REGISTERED'\<close> or \<^verbatim>\<open>'ACTIVE'\<close>.\<close>

definition default_report :: "string \<Rightarrow> status_report" where
  "default_report status = \<lparr>
     sr_status = status, sr_state = ''IDLE'', sr_document = None, sr_cpu = 0, sr_memory = 0, sr_rate = 0,
     sr_failed = 0, sr_retries = 0\<rparr>"

definition api_register_worker :: "string \<Rightarrow> string \<Rightarrow> int \<Rightarrow> status_report \<Rightarrow> int \<Rightarrow> (database, unit) op" where
  "api_register_worker w host pid r now =
     op_bind (op_lift (opt_uuid (sr_document r))) (\<lambda>doc.
     upsert_worker \<lparr>
       worker_id = w, hostname = host, process_id = pid,
       worker_status = sr_status r, current_state = sr_state r, current_document_id = doc,
       cpu_usage_pct = sr_cpu r, memory_usage_pct = sr_memory r, processing_rate = sr_rate r,
       failed_jobs = sr_failed r, retry_count = sr_retries r,
       last_heartbeat = now, registered_at = now\<rparr>)"

definition api_heartbeat_worker :: "string \<Rightarrow> status_report \<Rightarrow> int \<Rightarrow> (database, unit) op" where
  "api_heartbeat_worker w r now =
     op_bind (op_lift (opt_uuid (sr_document r))) (\<lambda>doc.
     update_worker w (\<lambda>v. v\<lparr>
       worker_status := sr_status r, current_state := sr_state r, current_document_id := doc,
       cpu_usage_pct := sr_cpu r, memory_usage_pct := sr_memory r, processing_rate := sr_rate r,
       failed_jobs := sr_failed r, retry_count := sr_retries r,
       last_heartbeat := now\<rparr>))"

text \<open>The same report as the worker's own repository takes it.\<close>

definition worker_report_of :: "status_report \<Rightarrow> worker_report" where
  "worker_report_of r = \<lparr>
     wr_status = sr_status r, wr_state = sr_state r,
     wr_document = (case sr_document r of None \<Rightarrow> PNone | Some d \<Rightarrow> PStr d),
     wr_cpu = sr_cpu r, wr_memory = sr_memory r, wr_rate = sr_rate r,
     wr_failed = sr_failed r, wr_retries = sr_retries r\<rparr>"

lemma uuid_or_none_opt: "uuid_or_none (case d of None \<Rightarrow> PNone | Some t \<Rightarrow> PStr t) = opt_uuid d"
  by (simp add: uuid_or_none_def opt_uuid_def split: option.split)

lemma api_register_same: "api_register_worker w host pid r now = register_worker w host pid (worker_report_of r) now"
  by (simp add: api_register_worker_def register_worker_def worker_report_of_def uuid_or_none_opt)

lemma api_heartbeat_same: "api_heartbeat_worker w r now = heartbeat_worker w (worker_report_of r) now"
  by (simp add: api_heartbeat_worker_def heartbeat_worker_def heartbeat_row_def [abs_def] worker_report_of_def uuid_or_none_opt)

context lifecycle_invariant
begin

lemma keeps_api_workers: "keeps P (api_register_worker w host pid r now)" "keeps P (api_heartbeat_worker w r now)"
  by (simp_all add: api_register_same api_heartbeat_same keeps_workers)

end

lemma upserted: "\<exists>v \<in> set (workers (snd (upsert_worker wr db))). worker_id v = worker_id wr"
proof (cases "\<exists>v \<in> set (workers db). worker_id v = worker_id wr")
  case True
  then obtain v where v: "v \<in> set (workers db)" "worker_id v = worker_id wr" by blast
  then have "wr\<lparr>registered_at := registered_at v\<rparr> \<in> set (workers (snd (upsert_worker wr db)))"
    by (auto simp: upsert_worker_def image_iff intro!: bexI [of _ v])
  then show ?thesis by (rule bexI [rotated]) simp
qed (simp add: upsert_worker_def)

text \<open>A heartbeat of a worker that has registered is told by its row, whoever wrote the row first.\<close>

lemma heartbeat_after_registration:
  assumes "opt_uuid (sr_document r) = Inr doc" "opt_uuid (sr_document r') = Inr doc'"
  shows "\<exists>v \<in> set (workers (snd (api_heartbeat_worker w r' now' (snd (api_register_worker w host pid r now db))))).
    worker_id v = w \<and> worker_status v = sr_status r' \<and> current_document_id v = doc' \<and> last_heartbeat v = now'"
proof -
  let ?db = "snd (api_register_worker w host pid r now db)"
  obtain v where v: "v \<in> set (workers ?db)" "worker_id v = w"
    using upserted assms(1) by (force simp: api_register_worker_def op_bind_def op_lift_def)
  let ?f = "\<lambda>v. v\<lparr>
       worker_status := sr_status r', current_state := sr_state r', current_document_id := doc',
       cpu_usage_pct := sr_cpu r', memory_usage_pct := sr_memory r', processing_rate := sr_rate r',
       failed_jobs := sr_failed r', retry_count := sr_retries r',
       last_heartbeat := now'\<rparr>"
  have "workers (snd (api_heartbeat_worker w r' now' ?db)) = map (\<lambda>v. if worker_id v = w then ?f v else v) (workers ?db)"
    using assms(2) by (simp add: api_heartbeat_worker_def op_bind_def op_lift_def update_worker_def)
  then show ?thesis using v by (intro bexI [of _ "?f v"]) (auto simp: image_iff)
qed

end
