(* ===== verification/LoadTraffic.thy ===== *)
theory LoadTraffic imports ApiProperties begin

text \<open>
  What the dashboard's load tests do to the API: the requests \<^verbatim>\<open>_run_timed_burst\<close> and
  \<^verbatim>\<open>trigger_burst\<close> of \<^verbatim>\<open>dashboard/src/app.py\<close> send, and how many documents they can make.
\<close>

section \<open>The requests\<close>

definition burst_body :: "string \<Rightarrow> nat \<Rightarrow> string \<Rightarrow> pyval \<Rightarrow> nat \<Rightarrow> (string \<times> pyval) list" where
  "burst_body agency cycle auditor audit i =
     [(''agency_id'', PStr (agency @ zero_pad 3 (nat_str (i mod cycle)))),
      (''audit_type'', audit),
      (''report_year'', PInt 2026),
      (''auditor_org'', PStr auditor)]"

definition timed_body :: "pyval \<Rightarrow> nat \<Rightarrow> (string \<times> pyval) list" where
  "timed_body = burst_body ''load-'' 100 ''Load Test''"

definition quick_body :: "pyval \<Rightarrow> nat \<Rightarrow> (string \<times> pyval) list" where
  "quick_body = burst_body ''agency-console-'' 25 ''National Cybersecurity Inspection Team''"

text \<open>\<^verbatim>\<open>client.post(..., json=body)\<close>\<close>

definition post_json :: "(string \<times> pyval) list \<Rightarrow> request" where
  "post_json kvs = \<lparr>
     rq_content_type = ''application/json'', rq_json = Inr (PDict kvs),
     rq_form = Inl RuntimeError, rq_body = Inr [], rq_agency = None\<rparr>"

section \<open>Where stored keys come from\<close>

interpretation stored_keys: statement_invariant "\<lambda>db. idempotency_key ` set (documents db) \<subseteq> K" for K
proof unfold_locales
  show "keeps (\<lambda>db. idempotency_key ` set (documents db) \<subseteq> K) (update_document_metadata job u now)" for job u now
    unfolding update_document_metadata_def
    by (intro op_keeps) (auto simp: keeps_def update_document_def apply_update_def)
  show "keeps (\<lambda>db. idempotency_key ` set (documents db) \<subseteq> K) (append_event ne fresh)" for ne fresh
    unfolding append_event_def by (intro op_keeps) (simp add: keeps_def)
qed

lemma handler_stored_keys:
  assumes "phase_from rq ph" "d \<in> set (documents (a_db (snd (handler_step mm cfg rq env ph a))))"
  shows "idempotency_key d \<in> idempotency_key ` set (documents (a_db a)) \<or> request_key rq = Some (PStr (idempotency_key d))"
proof (cases "\<exists>e. ph = Inserting e")
  case False
  then show ?thesis using stored_keys.step_keeps [of a "idempotency_key ` set (documents (a_db a))" ph mm cfg rq env] assms(2) by auto
next
  case True
  then obtain e where e: "ph = Inserting e" by blast
  have key: "request_key rq = Some (idemp_id (dr_parsed e) (dr_sha256 e))"
    using assms(1) e by (simp add: request_key_def draft_from_def)
  let ?m = "cog_insert (new_document_of e) (ev_ids env)"
  have "set (documents (a_db (snd (handler_step mm cfg rq env ph a)))) \<subseteq> set (documents (a_db a)) \<union> set (documents (snd (?m (a_db a))))"
    by (cases "ev_insert env") (auto simp: e step_insert_def Let_def on_db_def with_fault_def split: step_splits)
  moreover have "set (documents (snd (?m (a_db a)))) \<subseteq>
      set (documents (a_db a)) \<union> {r. idemp_id (dr_parsed e) (dr_sha256 e) = PStr (idempotency_key r)}"
    by (cases rule: cog_insert_cases [of "new_document_of e" "ev_ids env" "a_db a"]) (auto simp: new_document_of_def)
  ultimately show ?thesis using assms(2) key by auto
qed

lemma stored_keys_requested:
  assumes "reachable mm cfg a0 s" "fresh_app mm cfg a0" "documents (a_db a0) = []" "d \<in> set (documents (a_db (sys_app s)))"
  shows "\<exists>rq env ph. (rq, env, ph) \<in> set (sys_calls s) \<and> request_key rq = Some (PStr (idempotency_key d))"
  using assms(1,4)
proof (induction arbitrary: d rule: reachable.induct)
  case start
  then show ?case using assms(3) by simp
next
  case (step s s')
  from step.hyps(2) show ?case
  proof (cases rule: sys_step.cases)
    case (arrives env rq)
    then show ?thesis using step.IH [of d] step.prems by auto
  next
    case (advances i rq env ph ph' a')
    let ?cs = "sys_calls s"
    have same: "\<exists>rq' env' ph''. (rq', env', ph'') \<in> set (?cs[i := (rq, env, ph')]) \<and> P rq'"
      if c: "(rq', env', ph'') \<in> set ?cs" "P rq'" for rq' env' ph'' P
    proof -
      obtain j where "j < length ?cs" "?cs ! j = (rq', env', ph'')" using c(1) unfolding in_set_conv_nth by blast
      then have "\<exists>env' ph''. ?cs[i := (rq, env, ph')] ! j = (rq', env', ph'')"
        using advances(2,3) by (cases "j = i") auto
      moreover have "?cs[i := (rq, env, ph')] ! j \<in> set (?cs[i := (rq, env, ph')])" using \<open>j < _\<close> by simp
      ultimately show ?thesis using c(2) by metis
    qed
    have "phase_from rq ph"
      using reachable_inv [OF step.hyps(1) assms(2)] advances(2,3) nth_mem [OF advances(2)] by (force simp: sys_inv_def call_ok_def)
    moreover have "d \<in> set (documents (a_db (snd (handler_step mm cfg rq env ph (sys_app s)))))"
      using step.prems advances(1,4) by simp
    ultimately consider "idempotency_key d \<in> idempotency_key ` set (documents (a_db (sys_app s)))"
      | "request_key rq = Some (PStr (idempotency_key d))" using handler_stored_keys by blast
    then show ?thesis
    proof cases
      case 1
      then obtain e where "e \<in> set (documents (a_db (sys_app s)))" "idempotency_key e = idempotency_key d" by auto
      then obtain rq' env' ph'' where "(rq', env', ph'') \<in> set ?cs" "request_key rq' = Some (PStr (idempotency_key d))"
        using step.IH [of e] by auto
      then show ?thesis using same [where P = "\<lambda>q. request_key q = Some (PStr (idempotency_key d))"] advances(1) by simp
    next
      case 2
      have "(rq, env, ph) \<in> set ?cs" using advances(2,3) by (metis nth_mem)
      then show ?thesis using 2 same [where P = "\<lambda>q. request_key q = Some (PStr (idempotency_key d))"] advances(1) by simp
    qed
  qed
qed

section \<open>How many documents a load test makes\<close>

lemma documents_bounded_by_keys:
  assumes "reachable mm cfg a0 s" "fresh_app mm cfg a0" "documents (a_db a0) = []"
    "\<forall>(rq, env, ph) \<in> set (sys_calls s). rq \<in> R" "finite R"
  shows "length (documents (a_db (sys_app s))) \<le> card R"
proof -
  let ?ds = "documents (a_db (sys_app s))"
  have "distinct (map idempotency_key ?ds)"
    using reachable_inv [OF assms(1,2)] by (simp add: sys_inv_def app_inv_def db_inv_def)
  then have "length ?ds = card (idempotency_key ` set ?ds)" using distinct_card by fastforce
  moreover have "(\<lambda>k. Some (PStr k)) ` idempotency_key ` set ?ds \<subseteq> request_key ` R"
  proof safe
    fix d assume "d \<in> set ?ds"
    from stored_keys_requested [OF assms(1-3) this] obtain rq env ph
      where "(rq, env, ph) \<in> set (sys_calls s)" "request_key rq = Some (PStr (idempotency_key d))" by blast
    moreover from this have "rq \<in> R" using assms(4) by blast
    ultimately show "Some (PStr (idempotency_key d)) \<in> request_key ` R" by (metis imageI)
  qed
  then have "card ((\<lambda>k. Some (PStr k)) ` idempotency_key ` set ?ds) \<le> card (request_key ` R)"
    by (intro card_mono finite_imageI assms(5))
  then have "card (idempotency_key ` set ?ds) \<le> card (request_key ` R)"
    by (subst (asm) card_image) (auto simp: inj_on_def)
  moreover have "card (request_key ` R) \<le> card R" by (rule card_image_le [OF assms(5)])
  ultimately show ?thesis by simp
qed

lemma cyclic_range: "range (\<lambda>i. post_json (burst_body agency c auditor audit i)) = (\<lambda>i. post_json (burst_body agency c auditor audit i)) ` {..<c}"
  if "0 < c"
proof -
  have "burst_body agency c auditor audit i = burst_body agency c auditor audit (i mod c)" for i by (simp add: burst_body_def)
  then show ?thesis using that by (auto intro!: image_eqI [of _ _ "_ mod c"])
qed

text \<open>C22: a load test does not make the documents it asks for: its requests repeat every 100, so that an
  API that has nothing but a load test to answer stores at most 100 documents, whatever number was
  asked for and whatever is answered; and with the quick burst at most 25.\<close>

theorem load_test_repeats_itself:
  assumes "reachable mm cfg a0 s" "fresh_app mm cfg a0" "documents (a_db a0) = []"
  shows "((\<forall>(rq, env, ph) \<in> set (sys_calls s). \<exists>i. rq = post_json (timed_body audit i)) \<longrightarrow>
      length (documents (a_db (sys_app s))) \<le> 100) \<and>
    ((\<forall>(rq, env, ph) \<in> set (sys_calls s). \<exists>i. rq = post_json (quick_body audit i)) \<longrightarrow>
      length (documents (a_db (sys_app s))) \<le> 25)"
proof -
  have bound: "length (documents (a_db (sys_app s))) \<le> c"
    if "0 < c" "\<forall>(rq, env, ph) \<in> set (sys_calls s). \<exists>i. rq = post_json (burst_body agency c auditor audit i)" for c agency auditor
  proof -
    let ?R = "(\<lambda>i. post_json (burst_body agency c auditor audit i)) ` {..<c}"
    have "\<forall>(rq, env, ph) \<in> set (sys_calls s). rq \<in> ?R"
      using that(2) unfolding cyclic_range [OF that(1), symmetric] by blast
    from documents_bounded_by_keys [OF assms this] have "length (documents (a_db (sys_app s))) \<le> card ?R" by simp
    also have "\<dots> \<le> c" using card_image_le [of "{..<c}"] by fastforce
    finally show ?thesis .
  qed
  show ?thesis using bound [of 100] bound [of 25] unfolding timed_body_def quick_body_def by simp
qed

theorem load_test_repeats_itself_witness:
  "\<exists>s. reachable None default_settings (example_app False) s \<and>
     map fst (sys_calls s) = map (\<lambda>i. post_json (timed_body (PStr ''SOC2'') i)) [0, 100] \<and>
     length (documents (a_db (sys_app s))) \<le> 100"
proof -
  let ?rq = "\<lambda>i. post_json (timed_body (PStr ''SOC2'') i)"
  let ?s = "\<lambda>cs. \<lparr>sys_app = example_app False, sys_calls = cs\<rparr>"
  have ok: "request_ok (?rq i)" for i by (simp add: request_ok_def post_json_def only_400_def)
  have "reachable None default_settings (example_app False) (?s ([] @ [(?rq 0, example_env 0, Arrive)]))"
    using sys_step.arrives [OF example_env_ok(1) ok [of 0], of None default_settings "?s []"]
    by (intro reachable.step [OF reachable.start]) simp
  then have r: "reachable None default_settings (example_app False)
      (?s [(?rq 0, example_env 0, Arrive), (?rq 100, example_env 1, Arrive)])"
    using sys_step.arrives [OF example_env_ok(1) ok [of 100], of None default_settings "?s [(?rq 0, example_env 0, Arrive)]"]
    by (elim reachable.step) simp
  moreover have "documents (a_db (example_app False)) = []"
    by (simp add: example_app_def app_startup_def new_app_def empty_database_def)
  ultimately have "length (documents (a_db (sys_app (?s [(?rq 0, example_env 0, Arrive), (?rq 100, example_env 1, Arrive)])))) \<le> 100"
    using load_test_repeats_itself [OF r example_fresh(1), of "PStr ''SOC2''"] by auto
  then show ?thesis using r by (intro exI [of _ "?s [(?rq 0, example_env 0, Arrive), (?rq 100, example_env 1, Arrive)]"]) simp
qed

end
