(* ===== verification/LoadTest.thy ===== *)
theory LoadTest imports PyVal begin

text \<open>
  The load tests of \<^verbatim>\<open>dashboard/src/app.py\<close>: how an answer is classified and counted, the figures of
  a timed burst, when a test passes, the life of a performance test in memory and in the table
  \<^verbatim>\<open>load_test_runs\<close>, and the quick burst of the console.  What the requests are answered, and when,
  is an argument.
\<close>

section \<open>Classification\<close>

record bucket_view =
  bv_bucket :: string
  bv_success :: bool
  bv_label :: string

definition classify_load_test_status :: "int option \<Rightarrow> bucket_view" where
  "classify_load_test_status code =
     (if code = Some 200 \<or> code = Some 202
      then \<lparr>bv_bucket = ''accepted_202'', bv_success = True, bv_label = ''Accepted''\<rparr>
      else if code = Some 429
      then \<lparr>bv_bucket = ''rejected_429'', bv_success = False, bv_label = ''Rejected / Backpressure''\<rparr>
      else case code of
             None \<Rightarrow> \<lparr>bv_bucket = ''failed_transport'', bv_success = False, bv_label = ''Connection / timeout''\<rparr>
           | Some c \<Rightarrow>
               (if 400 \<le> c \<and> c < 500
                then \<lparr>bv_bucket = ''rejected_4xx'', bv_success = False, bv_label = ''Failed 4xx''\<rparr>
                else if 500 \<le> c \<and> c < 600
                then \<lparr>bv_bucket = ''failed_5xx'', bv_success = False, bv_label = ''Failed 5xx''\<rparr>
                else \<lparr>bv_bucket = ''failed_transport'', bv_success = False, bv_label = ''Connection / timeout''\<rparr>))"

text \<open>\<^verbatim>\<open>_run_timed_burst\<close> has a normalisation of its own.\<close>

definition normalized_code :: "int \<Rightarrow> int" where
  "normalized_code c =
     (if c = 200 \<or> c = 202 then 202
      else if c = 429 then 429
      else if 400 \<le> c \<and> c < 500 then 400
      else if 500 \<le> c then 500
      else 202)"

section \<open>A timed burst\<close>

datatype reply =
    Reply int pyfloat        \<comment> \<open>status code and latency in ms\<close>
  | TimedOut
  | TransportFailed
  | OtherFailure py_exn

record burst =
  bu_codes :: "(int \<times> nat) list"
  bu_latencies :: "pyfloat list"
  bu_timeouts :: nat
  bu_transport :: nat

definition new_burst :: burst where
  "new_burst = \<lparr>
     bu_codes = [(202, 0), (429, 0), (400, 0), (404, 0), (500, 0), (503, 0)],
     bu_latencies = [], bu_timeouts = 0, bu_transport = 0\<rparr>"

text \<open>\<^verbatim>\<open>d[k] = d.get(k, 0) + 1\<close>\<close>

fun bump :: "int \<Rightarrow> (int \<times> nat) list \<Rightarrow> (int \<times> nat) list" where
  "bump k [] = [(k, 1)]"
| "bump k ((k', n) # kvs) = (if k' = k then (k', n + 1) # kvs else (k', n) # bump k kvs)"

text \<open>\<^verbatim>\<open>send_single\<close> after its request: other exceptions leave the task.\<close>

definition record_reply :: "reply \<Rightarrow> (burst, unit) op" where
  "record_reply r b =
     (case r of
        Reply c lat \<Rightarrow> (Inr (), b\<lparr>bu_codes := bump (normalized_code c) (bu_codes b), bu_latencies := bu_latencies b @ [lat]\<rparr>)
      | TimedOut \<Rightarrow> (Inr (), b\<lparr>bu_timeouts := bu_timeouts b + 1\<rparr>)
      | TransportFailed \<Rightarrow> (Inr (), b\<lparr>bu_transport := bu_transport b + 1\<rparr>)
      | OtherFailure e \<Rightarrow> (Inl e, b))"

text \<open>The replies in the order they come in; \<^verbatim>\<open>gather\<close> raises the first exception of a task.\<close>

fun record_replies :: "reply list \<Rightarrow> (burst, unit) op" where
  "record_replies [] b = (Inr (), b)"
| "record_replies (r # rs) b =
     (case record_reply r b of (Inl e, b') \<Rightarrow> (Inl e, b') | (Inr _, b') \<Rightarrow> record_replies rs b')"

definition code_count :: "int \<Rightarrow> (int \<times> nat) list \<Rightarrow> nat" where
  "code_count k kvs = (case map_of kvs k of None \<Rightarrow> 0 | Some n \<Rightarrow> n)"

definition sum_codes :: "(int \<Rightarrow> bool) \<Rightarrow> (int \<times> nat) list \<Rightarrow> nat" where
  "sum_codes p kvs = (\<Sum>(k, n) \<leftarrow> kvs. if p k then n else 0)"

text \<open>\<^verbatim>\<open>xs[int(len(xs) * q)]\<close> of the sorted latencies, rounded; the upper percentiles are capped at the
  last one.\<close>

definition percentile :: "pyfloat \<Rightarrow> bool \<Rightarrow> pyfloat list \<Rightarrow> pyfloat option" where
  "percentile q capped xs =
     (if xs = [] then None
      else let i = py_trunc (float_of_int (int (length xs)) * q);
               j = (if capped then min (int (length xs) - 1) i else i)
           in Some (py_round (sort xs ! nat j) 2))"

text \<open>The figures of a test as the functions below read them: a missing number counts as zero.\<close>

record figures =
  fg_requested :: nat
  fg_completed :: nat
  fg_accepted :: nat
  fg_429 :: nat
  fg_4xx :: nat
  fg_5xx :: nat
  fg_timeout :: nat
  fg_transport :: nat
  fg_p50 :: "pyfloat option"
  fg_p95 :: "pyfloat option"
  fg_p99 :: "pyfloat option"
  fg_duration :: pyfloat
  fg_elapsed :: pyfloat
  fg_throughput :: pyfloat

definition calculate_throughput_docs_per_sec :: "figures \<Rightarrow> pyfloat" where
  "calculate_throughput_docs_per_sec f =
     (let elapsed = (if fg_duration f \<noteq> 0 then fg_duration f else fg_elapsed f)
      in if fg_accepted f = 0 then 0
         else if elapsed \<le> 0 then 0
         else py_round (float_of_int (int (fg_accepted f)) / elapsed) 2)"

definition burst_figures :: "nat \<Rightarrow> pyfloat \<Rightarrow> burst \<Rightarrow> figures" where
  "burst_figures tasks elapsed b =
     (let f = \<lparr>
        fg_requested = tasks, fg_completed = tasks,
        fg_accepted = code_count 202 (bu_codes b),
        fg_429 = code_count 429 (bu_codes b),
        fg_4xx = sum_codes (\<lambda>k. 400 \<le> k \<and> k < 500 \<and> k \<noteq> 429) (bu_codes b),
        fg_5xx = sum_codes (\<lambda>k. 500 \<le> k) (bu_codes b),
        fg_timeout = bu_timeouts b, fg_transport = bu_transport b,
        fg_p50 = percentile (Fl (1/2)) False (bu_latencies b),
        fg_p95 = percentile (Fl (95/100)) True (bu_latencies b),
        fg_p99 = percentile (Fl (99/100)) True (bu_latencies b),
        fg_duration = max elapsed (Fl (1/1000)), fg_elapsed = 0, fg_throughput = 0\<rparr>
      in f\<lparr>fg_throughput := calculate_throughput_docs_per_sec f\<rparr>)"

definition run_timed_burst :: "pyfloat \<Rightarrow> int \<Rightarrow> reply list \<Rightarrow> figures py_result" where
  "run_timed_burst elapsed target_duration replies =
     (if target_duration = 0 then Inl ZeroDivisionError
      else case record_replies replies new_burst of
             (Inl e, _) \<Rightarrow> Inl e
           | (Inr _, b) \<Rightarrow> Inr (burst_figures (length replies) elapsed b))"

section \<open>Pass or fail\<close>

definition determine_test_result :: "figures \<Rightarrow> int \<Rightarrow> string" where
  "determine_test_result f target_documents =
     (if fg_requested f = 0 \<or> fg_completed f = 0 then ''FAIL''
      else if fg_completed f < fg_requested f then ''FAIL''
      else if int (fg_requested f) < target_documents then ''FAIL''
      else if 0 < fg_5xx f then ''FAIL''
      else if 0 < fg_timeout f \<or> 0 < fg_transport f then ''FAIL''
      else case fg_p95 f of
             None \<Rightarrow> ''FAIL''
           | Some p \<Rightarrow>
               (if Fl 150 \<le> p then ''FAIL''
                else if int_truediv (int (fg_accepted f)) (int (fg_requested f)) < Fl (75/100) then ''FAIL''
                else ''PASS''))"

section \<open>Counting\<close>

lemma sum_codes_bump: "sum_codes p (bump k kvs) = sum_codes p kvs + (if p k then 1 else 0)"
  by (induction k kvs rule: bump.induct) (auto simp: sum_codes_def)

lemma code_count_bump: "code_count k (bump k' kvs) = code_count k kvs + (if k = k' then 1 else 0)"
  by (induction k' kvs rule: bump.induct) (auto simp: code_count_def split: option.splits)

text \<open>The codes counted so far are those of the replies.\<close>

definition replied :: "(int \<Rightarrow> bool) \<Rightarrow> reply list \<Rightarrow> nat" where
  "replied p rs = length (filter (\<lambda>r. case r of Reply c _ \<Rightarrow> p (normalized_code c) | _ \<Rightarrow> False) rs)"

lemma record_replies_counts:
  assumes "record_replies rs b = (Inr (), b')"
  shows "sum_codes p (bu_codes b') = sum_codes p (bu_codes b) + replied p rs"
    "code_count k (bu_codes b') = code_count k (bu_codes b) + replied (\<lambda>c. c = k) rs"
    "bu_timeouts b' = bu_timeouts b + length (filter (\<lambda>r. r = TimedOut) rs)"
    "bu_transport b' = bu_transport b + length (filter (\<lambda>r. r = TransportFailed) rs)"
    "\<forall>e. OtherFailure e \<notin> set rs"
  using assms
proof (atomize (full), induction rs arbitrary: b)
  case (Cons r rs)
  then show ?case
    by (cases r) (auto simp: record_reply_def replied_def sum_codes_bump code_count_bump)
qed (simp add: replied_def)

lemma normalized_code_cases: "normalized_code c \<in> {202, 429, 400, 500}"
  by (simp add: normalized_code_def)

lemma replied_split: "length (filter (\<lambda>r. \<exists>c l. r = Reply c l) rs) =
    replied (\<lambda>c. c = 202) rs + replied (\<lambda>c. c = 429) rs + replied (\<lambda>k. 400 \<le> k \<and> k < 500 \<and> k \<noteq> 429) rs + replied (\<lambda>k. 500 \<le> k) rs"
proof (induction rs)
  case (Cons r rs)
  then show ?case
  proof (cases r)
    case (Reply c l)
    then show ?thesis using Cons normalized_code_cases [of c] by (auto simp: replied_def)
  qed (simp_all add: replied_def)
qed (simp add: replied_def)

lemma burst_codes:
  assumes "run_timed_burst elapsed d rs = Inr f"
  shows "fg_accepted f = replied (\<lambda>c. c = 202) rs" "fg_429 f = replied (\<lambda>c. c = 429) rs"
    "fg_4xx f = replied (\<lambda>k. 400 \<le> k \<and> k < 500 \<and> k \<noteq> 429) rs" "fg_5xx f = replied (\<lambda>k. 500 \<le> k) rs"
    "fg_timeout f = length (filter (\<lambda>r. r = TimedOut) rs)" "fg_transport f = length (filter (\<lambda>r. r = TransportFailed) rs)"
    "fg_requested f = length rs" "fg_completed f = length rs" "\<forall>e. OtherFailure e \<notin> set rs"
proof -
  obtain b where b: "record_replies rs new_burst = (Inr (), b)" "f = burst_figures (length rs) elapsed b"
    using assms by (auto simp: run_timed_burst_def split: if_splits prod.splits sum.splits)
  note c = record_replies_counts [OF b(1)]
  have z: "sum_codes p (bu_codes new_burst) = 0" "code_count k (bu_codes new_burst) = 0" for p k
    by (simp_all add: new_burst_def sum_codes_def code_count_def)
  have n: "bu_timeouts new_burst = 0" "bu_transport new_burst = 0" by (simp_all add: new_burst_def)
  show "fg_accepted f = replied (\<lambda>c. c = 202) rs" "fg_429 f = replied (\<lambda>c. c = 429) rs"
    "fg_4xx f = replied (\<lambda>k. 400 \<le> k \<and> k < 500 \<and> k \<noteq> 429) rs" "fg_5xx f = replied (\<lambda>k. 500 \<le> k) rs"
    "fg_timeout f = length (filter (\<lambda>r. r = TimedOut) rs)" "fg_transport f = length (filter (\<lambda>r. r = TransportFailed) rs)"
    "fg_requested f = length rs" "fg_completed f = length rs"
    by (simp_all add: b(2) burst_figures_def Let_def c z n)
  show "\<forall>e. OtherFailure e \<notin> set rs" by (rule c)
qed

text \<open>A burst that ends accounts for every request once: as accepted, shed, refused, failed, timed out
  or lost in transport.\<close>

theorem burst_accounts_for_every_request:
  assumes "run_timed_burst elapsed d rs = Inr f"
  shows "fg_accepted f + fg_429 f + fg_4xx f + fg_5xx f + fg_timeout f + fg_transport f = length rs \<and>
    fg_requested f = length rs"
proof -
  have "length (filter (\<lambda>r. \<exists>c l. r = Reply c l) rs) + length (filter (\<lambda>r. r = TimedOut) rs) +
      length (filter (\<lambda>r. r = TransportFailed) rs) = length rs" if "\<forall>e. OtherFailure e \<notin> set rs" for rs :: "reply list"
    using that
  proof (induction rs)
    case (Cons r rs)
    then show ?case by (cases r) auto
  qed simp
  from this [OF burst_codes(9) [OF assms]] show ?thesis
    using burst_codes [OF assms] replied_split [of rs] by simp
qed

theorem burst_accounts_for_every_request_witness:
  "\<exists>f. run_timed_burst (Fl 1) 5 [Reply 202 (Fl 20), Reply 429 (Fl 3), TimedOut] = Inr f \<and>
     fg_accepted f + fg_429 f + fg_4xx f + fg_5xx f + fg_timeout f + fg_transport f = 3"
proof -
  obtain f where f: "run_timed_burst (Fl 1) 5 [Reply 202 (Fl 20), Reply 429 (Fl 3), TimedOut] = Inr f"
    by (simp add: run_timed_burst_def record_reply_def)
  from burst_accounts_for_every_request [OF this] f show ?thesis by simp
qed

section \<open>What a pass means\<close>

lemma sorted_below:
  assumes "i < length xs" "sort xs ! i < b" shows "i + 1 \<le> length (filter (\<lambda>x. x < b) xs)"
proof -
  have "\<forall>x \<in> set (take (i + 1) (sort xs)). x < b"
  proof
    fix x assume "x \<in> set (take (i + 1) (sort xs))"
    then obtain k where "k < i + 1" "x = sort xs ! k" using assms(1) by (auto simp: in_set_conv_nth)
    moreover from this have "sort xs ! k \<le> sort xs ! i" using assms(1) by (intro sorted_nth_mono) simp_all
    ultimately show "x < b" using assms(2) by simp
  qed
  then have "filter (\<lambda>x. x < b) (take (i + 1) (sort xs)) = take (i + 1) (sort xs)" by (simp add: filter_id_conv)
  then have "i + 1 \<le> length (filter (\<lambda>x. x < b) (take (i + 1) (sort xs) @ drop (i + 1) (sort xs)))"
    using assms(1) by (simp only: filter_append) simp
  also have "\<dots> = size (mset (filter (\<lambda>x. x < b) (sort xs)))" by (simp only: append_take_drop_id size_mset)
  also have "\<dots> = length (filter (\<lambda>x. x < b) xs)" by (simp only: mset_filter mset_sort) (simp only: flip: mset_filter, simp only: size_mset)
  finally show ?thesis .
qed

text \<open>The float \<^verbatim>\<open>0.95\<close> is not below the dyadic number used here, so that \<^verbatim>\<open>int(n * 0.95)\<close> is an
  index with 95 of 100 elements up to it.\<close>

lemma index_95:
  assumes "0 < n" "n < 2 ^ 14"
  shows "0 \<le> py_trunc (float_of_int n * Fl (95/100))" "95 * n \<le> 100 * (py_trunc (float_of_int n * Fl (95/100)) + 1)"
proof -
  let ?m = "261134011596 :: int" and ?q = "-38 :: int"
  have grid: "fl (of_int (k * ?m) * 2 powi ?q) = of_int (k * ?m) * 2 powi ?q" if "0 \<le> k" "k < 2 ^ 14" for k
    using that by (intro fl_exact) (simp_all add: abs_mult)
  have "of_int ?m * 2 powi ?q \<le> (95/100 :: rat)" by (simp add: power_int_def field_simps)
  from fl_mono [OF this] have "of_int ?m * 2 powi ?q \<le> fl (95/100)" using grid [of 1] by simp
  then have "of_int (n * ?m) * 2 powi ?q \<le> of_int n * fl (95/100)" using assms(1) by simp
  from fl_mono [OF this] have lower: "of_int (n * ?m) * 2 powi ?q \<le> fval (float_of_int n * Fl (95/100))"
    using grid [of n] assms by (simp add: fval_float_of_int)
  moreover have "0 \<le> of_int (n * ?m) * (2::rat) powi ?q" using assms(1) by simp
  ultimately have nonneg: "0 \<le> fval (float_of_int n * Fl (95/100))" by (rule order_trans [rotated])
  then show "0 \<le> py_trunc (float_of_int n * Fl (95/100))" by (simp add: py_trunc_def)
  let ?i = "py_trunc (float_of_int n * Fl (95/100))"
  have "of_int (n * ?m) * 2 powi ?q < (of_int (?i + 1) :: rat)"
    using lower nonneg floor_less_cancel by (simp add: py_trunc_def) linarith
  then have "n * ?m < (?i + 1) * 2 ^ 38"
    by (simp add: power_int_def field_simps flip: of_int_less_iff [where 'a = rat])
  moreover have "95 * n \<le> 100 * (i + 1)" if "n * ?m < (i + 1) * 2 ^ 38" for i using that assms by simp
  ultimately show "95 * n \<le> 100 * (?i + 1)" by blast
qed


lemma below_150:
  assumes "\<not> Fl 150 \<le> py_round x 2" shows "x < Fl 150"
proof -
  have "py_round (Fl 150) 2 = Fl 150" by code_simp
  then show ?thesis using py_round_mono [of "Fl 150" x 2] assms by (metis linorder_not_less)
qed

lemma acceptance_rate:
  assumes "\<not> int_truediv a n < Fl (75/100)" "0 < n" "n < 2 ^ 14" shows "3 * n \<le> 4 * a"
proof (rule ccontr)
  let ?y = "of_int 49151 * 2 powi (-16) :: rat"
  assume "\<not> ?thesis"
  then have "2 ^ 16 * a \<le> 49151 * n" using assms(2,3) by simp
  then have "(of_int (2 ^ 16 * a) :: rat) \<le> of_int (49151 * n)" by (simp only: of_int_le_iff)
  then have "of_int a / of_int n \<le> ?y" using assms(2) by (simp add: power_int_def field_simps)
  from fl_mono [OF this] have "fl (of_int a / of_int n) \<le> ?y" using fl_exact [of 49151 "-16"] by simp
  also have "\<dots> < of_int 3 * 2 powi (-2)" by (simp add: power_int_def power_one_over)
  also have "\<dots> = fl (75/100)" using fl_exact [of 3 "-2"] by (simp add: power_int_def power2_eq_square)
  finally show False using assms(1) by (simp add: int_truediv_def less_fval)
qed

definition reply_latencies :: "reply list \<Rightarrow> pyfloat list" where
  "reply_latencies rs = concat (map (\<lambda>r. case r of Reply c l \<Rightarrow> [l] | _ \<Rightarrow> []) rs)"

lemma record_replies_latencies:
  "record_replies rs b = (Inr (), b') \<Longrightarrow> bu_latencies b' = bu_latencies b @ reply_latencies rs"
proof (induction rs arbitrary: b)
  case (Cons r rs)
  then show ?case by (cases r) (auto simp: record_reply_def reply_latencies_def)
qed (simp add: reply_latencies_def)

lemma fast_replies:
  "length (filter (\<lambda>l. l < b) (reply_latencies rs)) = length (filter (\<lambda>r. \<exists>c l. r = Reply c l \<and> l < b) rs)"
proof (induction rs)
  case (Cons r rs)
  then show ?case by (cases r) (simp_all add: reply_latencies_def)
qed (simp add: reply_latencies_def)

lemma normalized_accepted: "normalized_code c = 202 \<longleftrightarrow> c < 400"
  by (simp add: normalized_code_def)

lemma replied_below_400: "replied (\<lambda>c. c = 202) rs = length (filter (\<lambda>r. \<exists>c l. r = Reply c l \<and> c < 400) rs)"
  unfolding replied_def by (intro arg_cong [of _ _ length] filter_cong refl) (auto simp: normalized_accepted split: reply.split)

lemma passes:
  assumes "determine_test_result f target = ''PASS''"
  obtains p where "0 < fg_requested f" "target \<le> int (fg_requested f)" "fg_5xx f = 0" "fg_timeout f = 0" "fg_transport f = 0"
    "fg_p95 f = Some p" "\<not> Fl 150 \<le> p" "\<not> int_truediv (int (fg_accepted f)) (int (fg_requested f)) < Fl (75/100)"
  using assms by (auto simp: determine_test_result_def split: if_splits option.splits)

lemma percentile_95:
  assumes "percentile (Fl (95/100)) True xs = Some p" "length xs < 2 ^ 14" "\<not> Fl 150 \<le> p"
  shows "95 * length xs \<le> 100 * length (filter (\<lambda>x. x < Fl 150) xs)"
proof -
  let ?n = "int (length xs)"
  define i where "i = min (?n - 1) (py_trunc (float_of_int ?n * Fl (95/100)))"
  have n: "0 < ?n" "?n < 2 ^ 14" and p: "p = py_round (sort xs ! nat i) 2"
    using assms(1,2) by (auto simp: percentile_def i_def Let_def split: if_splits)
  then have i: "0 \<le> i" "i < ?n" "95 * ?n \<le> 100 * (i + 1)" using index_95 [OF n] by (auto simp: i_def min_def)
  have "nat i + 1 \<le> length (filter (\<lambda>x. x < Fl 150) xs)"
    using i assms(3) below_150 p by (intro sorted_below) auto
  then have "i + 1 \<le> int (length (filter (\<lambda>x. x < Fl 150) xs))" using i(1) by linarith
  then have "95 * int (length xs) \<le> 100 * int (length (filter (\<lambda>x. x < Fl 150) xs))"
    by (intro order_trans [OF i(3)]) simp
  then show ?thesis by linarith
qed

text \<open>C30: a load test that passes met its criteria: it had requests, as many as were asked for, all of
  which were answered below 500; at least three of four were answered below 400, and at least 95 of
  100 in less than 150 ms.\<close>

theorem passing_test_met_its_criteria:
  assumes "run_timed_burst elapsed d rs = Inr f" "determine_test_result f target = ''PASS''" "length rs \<le> 10000"
  shows "0 < length rs \<and> target \<le> int (length rs) \<and> (\<forall>r \<in> set rs. \<exists>c l. r = Reply c l \<and> c < 500) \<and>
    3 * length rs \<le> 4 * length (filter (\<lambda>r. \<exists>c l. r = Reply c l \<and> c < 400) rs) \<and>
    95 * length rs \<le> 100 * length (filter (\<lambda>r. \<exists>c l. r = Reply c l \<and> l < Fl 150) rs)"
proof -
  obtain p where p: "0 < fg_requested f" "target \<le> int (fg_requested f)" "fg_5xx f = 0" "fg_timeout f = 0" "fg_transport f = 0"
    "fg_p95 f = Some p" "\<not> Fl 150 \<le> p" "\<not> int_truediv (int (fg_accepted f)) (int (fg_requested f)) < Fl (75/100)"
    using passes [OF assms(2)] .
  note c = burst_codes [OF assms(1)]
  have all: "\<forall>r \<in> set rs. \<exists>c l. r = Reply c l \<and> c < 500"
  proof
    fix r assume r: "r \<in> set rs"
    then have "r \<noteq> TimedOut" "r \<noteq> TransportFailed" "\<nexists>e. r = OtherFailure e"
      using c p(4,5) by (auto simp: filter_empty_conv)
    then obtain k l where k: "r = Reply k l" by (cases r) auto
    moreover have "\<not> 500 \<le> normalized_code k"
      using c(4) p(3) r k by (auto simp: replied_def filter_empty_conv)
    ultimately show "\<exists>c l. r = Reply c l \<and> c < 500" by (auto simp: normalized_code_def split: if_splits)
  qed
  obtain b where b: "record_replies rs new_burst = (Inr (), b)" "f = burst_figures (length rs) elapsed b"
    using assms(1) by (auto simp: run_timed_burst_def split: if_splits prod.splits sum.splits)
  have lat: "bu_latencies b = reply_latencies rs" using record_replies_latencies [OF b(1)] by (simp add: new_burst_def)
  have "length (reply_latencies rs) = length rs" using all by (induction rs) (auto simp: reply_latencies_def)
  moreover have "percentile (Fl (95/100)) True (reply_latencies rs) = Some p"
    using p(6) by (simp add: b(2) burst_figures_def Let_def lat)
  ultimately have "95 * length rs \<le> 100 * length (filter (\<lambda>r. \<exists>c l. r = Reply c l \<and> l < Fl 150) rs)"
    using percentile_95 p(7) assms(3) fast_replies by fastforce
  moreover have "3 * length rs \<le> 4 * length (filter (\<lambda>r. \<exists>c l. r = Reply c l \<and> c < 400) rs)"
    using acceptance_rate [OF p(8)] p(1) assms(3) c(1,7) replied_below_400 [of rs] by simp
  ultimately show ?thesis using p(1,2) c(7) all by simp
qed

theorem passing_test_met_its_criteria_witness:
  "\<exists>f. run_timed_burst (Fl 1) 5 [Reply 202 (Fl 20)] = Inr f \<and> determine_test_result f 1 = ''PASS'' \<and>
     95 * 1 \<le> 100 * length (filter (\<lambda>r. \<exists>c l. r = Reply c l \<and> l < Fl 150) [Reply 202 (Fl 20)])"
proof -
  obtain f where f: "run_timed_burst (Fl 1) 5 [Reply 202 (Fl 20)] = Inr f"
    "f = burst_figures 1 (Fl 1) \<lparr>bu_codes = [(202, 1), (429, 0), (400, 0), (404, 0), (500, 0), (503, 0)],
       bu_latencies = [Fl 20], bu_timeouts = 0, bu_transport = 0\<rparr>"
    by (simp add: run_timed_burst_def record_reply_def new_burst_def normalized_code_def)
  have "percentile (Fl (95/100)) True [Fl 20] = Some (py_round (Fl 20) 2)" by (simp add: percentile_def Let_def)
  moreover have "\<not> Fl 150 \<le> py_round (Fl 20) 2" "\<not> int_truediv 1 1 < Fl (75/100)" by code_simp+
  ultimately have "determine_test_result f 1 = ''PASS''"
    by (simp add: f(2) determine_test_result_def burst_figures_def Let_def code_count_def sum_codes_def)
  from passing_test_met_its_criteria [OF f(1) this] f(1) \<open>determine_test_result f 1 = _\<close> show ?thesis by simp
qed


end
