(* ===== verification/PerformanceTests.thy ===== *)
theory PerformanceTests imports LoadTest begin

text \<open>
  The life of a performance test of \<^verbatim>\<open>dashboard/src/app.py\<close>: how its scenario is read, the states it
  passes in \<^verbatim>\<open>performance_tests\<close> while its background task runs, and its row in the table
  \<^verbatim>\<open>load_test_runs\<close>, which is only there if the statements reach the database.
\<close>

section \<open>State\<close>

record perf_test =
  pt_id :: string
  pt_status :: string
  pt_target_documents :: int
  pt_target_duration :: int
  pt_audit_type :: pyval
  pt_created_at :: pyfloat
  pt_started_at :: "pyfloat option"
  pt_figures :: "figures option"
  pt_actual_duration :: "pyfloat option"
  pt_error :: "py_exn option"
  pt_test_result :: string

record load_row =
  lr_id :: uuid
  lr_status :: string
  lr_target_documents :: int
  lr_target_duration :: int
  lr_requested :: nat
  lr_accepted :: nat
  lr_429 :: nat
  lr_4xx :: nat
  lr_5xx :: nat
  lr_timeout :: nat
  lr_p50 :: pyfloat
  lr_p95 :: pyfloat
  lr_p99 :: pyfloat
  lr_test_result :: "string option"
  lr_actual_duration :: "pyfloat option"
  lr_throughput :: "pyfloat option"
  lr_created_at :: int
  lr_started_at :: "int option"
  lr_completed_at :: "int option"

record load_tests =
  lt_pool :: bool
  lt_tests :: "string \<Rightarrow> perf_test option"
  lt_rows :: "load_row list"

section \<open>Statements\<close>

definition insert_load_row :: "uuid \<Rightarrow> int \<Rightarrow> int \<Rightarrow> int \<Rightarrow> (load_tests, unit) op" where
  "insert_load_row u docs dur now s =
     (if \<exists>r \<in> set (lt_rows s). lr_id r = u then (Inl ExternalError, s)
      else (Inr (), s\<lparr>lt_rows := lt_rows s @ [\<lparr>
        lr_id = u, lr_status = ''PREPARING'', lr_target_documents = docs, lr_target_duration = dur,
        lr_requested = 0, lr_accepted = 0, lr_429 = 0, lr_4xx = 0, lr_5xx = 0, lr_timeout = 0,
        lr_p50 = 0, lr_p95 = 0, lr_p99 = 0,
        lr_test_result = None, lr_actual_duration = None, lr_throughput = None,
        lr_created_at = now, lr_started_at = None, lr_completed_at = None\<rparr>]\<rparr>))"

text \<open>\<^verbatim>\<open>UPDATE load_test_runs SET ... WHERE test_run_id = $1\<close>; the assignment of one row may violate a
  constraint, which is \<^verbatim>\<open>None\<close>.\<close>

definition update_load_row :: "string \<Rightarrow> (load_row \<Rightarrow> load_row option) \<Rightarrow> (load_tests, unit) op" where
  "update_load_row i f s =
     (case parse_uuid i of
        Inl e \<Rightarrow> (Inl e, s)
      | Inr u \<Rightarrow>
          (if \<exists>r \<in> set (lt_rows s). lr_id r = u \<and> f r = None then (Inl ExternalError, s)
           else (Inr (), s\<lparr>lt_rows := map (\<lambda>r. if lr_id r = u then the (f r) else r) (lt_rows s)\<rparr>)))"

text \<open>\<^verbatim>\<open>if db_pool: try: ... except Exception\<close>\<close>

definition in_database :: "fault \<Rightarrow> (load_tests, unit) op \<Rightarrow> load_tests \<Rightarrow> load_tests" where
  "in_database f m s = (if lt_pool s then snd (with_fault f m s) else s)"

section \<open>Starting a test\<close>

definition first_number :: "string \<Rightarrow> int py_result" where
  "first_number s = (case split_words s of [] \<Rightarrow> Inl IndexError | w # _ \<Rightarrow> py_int_of_str 10 w)"

definition parse_scenario :: "string \<Rightarrow> (int \<times> int) py_result" where
  "parse_scenario scenario =
     (let parts = split_on (CHR ''/'') (py_strip scenario) in
      py_bind (if parts \<noteq> [] then first_number (hd parts) else Inr 100) (\<lambda>docs.
      py_bind (if 1 < length parts then first_number (parts ! 1) else Inr 10) (\<lambda>dur.
      Inr (docs, dur))))"

definition clamp :: "int \<Rightarrow> int \<Rightarrow> int \<Rightarrow> int" where
  "clamp lo hi x = min hi (max lo x)"

record start_env =
  sv_id :: uuid
  sv_wall :: pyfloat
  sv_now :: int
  sv_insert :: fault

definition read_test_request :: "pyval py_result \<Rightarrow> (int \<times> int \<times> pyval) py_result" where
  "read_test_request body =
     py_bind body (\<lambda>v.
     py_bind (py_get v ''scenario'' (PStr ''100 documents / 10 seconds'')) (\<lambda>sc.
     py_bind (case sc of PStr s \<Rightarrow> parse_scenario s | _ \<Rightarrow> Inl AttributeError) (\<lambda>(docs, dur).
     py_bind (py_get v ''audit_type'' (PStr ''ISO_27001'')) (\<lambda>audit.
     Inr (clamp 10 10000 docs, clamp 5 300 dur, audit)))))"

definition new_test :: "start_env \<Rightarrow> int \<times> int \<times> pyval \<Rightarrow> perf_test" where
  "new_test env q = (case q of (docs, dur, audit) \<Rightarrow> \<lparr>
     pt_id = uuid_hex (sv_id env), pt_status = ''PREPARING'',
     pt_target_documents = docs, pt_target_duration = dur, pt_audit_type = audit,
     pt_created_at = sv_wall env, pt_started_at = None, pt_figures = None, pt_actual_duration = None,
     pt_error = None, pt_test_result = ''PENDING''\<rparr>)"

text \<open>The answer repeats what \<^verbatim>\<open>performance_tests\<close> holds; the test itself runs in the background.\<close>

definition start_performance_test :: "start_env \<Rightarrow> pyval py_result \<Rightarrow> (load_tests, perf_test) op" where
  "start_performance_test env body s =
     (case read_test_request body of
        Inl e \<Rightarrow> (Inl e, s)
      | Inr q \<Rightarrow>
          (let t = new_test env q;
               s1 = s\<lparr>lt_tests := (lt_tests s)(pt_id t \<mapsto> t)\<rparr>
           in (Inr t, in_database (sv_insert env)
                 (insert_load_row (sv_id env) (pt_target_documents t) (pt_target_duration t) (sv_now env)) s1)))"

section \<open>Running it\<close>

text \<open>\<^verbatim>\<open>run_performance_test\<close> until it awaits the burst.\<close>

definition begin_test :: "string \<Rightarrow> pyfloat \<Rightarrow> int \<Rightarrow> fault \<Rightarrow> (load_tests, unit) op" where
  "begin_test i wall now f s =
     (case lt_tests s i of
        None \<Rightarrow> (Inl KeyError, s)
      | Some t \<Rightarrow>
          (Inr (), in_database f (update_load_row i (\<lambda>r. Some (r\<lparr>lr_status := ''RUNNING'', lr_started_at := Some now\<rparr>)))
             (s\<lparr>lt_tests := (lt_tests s)(i \<mapsto> t\<lparr>pt_status := ''RUNNING'', pt_started_at := Some wall\<rparr>)\<rparr>)))"

text \<open>The columns of the latencies are \<^verbatim>\<open>NOT NULL\<close>.\<close>

definition completed_load_row :: "figures \<Rightarrow> string \<Rightarrow> pyfloat \<Rightarrow> int \<Rightarrow> load_row \<Rightarrow> load_row option" where
  "completed_load_row g verdict dur now r =
     (case (fg_p50 g, fg_p95 g, fg_p99 g) of
        (Some p50, Some p95, Some p99) \<Rightarrow>
          Some (r\<lparr>lr_status := ''COMPLETED'',
            lr_requested := fg_requested g, lr_accepted := fg_accepted g, lr_429 := fg_429 g, lr_4xx := fg_4xx g,
            lr_5xx := fg_5xx g, lr_timeout := fg_timeout g,
            lr_p50 := p50, lr_p95 := p95, lr_p99 := p99,
            lr_test_result := Some verdict, lr_actual_duration := Some dur, lr_throughput := Some (fg_throughput g),
            lr_completed_at := Some now\<rparr>)
      | _ \<Rightarrow> None)"

definition failed_load_row :: "int \<Rightarrow> load_row \<Rightarrow> load_row option" where
  "failed_load_row now r =
     Some (r\<lparr>lr_status := ''FAILED'', lr_test_result := Some ''FAIL'', lr_completed_at := Some now\<rparr>)"

text \<open>\<^verbatim>\<open>started_at\<close> was set when the task began.\<close>

definition completed_test :: "figures \<Rightarrow> pyfloat \<Rightarrow> perf_test \<Rightarrow> perf_test" where
  "completed_test g wall t = t\<lparr>
     pt_figures := Some g,
     pt_actual_duration := Some (wall - (case pt_started_at t of None \<Rightarrow> 0 | Some x \<Rightarrow> x)),
     pt_test_result := determine_test_result g (pt_target_documents t),
     pt_status := ''COMPLETED''\<rparr>"

definition failed_test :: "py_exn \<Rightarrow> perf_test \<Rightarrow> perf_test" where
  "failed_test e t = t\<lparr>pt_status := ''FAILED'', pt_error := Some e, pt_test_result := ''FAIL''\<rparr>"

text \<open>The rest of it, from the outcome of the burst.\<close>

definition end_test :: "string \<Rightarrow> figures py_result \<Rightarrow> pyfloat \<Rightarrow> int \<Rightarrow> fault \<Rightarrow> (load_tests, unit) op" where
  "end_test i outcome wall now f s =
     (case lt_tests s i of
        None \<Rightarrow> (Inl KeyError, s)
      | Some t \<Rightarrow>
          (case outcome of
             Inr g \<Rightarrow>
               (let t' = completed_test g wall t in
                (Inr (), in_database f
                   (update_load_row i (completed_load_row g (pt_test_result t') (the (pt_actual_duration t')) now))
                   (s\<lparr>lt_tests := (lt_tests s)(i \<mapsto> t')\<rparr>)))
           | Inl e \<Rightarrow>
               (Inr (), in_database f (update_load_row i (failed_load_row now))
                  (s\<lparr>lt_tests := (lt_tests s)(i \<mapsto> failed_test e t)\<rparr>))))"

section \<open>Asking for it\<close>

text \<open>The answer from memory: numbers that are not there yet are 0.\<close>

definition no_figures :: figures where
  "no_figures = \<lparr>
     fg_requested = 0, fg_completed = 0, fg_accepted = 0, fg_429 = 0, fg_4xx = 0, fg_5xx = 0, fg_timeout = 0,
     fg_transport = 0, fg_p50 = Some 0, fg_p95 = Some 0, fg_p99 = Some 0, fg_duration = 0, fg_elapsed = 0,
     fg_throughput = 0\<rparr>"

record perf_view =
  pv_id :: string
  pv_status :: string
  pv_target_documents :: int
  pv_target_duration :: int
  pv_figures :: figures
  pv_test_result :: string
  pv_actual_duration :: pyfloat

definition view_test :: "string \<Rightarrow> perf_test \<Rightarrow> perf_view" where
  "view_test i t = \<lparr>
     pv_id = i, pv_status = pt_status t,
     pv_target_documents = pt_target_documents t, pv_target_duration = pt_target_duration t,
     pv_figures = (case pt_figures t of None \<Rightarrow> no_figures | Some g \<Rightarrow> g),
     pv_test_result = pt_test_result t,
     pv_actual_duration = (case pt_actual_duration t of None \<Rightarrow> 0 | Some x \<Rightarrow> x)\<rparr>"

datatype test_view = FromMemory perf_view | FromTable load_row

text \<open>Memory first, then the table; a statement that fails is as good as no row.\<close>

definition get_performance_test :: "fault \<Rightarrow> string \<Rightarrow> load_tests \<Rightarrow> test_view py_result" where
  "get_performance_test f i s =
     (case lt_tests s i of
        Some t \<Rightarrow> Inr (FromMemory (view_test i t))
      | None \<Rightarrow>
          (if lt_pool s \<and> f = NoFault
           then (case parse_uuid i of
                   Inl _ \<Rightarrow> Inl (HTTPException 404)
                 | Inr u \<Rightarrow>
                     (case find (\<lambda>r. lr_id r = u) (lt_rows s) of
                        None \<Rightarrow> Inl (HTTPException 404)
                      | Some r \<Rightarrow> Inr (FromTable r)))
           else Inl (HTTPException 404)))"

section \<open>The quick burst\<close>

record quick_burst =
  qb_requested :: int
  qb_accepted :: nat
  qb_429 :: nat
  qb_5xx :: nat
  qb_p50 :: pyfloat
  qb_p95 :: pyfloat
  qb_success_pct :: pyfloat

text \<open>A request's code and latency; any exception counts as 500.\<close>

definition quick_answer :: "reply \<Rightarrow> int \<times> pyfloat" where
  "quick_answer r = (case r of Reply c l \<Rightarrow> (c, l) | _ \<Rightarrow> (500, 0))"

definition quick_count :: "pyval py_result \<Rightarrow> int py_result" where
  "quick_count body =
     py_bind body (\<lambda>v. py_bind (py_get v ''count'' (PInt 100)) (\<lambda>n. py_bind (py_int n) (\<lambda>i. Inr (clamp 10 1000 i))))"

definition quick_percentile :: "pyfloat \<Rightarrow> pyfloat list \<Rightarrow> pyfloat" where
  "quick_percentile q xs =
     (if xs = [] then 0 else sort xs ! nat (py_trunc (float_of_int (int (length xs)) * q)))"

definition quick_figures :: "int \<Rightarrow> reply list \<Rightarrow> quick_burst" where
  "quick_figures n rs =
     (let as = map quick_answer rs;
          accepted = filter (\<lambda>a. fst a = 202) as;
          lats = map snd accepted
      in \<lparr>qb_requested = n,
          qb_accepted = length accepted,
          qb_429 = length (filter (\<lambda>a. fst a = 429) as),
          qb_5xx = length (filter (\<lambda>a. 500 \<le> fst a) as),
          qb_p50 = py_round (quick_percentile (Fl (1/2)) lats) 2,
          qb_p95 = py_round (quick_percentile (Fl (95/100)) lats) 2,
          qb_success_pct = py_round (int_truediv (int (length accepted)) n * Fl 100) 1\<rparr>)"

text \<open>As many requests as the clamped count says.\<close>

definition trigger_burst :: "pyval py_result \<Rightarrow> (nat \<Rightarrow> reply) \<Rightarrow> quick_burst py_result" where
  "trigger_burst body replies =
     py_bind (quick_count body) (\<lambda>n. Inr (quick_figures n (map replies [0..<nat n])))"

section \<open>Bounds\<close>

lemma clamp_bounds: "lo \<le> hi \<Longrightarrow> lo \<le> clamp lo hi x \<and> clamp lo hi x \<le> hi"
  by (simp add: clamp_def)

lemma clamp_inside: "lo \<le> x \<Longrightarrow> x \<le> hi \<Longrightarrow> clamp lo hi x = x"
  by (simp add: clamp_def)

lemma parse_uuid_hex: "parse_uuid (uuid_hex u) = Inr u"
proof -
  have d: "is_digits 16 (uuid_hex u)" by (simp add: uuid_hex_def is_digits_fixed_hex)
  then have h: "hex_or_dash (uuid_hex u)" by (auto simp: hex_or_dash_def is_digits_def)
  have "\<forall>c \<in> set (uuid_hex u). c \<noteq> CHR ''-''" using d digit_char_not by (fastforce simp: is_digits_def)
  then have f: "filter (\<lambda>c. c \<noteq> CHR ''-'') (uuid_hex u) = uuid_hex u" by (simp add: filter_id_conv)
  have l: "length (uuid_hex u) = 32" by (simp add: uuid_hex_def)
  have b: "0 \<le> uint u \<and> uint u < 2 ^ 128" using unsigned_less [of u, where 'a=int] by simp
  have "parse_uuid (uuid_hex u) =
        py_bind (Inr (uint u)) (\<lambda>i. if 0 \<le> i \<and> i < 2 ^ 128 then Inr (word_of_int i) else Inl ValueError)"
    by (simp only: parse_uuid_def parse_uuid_cleanup [OF hex_chars [OF h]] f l Let_def py_int_of_uuid_hex simp_thms if_False)
  also have "\<dots> = Inr u" using b by (simp only: py_bind_simps simp_thms if_True word_of_int_uint)
  finally show ?thesis .
qed

lemma uuid_hex_inj: "uuid_hex u = uuid_hex w \<longleftrightarrow> u = w"
  using parse_uuid_hex by (metis sum.inject(2))

text \<open>What a request for a test is read as.\<close>

lemma read_test_bounds:
  assumes "read_test_request body = Inr (docs, dur, audit)"
  shows "10 \<le> docs" "docs \<le> 10000" "5 \<le> dur" "dur \<le> 300"
  using assms clamp_bounds [of 10 10000] clamp_bounds [of 5 300]
  by (auto simp: read_test_request_def py_bind_eq_Inr)

section \<open>Reachable states\<close>

text \<open>Tests start, and their tasks run on, in any order; a task ends after it has begun.  An identifier
  is never drawn twice.\<close>

inductive perf_step :: "load_tests \<Rightarrow> load_tests \<Rightarrow> bool" where
  starts: "start_performance_test env body s = (r, s') \<Longrightarrow> lt_tests s (uuid_hex (sv_id env)) = None \<Longrightarrow> perf_step s s'"
| begins: "lt_tests s i = Some t \<Longrightarrow> pt_status t = ''PREPARING'' \<Longrightarrow> begin_test i wall now f s = (r, s') \<Longrightarrow> perf_step s s'"
| ends: "lt_tests s i = Some t \<Longrightarrow> pt_status t = ''RUNNING'' \<Longrightarrow> end_test i outcome wall now f s = (r, s') \<Longrightarrow> perf_step s s'"

inductive perf_reach :: "load_tests \<Rightarrow> load_tests \<Rightarrow> bool" for s0 where
  here: "perf_reach s0 s0"
| next_step: "perf_reach s0 s \<Longrightarrow> perf_step s s' \<Longrightarrow> perf_reach s0 s'"

text \<open>A test in memory is in one of its four states, and its verdict is that of its figures.\<close>

definition test_ok :: "perf_test \<Rightarrow> bool" where
  "test_ok t \<longleftrightarrow>
     10 \<le> pt_target_documents t \<and> pt_target_documents t \<le> 10000 \<and> 5 \<le> pt_target_duration t \<and> pt_target_duration t \<le> 300 \<and>
     (pt_status t = ''PREPARING'' \<and> pt_figures t = None \<and> pt_test_result t = ''PENDING''
      \<or> pt_status t = ''RUNNING'' \<and> pt_figures t = None \<and> pt_test_result t = ''PENDING''
      \<or> pt_status t = ''FAILED'' \<and> pt_figures t = None \<and> pt_test_result t = ''FAIL''
      \<or> (pt_status t = ''COMPLETED'' \<and>
          (\<exists>g. pt_figures t = Some g \<and> pt_test_result t = determine_test_result g (pt_target_documents t))))"

text \<open>What a row that has an end says of the test.\<close>

definition row_figures :: "load_row \<Rightarrow> nat \<times> nat \<times> nat \<times> nat \<times> nat \<times> nat" where
  "row_figures r = (lr_requested r, lr_accepted r, lr_429 r, lr_4xx r, lr_5xx r, lr_timeout r)"

definition test_figures :: "figures \<Rightarrow> nat \<times> nat \<times> nat \<times> nat \<times> nat \<times> nat" where
  "test_figures g = (fg_requested g, fg_accepted g, fg_429 g, fg_4xx g, fg_5xx g, fg_timeout g)"

definition row_ok :: "perf_test \<Rightarrow> load_row \<Rightarrow> bool" where
  "row_ok t r \<longleftrightarrow>
     lr_target_documents r = pt_target_documents t \<and> lr_target_duration r = pt_target_duration t \<and>
     (lr_status r = ''PREPARING'' \<and> lr_test_result r = None
      \<or> lr_status r = ''RUNNING'' \<and> lr_test_result r = None \<and> pt_status t \<noteq> ''PREPARING''
      \<or> lr_status r = ''FAILED'' \<and> lr_status r = pt_status t \<and> lr_test_result r = Some (pt_test_result t)
      \<or> lr_status r = ''COMPLETED'' \<and> lr_status r = pt_status t \<and> lr_test_result r = Some (pt_test_result t) \<and>
        map_option test_figures (pt_figures t) = Some (row_figures r))"

definition perf_inv :: "load_tests \<Rightarrow> bool" where
  "perf_inv s \<longleftrightarrow>
     (\<forall>i t. lt_tests s i = Some t \<longrightarrow> test_ok t \<and> (\<exists>u. i = uuid_hex u)) \<and>
     (\<forall>r \<in> set (lt_rows s). \<exists>t. lt_tests s (uuid_hex (lr_id r)) = Some t \<and> row_ok t r) \<and>
     distinct (map lr_id (lt_rows s))"


lemma perf_inv_lookup:
  assumes "perf_inv s" "lt_tests s i = Some t"
  obtains u where "i = uuid_hex u" "test_ok t" "\<forall>r \<in> set (lt_rows s). lr_id r = u \<longrightarrow> row_ok t r"
  using assms by (fastforce simp: perf_inv_def)

lemma perf_invI:
  assumes "\<And>i t. lt_tests s i = Some t \<Longrightarrow> test_ok t \<and> (\<exists>u. i = uuid_hex u)"
    "\<And>r. r \<in> set (lt_rows s) \<Longrightarrow> \<exists>t. lt_tests s (uuid_hex (lr_id r)) = Some t \<and> row_ok t r"
    "distinct (map lr_id (lt_rows s))"
  shows "perf_inv s"
  using assms by (simp add: perf_inv_def)

text \<open>A statement on one test's row, together with the change of that test in memory.\<close>

lemma perf_inv_update:
  assumes "perf_inv s" "lt_tests s (uuid_hex u) = Some t" "test_ok t'"
    "\<And>r. lr_id r = u \<Longrightarrow> row_ok t r \<Longrightarrow> row_ok t' r"
    "\<And>r r'. lr_id r = u \<Longrightarrow> row_ok t r \<Longrightarrow> f r = Some r' \<Longrightarrow> row_ok t' r' \<and> lr_id r' = u"
  shows "perf_inv (in_database ft (update_load_row (uuid_hex u) f) (s\<lparr>lt_tests := (lt_tests s)(uuid_hex u \<mapsto> t')\<rparr>))"
proof -
  let ?s = "s\<lparr>lt_tests := (lt_tests s)(uuid_hex u \<mapsto> t')\<rparr>"
  let ?upd = "\<lambda>r. if lr_id r = u then the (f r) else r"
  have own: "row_ok t r" if "r \<in> set (lt_rows s)" "lr_id r = u" for r
    using assms(1,2) that by (auto simp: perf_inv_def)
  have inv: "perf_inv ?s" using assms(1,3,4) own by (auto simp: perf_inv_def uuid_hex_inj)
  have "perf_inv (?s\<lparr>lt_rows := map ?upd (lt_rows s)\<rparr>)"
    if n: "\<not> (\<exists>r \<in> set (lt_rows s). lr_id r = u \<and> f r = None)"
  proof -
    have r: "lr_id r = u \<longrightarrow> row_ok t' (the (f r)) \<and> lr_id (the (f r)) = u" if "r \<in> set (lt_rows s)" for r
    proof
      assume "lr_id r = u"
      moreover from this obtain r' where "f r = Some r'" using n \<open>r \<in> set (lt_rows s)\<close> by (cases "f r") auto
      ultimately show "row_ok t' (the (f r)) \<and> lr_id (the (f r)) = u" using assms(5) [of r r'] own [OF \<open>r \<in> set (lt_rows s)\<close>] by simp
    qed
    then have "map lr_id (map ?upd (lt_rows s)) = map lr_id (lt_rows s)" by auto
    then have "distinct (map lr_id (map ?upd (lt_rows s)))" using assms(1) by (simp only: perf_inv_def)
    moreover have entry: "\<exists>t''. lt_tests ?s (uuid_hex (lr_id (?upd r))) = Some t'' \<and> row_ok t'' (?upd r)" if "r \<in> set (lt_rows s)" for r
      using r [OF that] inv that by (cases "lr_id r = u") (auto simp: perf_inv_def)
    ultimately show ?thesis
    proof (intro perf_invI, goal_cases)
      case (1 i t'')
      then show ?case using inv by (simp add: perf_inv_def)
    next
      case (2 r)
      then obtain x where "x \<in> set (lt_rows s)" "r = ?upd x" by auto
      moreover have "lt_tests (?s\<lparr>lt_rows := rows\<rparr>) = lt_tests ?s" for rows by simp
      ultimately show ?case using entry [of x] by (simp only:)
    next
      case 3
      have "lt_rows (?s\<lparr>lt_rows := rows\<rparr>) = rows" for rows by simp
      with 3 show ?case by (simp only:)
    qed
  qed
  then have "perf_inv (snd (update_load_row (uuid_hex u) f ?s))"
    using inv by (auto simp: update_load_row_def parse_uuid_hex)
  then show ?thesis using inv by (cases ft) (auto simp: in_database_def)
qed

lemma completed_row_ok:
  assumes "completed_load_row g (pt_test_result (completed_test g wall t)) dur now r = Some r'" "row_ok t r"
  shows "row_ok (completed_test g wall t) r' \<and> lr_id r' = lr_id r"
proof -
  obtain p50 p95 p99 where "fg_p50 g = Some p50" "fg_p95 g = Some p95" "fg_p99 g = Some p99"
    using assms(1) by (auto simp: completed_load_row_def split: option.splits)
  moreover have "lr_target_documents r = pt_target_documents t" "lr_target_duration r = pt_target_duration t"
    using assms(2) by (simp_all add: row_ok_def)
  ultimately show ?thesis
    using assms(1) by (auto simp: completed_load_row_def completed_test_def row_ok_def row_figures_def test_figures_def)
qed

lemma perf_step_inv:
  assumes "perf_step s s'" "perf_inv s" shows "perf_inv s'"
  using assms(1)
proof (cases rule: perf_step.cases)
  case (starts env body r)
  show ?thesis
  proof (cases "read_test_request body")
    case (Inr q)
    let ?t = "new_test env q" and ?i = "uuid_hex (sv_id env)"
    let ?s = "s\<lparr>lt_tests := (lt_tests s)(?i \<mapsto> ?t)\<rparr>"
    obtain docs dur audit where q: "q = (docs, dur, audit)" by (cases q) auto
    then have ok: "test_ok ?t" using read_test_bounds [of body docs dur audit] Inr by (simp add: test_ok_def new_test_def)
    have none: "\<forall>r \<in> set (lt_rows s). lr_id r \<noteq> sv_id env" using assms(2) starts(2) by (force simp: perf_inv_def)
    have inv: "perf_inv ?s" using assms(2) ok none starts(2) by (auto simp: perf_inv_def uuid_hex_inj)
    have "perf_inv (snd (insert_load_row (sv_id env) (pt_target_documents ?t) (pt_target_duration ?t) (sv_now env) ?s))"
      using inv none by (auto simp: insert_load_row_def perf_inv_def row_ok_def)
    then have "perf_inv (in_database (sv_insert env)
        (insert_load_row (sv_id env) (pt_target_documents ?t) (pt_target_duration ?t) (sv_now env)) ?s)"
      using inv by (cases "sv_insert env") (auto simp: in_database_def)
    moreover have "pt_id ?t = ?i" by (simp add: new_test_def q)
    ultimately show ?thesis using starts(1) Inr by (auto simp: start_performance_test_def Let_def)
  qed (use starts(1) assms(2) in \<open>simp add: start_performance_test_def\<close>)
next
  case (begins i t wall now f r)
  obtain u where u: "i = uuid_hex u" "test_ok t" by (rule perf_inv_lookup [OF assms(2) begins(1)])
  show ?thesis using begins u
    by (auto simp: begin_test_def test_ok_def row_ok_def intro!: perf_inv_update [OF assms(2)])
next
  case (ends i t outcome wall now f r)
  obtain u where u: "i = uuid_hex u" "test_ok t" by (rule perf_inv_lookup [OF assms(2) ends(1)])
  show ?thesis
  proof (cases outcome)
    case (Inl e)
    then show ?thesis using ends u
      by (auto simp: end_test_def test_ok_def row_ok_def failed_test_def failed_load_row_def intro!: perf_inv_update [OF assms(2)])
  next
    case (Inr g)
    have row: "row_ok (completed_test g wall t) r' \<and> lr_id r' = u"
      if "lr_id r = u" "row_ok t r"
        "completed_load_row g (pt_test_result (completed_test g wall t)) (the (pt_actual_duration (completed_test g wall t))) now r = Some r'" for r r'
      using completed_row_ok that by blast
    have ok: "test_ok (completed_test g wall t)" using u(2) by (auto simp: completed_test_def test_ok_def)
    have keep: "row_ok t r \<Longrightarrow> row_ok (completed_test g wall t) r" for r
      using ends(2) by (auto simp: completed_test_def row_ok_def)
    note inv = perf_inv_update [OF assms(2) ends(1) [unfolded u(1)] ok keep row]
    have "s' = snd (end_test (uuid_hex u) (Inr g) wall now f s)" using ends(3) by (simp add: Inr u(1))
    also have "perf_inv \<dots>" using inv by (simp only: end_test_def ends(1) [unfolded u(1)] option.case sum.case Let_def snd_conv)
    finally show ?thesis .
  qed
qed

lemma perf_reach_inv: "perf_reach s0 s \<Longrightarrow> perf_inv s0 \<Longrightarrow> perf_inv s"
  by (induction rule: perf_reach.induct) (auto intro: perf_step_inv)

section \<open>What the answers are worth\<close>

text \<open>C25: whatever tests run side by side and whatever statements fail, a test never reports more than it
  did: it has between 10 and 10000 documents and between 5 and 300 seconds, its verdict is PENDING
  until it ends, PASS is the verdict of figures that pass, and a row of the table that has a verdict
  has the one of the test in memory.\<close>

theorem reported_tests_are_true:
  assumes "perf_reach \<lparr>lt_pool = pool, lt_tests = \<lambda>_. None, lt_rows = []\<rparr> s" "lt_tests s i = Some t"
  shows "get_performance_test f i s = Inr (FromMemory (view_test i t)) \<and>
    pt_target_documents t \<in> {10..10000} \<and> pt_target_duration t \<in> {5..300} \<and>
    (pt_test_result t = ''PASS'' \<longrightarrow> pt_status t = ''COMPLETED'' \<and>
      (\<exists>g. pt_figures t = Some g \<and> determine_test_result g (pt_target_documents t) = ''PASS'')) \<and>
    (pt_test_result t = ''PENDING'' \<longleftrightarrow> pt_status t = ''PREPARING'' \<or> pt_status t = ''RUNNING'') \<and>
    (\<forall>r \<in> set (lt_rows s). uuid_hex (lr_id r) = i \<longrightarrow> lr_test_result r \<noteq> None \<longrightarrow>
      lr_status r = pt_status t \<and> lr_test_result r = Some (pt_test_result t))"
proof -
  have inv: "perf_inv s" using perf_reach_inv [OF assms(1)] by (simp add: perf_inv_def)
  obtain u where u: "i = uuid_hex u" "test_ok t" "\<forall>r \<in> set (lt_rows s). lr_id r = u \<longrightarrow> row_ok t r"
    by (rule perf_inv_lookup [OF inv assms(2)])
  have "determine_test_result g d \<noteq> ''PENDING''" "''PENDING'' \<noteq> determine_test_result g d" for g d
    by (auto simp: determine_test_result_def split: option.split)
  then have "(pt_test_result t = ''PASS'' \<longrightarrow> pt_status t = ''COMPLETED'' \<and>
      (\<exists>g. pt_figures t = Some g \<and> determine_test_result g (pt_target_documents t) = ''PASS'')) \<and>
    (pt_test_result t = ''PENDING'' \<longleftrightarrow> pt_status t = ''PREPARING'' \<or> pt_status t = ''RUNNING'')"
    using u(2) by (auto simp: test_ok_def)
  moreover have "pt_target_documents t \<in> {10..10000}" "pt_target_duration t \<in> {5..300}"
    using u(2) by (auto simp: test_ok_def)
  moreover have "\<forall>r \<in> set (lt_rows s). uuid_hex (lr_id r) = i \<longrightarrow> lr_test_result r \<noteq> None \<longrightarrow>
      lr_status r = pt_status t \<and> lr_test_result r = Some (pt_test_result t)"
    using u(1,3) by (auto simp: row_ok_def uuid_hex_inj)
  ultimately show ?thesis using assms(2) by (simp add: get_performance_test_def)
qed

definition example_start :: start_env where
  "example_start = \<lparr>sv_id = 7, sv_wall = 0, sv_now = 0, sv_insert = NoFault\<rparr>"

theorem reported_tests_are_true_witness:
  "\<exists>s t. lt_tests s (uuid_hex 7) = Some t \<and> pt_target_documents t = 100 \<and> pt_status t = ''PREPARING'' \<and>
     get_performance_test NoFault (uuid_hex 7) s = Inr (FromMemory (view_test (uuid_hex 7) t)) \<and> pt_test_result t = ''PENDING''"
proof -
  let ?s = "\<lparr>lt_pool = False, lt_tests = \<lambda>_. None, lt_rows = []\<rparr>"
  have "read_test_request (Inr (PDict [])) = Inr (100, 10, PStr ''ISO_27001'')" by code_simp
  then obtain t s where r: "start_performance_test example_start (Inr (PDict [])) ?s = (Inr t, s)" "lt_tests s (uuid_hex 7) = Some t"
    "pt_target_documents t = 100" "pt_status t = ''PREPARING''"
    by (auto simp: start_performance_test_def new_test_def example_start_def Let_def in_database_def)
  then have "perf_reach ?s s"
    by (auto intro!: perf_reach.next_step [OF perf_reach.here] perf_step.starts)
  from reported_tests_are_true [OF this r(2), of NoFault] r show ?thesis by blast
qed

lemma reply_latencies_empty: "reply_latencies rs \<noteq> [] \<longleftrightarrow> (\<exists>c l. Reply c l \<in> set rs)"
proof (induction rs)
  case (Cons r rs)
  then show ?case by (cases r) (auto simp: reply_latencies_def)
qed (simp add: reply_latencies_def)

lemma perf_reach_pool: "perf_reach s0 s \<Longrightarrow> lt_pool s = lt_pool s0"
  by (induction rule: perf_reach.induct)
    (auto simp: start_performance_test_def begin_test_def end_test_def in_database_def Let_def with_fault_def
      insert_load_row_def update_load_row_def elim!: perf_step.cases split: sum.splits option.splits fault.splits if_splits)

text \<open>A burst has latencies exactly if one of its requests was answered.\<close>

lemma burst_latencies:
  assumes "run_timed_burst elapsed d rs = Inr g"
  shows "fg_p50 g = None \<longleftrightarrow> \<not> (\<exists>c l. Reply c l \<in> set rs)" "fg_p95 g = None \<longleftrightarrow> \<not> (\<exists>c l. Reply c l \<in> set rs)"
    "fg_p99 g = None \<longleftrightarrow> \<not> (\<exists>c l. Reply c l \<in> set rs)"
proof -
  obtain b where b: "record_replies rs new_burst = (Inr (), b)" "g = burst_figures (length rs) elapsed b"
    using assms by (auto simp: run_timed_burst_def split: if_splits prod.splits sum.splits)
  have "bu_latencies b = reply_latencies rs" using record_replies_latencies [OF b(1)] by (simp add: new_burst_def)
  then show "fg_p50 g = None \<longleftrightarrow> \<not> (\<exists>c l. Reply c l \<in> set rs)" "fg_p95 g = None \<longleftrightarrow> \<not> (\<exists>c l. Reply c l \<in> set rs)"
    "fg_p99 g = None \<longleftrightarrow> \<not> (\<exists>c l. Reply c l \<in> set rs)"
    using reply_latencies_empty [of rs] by (simp_all add: b(2) burst_figures_def Let_def percentile_def) blast+
qed

text \<open>The result of a test is stored with its figures if any of its requests was answered; a test
  none of whose requests was answered has no latencies, its UPDATE violates the table's constraint,
  and its row stays RUNNING for ever although memory says COMPLETED.\<close>

theorem unanswered_test_is_not_stored:
  assumes "perf_reach \<lparr>lt_pool = True, lt_tests = \<lambda>_. None, lt_rows = []\<rparr> s" "lt_tests s i = Some t" "pt_status t = ''RUNNING''"
    "row \<in> set (lt_rows s)" "uuid_hex (lr_id row) = i" "run_timed_burst elapsed d rs = Inr g"
  shows "\<exists>s' t' row'. end_test i (Inr g) wall now NoFault s = (Inr (), s') \<and> lt_tests s' i = Some t' \<and> pt_status t' = ''COMPLETED'' \<and>
    row' \<in> set (lt_rows s') \<and> lr_id row' = lr_id row \<and>
    (if \<exists>c l. Reply c l \<in> set rs
     then lr_status row' = ''COMPLETED'' \<and> lr_test_result row' = Some (pt_test_result t') \<and> row_figures row' = test_figures g
     else row' = row)"
proof -
  let ?t = "completed_test g wall t" and ?u = "lr_id row"
  let ?f = "completed_load_row g (pt_test_result ?t) (the (pt_actual_duration ?t)) now"
  let ?s = "s\<lparr>lt_tests := (lt_tests s)(i \<mapsto> ?t)\<rparr>"
  have "lt_pool s" using perf_reach_pool [OF assms(1)] by simp
  then have e: "end_test i (Inr g) wall now NoFault s = (Inr (), snd (update_load_row i ?f ?s))"
    by (simp add: end_test_def assms(2) Let_def in_database_def)
  note p = burst_latencies [OF assms(6)]
  show ?thesis
  proof (cases "\<exists>c l. Reply c l \<in> set rs")
    case True
    then obtain row' where f: "?f row = Some row'" using p True by (auto simp: completed_load_row_def split: option.split)
    have "?f r \<noteq> None" for r using p True by (auto simp: completed_load_row_def split: option.splits)
    then have "update_load_row i ?f ?s = (Inr (), ?s\<lparr>lt_rows := map (\<lambda>r. if lr_id r = ?u then the (?f r) else r) (lt_rows s)\<rparr>)"
      by (simp add: update_load_row_def parse_uuid_hex flip: assms(5))
    moreover have "lr_id row' = ?u" "lr_status row' = ''COMPLETED''" "lr_test_result row' = Some (pt_test_result ?t)"
      "row_figures row' = test_figures g"
      using f by (auto simp: completed_load_row_def row_figures_def test_figures_def split: option.splits)
    ultimately show ?thesis using e f assms(4) True
      by (intro exI [of _ "snd (update_load_row i ?f ?s)"] exI [of _ ?t] exI [of _ row'])
        (force simp: completed_test_def)
  next
    case False
    then have "?f row = None" using p by (simp add: completed_load_row_def)
    then have "update_load_row i ?f ?s = (Inl ExternalError, ?s)"
      using assms(4) by (auto simp: update_load_row_def parse_uuid_hex simp flip: assms(5))
    then show ?thesis using e assms(4) False
      by (intro exI [of _ ?s] exI [of _ ?t] exI [of _ row]) (simp add: completed_test_def)
  qed
qed

theorem unanswered_test_is_not_stored_witness:
  "\<exists>(s' :: load_tests) t' row'. lt_tests s' (uuid_hex 7) = Some t' \<and> pt_status t' = ''COMPLETED'' \<and> row' \<in> set (lt_rows s') \<and>
     lr_id row' = 7 \<and> lr_status row' = ''RUNNING''"
proof -
  let ?s0 = "\<lparr>lt_pool = True, lt_tests = \<lambda>_. None, lt_rows = []\<rparr>" and ?i = "uuid_hex 7"
  have "read_test_request (Inr (PDict [])) = Inr (100, 10, PStr ''ISO_27001'')" by code_simp
  then obtain t s row where r: "start_performance_test example_start (Inr (PDict [])) ?s0 = (Inr t, s)" "lt_tests s ?i = Some t"
    "pt_status t = ''PREPARING''" "lt_rows s = [row]" "lr_id row = 7" "lt_pool s"
    by (auto simp: start_performance_test_def new_test_def example_start_def Let_def in_database_def insert_load_row_def)
  obtain s1 where b: "begin_test ?i 0 0 NoFault s = (Inr (), s1)" by (simp add: begin_test_def r(2))
  then have s1: "lt_tests s1 ?i = Some (t\<lparr>pt_status := ''RUNNING'', pt_started_at := Some 0\<rparr>)"
    "lt_rows s1 = [row\<lparr>lr_status := ''RUNNING'', lr_started_at := Some 0\<rparr>]"
    using r by (auto simp: begin_test_def in_database_def update_load_row_def parse_uuid_hex)
  have "perf_reach ?s0 s"
    using r(1) by (intro perf_reach.next_step [OF perf_reach.here] perf_step.starts) simp_all
  then have reach: "perf_reach ?s0 s1" using perf_step.begins [OF r(2,3) b] by (rule perf_reach.next_step)
  obtain g where g: "run_timed_burst 0 5 [TimedOut] = Inr g" by (simp add: run_timed_burst_def record_reply_def)
  have "pt_status (t\<lparr>pt_status := ''RUNNING'', pt_started_at := Some 0\<rparr>) = ''RUNNING''" by simp
  let ?row = "row\<lparr>lr_status := ''RUNNING'', lr_started_at := Some 0\<rparr>"
  obtain s' :: load_tests and t' where e: "lt_tests s' ?i = Some t'" "pt_status t' = ''COMPLETED''" "?row \<in> set (lt_rows s')"
    using unanswered_test_is_not_stored [OF reach s1(1) \<open>pt_status _ = ''RUNNING''\<close> _ _ g, of ?row 0 0] r(5) s1(2) by auto
  show ?thesis by (intro exI [of _ s'] exI [of _ t'] exI [of _ ?row]) (simp add: e r(5))
qed

end
