(* ===== verification/Telemetry.thy ===== *)
theory Telemetry imports ApiProperties ConsumerProperties begin

text \<open>
  The dashboard's telemetry (\<^verbatim>\<open>get_telemetry\<close> of \<^verbatim>\<open>dashboard/src/app.py\<close>): what it makes of the answers
  of the API's health, statistics and console endpoints and of Prometheus, and what it then says of
  the API and the database behind them.  An answer is a status code with what decoding its body
  gives, or the exception the request raised.
\<close>

section \<open>Numbers\<close>

definition digits_part :: "string \<Rightarrow> nat option" where
  "digits_part s = (if s = [] then Some 0 else parse_digits 10 s)"

definition exponent_part :: "string \<Rightarrow> int option" where
  "exponent_part s =
     (let neg = prefix ''-'' s; u = (if neg \<or> prefix ''+'' s then drop 1 s else s)
      in map_option (\<lambda>n. if neg then - int n else int n) (parse_digits 10 u))"

text \<open>A decimal numeral without its sign: digits with a point and an exponent.\<close>

definition parse_decimal :: "string \<Rightarrow> rat option" where
  "parse_decimal s =
     (let not_e = (\<lambda>c. c \<noteq> CHR ''e'' \<and> c \<noteq> CHR ''E'');
          m = takeWhile not_e s; r = dropWhile not_e s;
          whole = takeWhile (\<lambda>c. c \<noteq> CHR ''.'') m;
          frac = drop 1 (dropWhile (\<lambda>c. c \<noteq> CHR ''.'') m);
          k = length (filter (\<lambda>c. c \<noteq> CHR ''_'') frac)
      in if whole = [] \<and> frac = [] then None
         else case (digits_part whole, digits_part frac, if r = [] then Some 0 else exponent_part (drop 1 r)) of
                (Some n, Some f, Some e) \<Rightarrow> Some ((of_nat n + of_nat f / 10 ^ k) * 10 powi e)
              | _ \<Rightarrow> None)"

definition lower_ascii :: "char \<Rightarrow> char" where
  "lower_ascii c = (let n = code_point c in if 65 \<le> n \<and> n \<le> 90 then char_of (n + 32) else c)"

text \<open>\<^verbatim>\<open>float(s)\<close>; \<^verbatim>\<open>None\<close> is a value that is not finite.\<close>

definition py_float_of_str :: "string \<Rightarrow> pyfloat option py_result" where
  "py_float_of_str s =
     (let t = py_strip s; neg = prefix ''-'' t; u = (if neg \<or> prefix ''+'' t then drop 1 t else t)
      in if map lower_ascii u \<in> {''inf'', ''infinity'', ''nan''} then Inr None
         else case parse_decimal u of
                None \<Rightarrow> Inl ValueError
              | Some x \<Rightarrow>
                  (if 2 ^ 1024 \<le> fl x then Inr None else Inr (Some (Fl (if neg then - x else x)))))"

fun py_float :: "pyval \<Rightarrow> pyfloat option py_result" where
  "py_float (PFloat x) = Inr (Some x)"
| "py_float (PInt i) = Inr (Some (float_of_int i))"
| "py_float (PBool b) = Inr (Some (if b then 1 else 0))"
| "py_float (PStr s) = py_float_of_str s"
| "py_float _ = Inl TypeError"

text \<open>\<^verbatim>\<open>v[i]\<close> for a literal index\<close>

fun py_index :: "pyval \<Rightarrow> nat \<Rightarrow> pyval py_result" where
  "py_index (PList xs) i = (if i < length xs then Inr (xs ! i) else Inl IndexError)"
| "py_index (PStr s) i = (if i < length s then Inr (PStr [s ! i]) else Inl IndexError)"
| "py_index (PDict kvs) i = Inl KeyError"
| "py_index _ i = Inl TypeError"

section \<open>Prometheus\<close>

type_synonym http_answer = "(int \<times> pyval py_result) py_result"

definition first_sample :: "pyval \<Rightarrow> pyfloat option py_result" where
  "first_sample payload =
     py_bind (py_get payload ''data'' (PDict [])) (\<lambda>dat.
     py_bind (py_get dat ''result'' (PList [])) (\<lambda>result.
     if \<not> truthy result then Inr None
     else
       py_bind (py_index result 0) (\<lambda>x.
       py_bind (py_get x ''value'' (PList [PNone, PNone])) (\<lambda>v.
       py_bind (py_index v 1) (\<lambda>w.
       if w = PNone then Inr None else py_float w)))))"

definition query_prometheus :: "http_answer \<Rightarrow> pyfloat option" where
  "query_prometheus ans =
     (case ans of
        Inr (code, body) \<Rightarrow>
          (if code \<noteq> 200 then None
           else case py_bind body first_sample of Inl _ \<Rightarrow> None | Inr v \<Rightarrow> v)
      | Inl _ \<Rightarrow> None)"

text \<open>\<^verbatim>\<open>x or 0.0\<close>\<close>

definition metric :: "http_answer \<Rightarrow> pyfloat" where
  "metric ans = (case query_prometheus ans of None \<Rightarrow> 0 | Some x \<Rightarrow> x)"

section \<open>Totals and health\<close>

record doc_totals =
  dt_submitted :: int
  dt_processing :: int
  dt_completed :: int
  dt_failed :: int

fun int_put :: "string \<Rightarrow> int \<Rightarrow> (string \<times> int) list \<Rightarrow> (string \<times> int) list" where
  "int_put k v [] = [(k, v)]"
| "int_put k v (e # es) = (if fst e = k then (k, v) # es else e # int_put k v es)"

fun normalize_counts :: "(string \<times> pyval) list \<Rightarrow> (string \<times> int) list \<Rightarrow> (string \<times> int) list py_result" where
  "normalize_counts [] acc = Inr acc"
| "normalize_counts ((k, v) # kvs) acc =
     py_bind (py_int (py_or v (PInt 0))) (\<lambda>n. normalize_counts kvs (int_put (py_upper k) n acc))"

definition int_get :: "(string \<times> int) list \<Rightarrow> string \<Rightarrow> int" where
  "int_get kvs k = (case map_of kvs k of None \<Rightarrow> 0 | Some n \<Rightarrow> n)"

definition reconcile_document_lifecycle :: "pyval \<Rightarrow> doc_totals py_result" where
  "reconcile_document_lifecycle counts =
     (case counts of
        PDict kvs \<Rightarrow>
          py_bind (normalize_counts kvs []) (\<lambda>normalized.
          Inr \<lparr>
            dt_submitted = max 0 (sum_list (map snd normalized)),
            dt_processing = max 0 (sum_list (map (int_get normalized) [''QUEUED'', ''PROCESSING'', ''RETRYING''])),
            dt_completed = max 0 (int_get normalized ''COMPLETED''),
            dt_failed = max 0 (int_get normalized ''FAILED'' + int_get normalized ''REJECTED'')\<rparr>)
      | _ \<Rightarrow> Inr \<lparr>dt_submitted = 0, dt_processing = 0, dt_completed = 0, dt_failed = 0\<rparr>)"

definition evaluate_pipeline_health :: "bool \<Rightarrow> bool \<Rightarrow> bool \<Rightarrow> bool \<Rightarrow> string" where
  "evaluate_pipeline_health api db broker wk =
     (if api \<and> db \<and> broker \<and> wk then ''HEALTHY''
      else if api \<or> db \<or> broker \<or> wk then ''DEGRADED'' else ''UNHEALTHY'')"

section \<open>The telemetry\<close>

record telemetry =
  tm_timestamp :: pyfloat
  tm_api_status :: pyval
  tm_limiter :: pyval
  tm_total_ingested :: int
  tm_total_processed :: int
  tm_active :: int
  tm_submission_rate :: pyfloat
  tm_processing_rate :: pyfloat
  tm_p95_ms :: pyfloat
  tm_http_5xx :: int
  tm_lag :: int
  tm_429 :: int
  tm_error_5xx :: int
  tm_api :: bool
  tm_database :: bool
  tm_broker :: bool
  tm_workers :: bool
  tm_minio :: bool
  tm_status :: string

definition blank_telemetry :: "pyfloat \<Rightarrow> telemetry" where
  "blank_telemetry now = \<lparr>
     tm_timestamp = now, tm_api_status = PStr ''OFFLINE'',
     tm_limiter = PDict [(''current_limit'', PInt 250), (''in_flight'', PInt 0), (''smoothed_rtt_ms'', PInt 0)],
     tm_total_ingested = 0, tm_total_processed = 0, tm_active = 0,
     tm_submission_rate = 0, tm_processing_rate = 0, tm_p95_ms = 0,
     tm_http_5xx = 0, tm_lag = 0, tm_429 = 0, tm_error_5xx = 0,
     tm_api = False, tm_database = False, tm_broker = False, tm_workers = False, tm_minio = False,
     tm_status = []\<rparr>"

text \<open>\<^verbatim>\<open>v.get(k)\<close> of a dict's items\<close>

definition member :: "(string \<times> pyval) list \<Rightarrow> string \<Rightarrow> pyval" where
  "member kvs k = (case map_of kvs k of None \<Rightarrow> PNone | Some v \<Rightarrow> v)"

text \<open>The three reads of the API; an exception on the way keeps what was assigned before it.\<close>

definition read_health :: "http_answer \<Rightarrow> telemetry \<Rightarrow> telemetry" where
  "read_health ans t =
     (case ans of
        Inr (code, Inr (PDict h)) \<Rightarrow>
          (if code \<noteq> 200 then t
           else (let st = item h ''status'' (PStr ''OFFLINE''); t1 = t\<lparr>tm_api_status := st\<rparr>
                 in case py_key st of
                      Inl _ \<Rightarrow> t1
                    | Inr k \<Rightarrow> t1\<lparr>
                        tm_api := (k = KStr ''HEALTHY'' \<or> k = KStr ''DEGRADED''),
                        tm_database := truthy (member h ''database_connected''),
                        tm_broker := truthy (member h ''broker_connected''),
                        tm_minio := truthy (member h ''object_storage_connected'')\<rparr>))
      | _ \<Rightarrow> t)"

definition read_stats :: "http_answer \<Rightarrow> telemetry \<Rightarrow> telemetry" where
  "read_stats ans t =
     (case ans of
        Inr (code, Inr (PDict d)) \<Rightarrow>
          (if code \<noteq> 200 then t else t\<lparr>tm_limiter := item d ''limiter'' (tm_limiter t)\<rparr>)
      | _ \<Rightarrow> t)"

definition read_console :: "http_answer \<Rightarrow> telemetry \<Rightarrow> telemetry" where
  "read_console ans t =
     (case ans of
        Inr (code, Inr (PDict c)) \<Rightarrow>
          (if code \<noteq> 200 then t
           else case reconcile_document_lifecycle (item c ''counts'' (PDict [])) of
                  Inl _ \<Rightarrow> t
                | Inr totals \<Rightarrow> t\<lparr>
                    tm_total_ingested := dt_submitted totals,
                    tm_total_processed := dt_completed totals,
                    tm_active := dt_processing totals,
                    tm_workers := truthy (py_or (member c ''workers'') (PList []))\<rparr>)
      | _ \<Rightarrow> t)"

record telemetry_env =
  te_now :: pyfloat
  te_health :: http_answer
  te_stats :: http_answer
  te_console :: http_answer
  te_submission :: http_answer
  te_processing :: http_answer
  te_p95 :: http_answer
  te_5xx :: http_answer
  te_lag :: http_answer
  te_429 :: http_answer

definition read_metrics :: "telemetry_env \<Rightarrow> telemetry \<Rightarrow> telemetry" where
  "read_metrics env t =
     (let errors = py_trunc (metric (te_5xx env))
      in t\<lparr>
        tm_submission_rate := metric (te_submission env),
        tm_processing_rate := metric (te_processing env),
        tm_p95_ms := metric (te_p95 env) * Fl 1000,
        tm_http_5xx := errors,
        tm_lag := py_trunc (metric (te_lag env)),
        tm_429 := py_trunc (metric (te_429 env)),
        tm_error_5xx := errors\<rparr>)"

definition get_telemetry :: "telemetry_env \<Rightarrow> telemetry" where
  "get_telemetry env =
     (let t = read_metrics env (read_console (te_console env) (read_stats (te_stats env)
                (read_health (te_health env) (blank_telemetry (te_now env)))))
      in t\<lparr>tm_status := evaluate_pipeline_health (tm_api t) (tm_database t) (tm_broker t) (tm_workers t)\<rparr>)"

section \<open>What the API answers\<close>

definition status_text :: "doc_status \<Rightarrow> string" where
  "status_text s =
     (case s of QUEUED \<Rightarrow> ''QUEUED'' | PROCESSING \<Rightarrow> ''PROCESSING'' | COMPLETED \<Rightarrow> ''COMPLETED''
      | RETRYING \<Rightarrow> ''RETRYING'' | FAILED \<Rightarrow> ''FAILED'')"

text \<open>The bodies of the API's answers.  What the telemetry does not read is an argument.\<close>

definition health_reply :: "pyval \<Rightarrow> pyval \<Rightarrow> pyval \<Rightarrow> health \<Rightarrow> pyval" where
  "health_reply service environment now h = PDict [
     (''status'', PStr (health_status h)), (''service'', service), (''environment'', environment), (''timestamp'', now),
     (''broker_connected'', PBool (h_broker h)), (''database_connected'', PBool (h_database h)),
     (''object_storage_connected'', PBool (h_storage h))]"

definition counts_reply :: "console_data \<Rightarrow> pyval" where
  "counts_reply c = PDict (map (\<lambda>(s, n). (status_text s, PInt (int n))) (cd_counts c))"

definition console_reply ::
  "(doc_row \<Rightarrow> pyval) \<Rightarrow> (worker_row \<Rightarrow> pyval) \<Rightarrow> (event_row \<Rightarrow> pyval) \<Rightarrow> (limiter_stats \<Rightarrow> pyval) \<Rightarrow>
   console_data \<times> limiter_stats \<times> bool \<Rightarrow> pyval" where
  "console_reply rd rw re rl x = (case x of (c, stats, broker) \<Rightarrow> PDict [
     (''counts'', counts_reply c), (''documents'', PList (map rd (cd_documents c))),
     (''workers'', PList (map rw (cd_workers c))), (''events'', PList (map re (cd_events c))),
     (''admission'', rl stats), (''broker_connected'', PBool broker)])"

text \<open>The two reads of an app whose endpoints answer.\<close>

definition watches :: "telemetry_env \<Rightarrow> app \<Rightarrow> bool" where
  "watches env a \<longleftrightarrow>
     (\<exists>service environment now. te_health env = Inr (200, Inr (health_reply service environment now (health_check a)))) \<and>
     (\<exists>rd rw re rl. te_console env = Inr (200, Inr (console_reply rd rw re rl (console_endpoint NoFault a))))"

section \<open>The totals\<close>

lemma documents_by_status:
  "length (documents db) =
     status_count QUEUED db + status_count PROCESSING db + status_count COMPLETED db + status_count RETRYING db +
     status_count FAILED db"
proof -
  have "length ds = length (filter (\<lambda>d. doc_status d = QUEUED) ds) + length (filter (\<lambda>d. doc_status d = PROCESSING) ds) +
      length (filter (\<lambda>d. doc_status d = COMPLETED) ds) + length (filter (\<lambda>d. doc_status d = RETRYING) ds) +
      length (filter (\<lambda>d. doc_status d = FAILED) ds)" for ds
  proof (induction ds)
    case (Cons d ds)
    then show ?case by (cases "doc_status d") simp_all
  qed simp
  then show ?thesis by (simp add: status_count_def)
qed

lemma upper_status: "py_upper (status_text s) = status_text s"
  by (cases s) (simp_all add: status_text_def, code_simp+)

text \<open>A count that is missing is zero, so the counts can be read with their zeros.\<close>

lemma normalize_status_counts:
  "normalize_counts (map (\<lambda>s. (status_text s, PInt (int (f s)))) ss) acc =
    Inr (fold (\<lambda>s. int_put (status_text s) (int (f s))) ss acc)"
  by (induction ss arbitrary: acc) (simp_all add: py_or_def upper_status)

lemma int_put_get: "int_get (int_put k v kvs) k' = (if k' = k then v else int_get kvs k')"
  by (induction kvs) (auto simp: int_get_def)

lemma int_put_new: "k \<notin> fst ` set kvs \<Longrightarrow> int_put k v kvs = kvs @ [(k, v)]"
  by (induction kvs) auto

lemma status_text_inj: "status_text s = status_text s' \<longleftrightarrow> s = s'"
  by (cases s; cases s') (simp_all add: status_text_def)

lemma fold_new_statuses:
  assumes "distinct ss" "\<forall>s \<in> set ss. status_text s \<notin> fst ` set acc"
  shows "fold (\<lambda>s. int_put (status_text s) (int (f s))) ss acc = acc @ map (\<lambda>s. (status_text s, int (f s))) ss"
  using assms
proof (induction ss arbitrary: acc)
  case (Cons a ss)
  let ?acc = "acc @ [(status_text a, int (f a))]"
  have "\<forall>s \<in> set ss. status_text s \<notin> fst ` set ?acc" using Cons.prems by (auto simp: status_text_inj)
  then show ?case using Cons.IH [of ?acc] Cons.prems by (simp add: int_put_new)
qed simp

lemma int_get_statuses:
  "int_get (map (\<lambda>s. (status_text s, int (f s))) ss) (status_text s') = (if s' \<in> set ss then int (f s') else 0)"
  by (induction ss) (auto simp: int_get_def status_text_inj)

lemma sum_positive: "(\<Sum>s \<leftarrow> filter (\<lambda>s. 0 < f s) ss. int (f s)) = (\<Sum>s \<leftarrow> ss. int (f s))"
  by (induction ss) auto

lemma totals_of_snapshot:
  "reconcile_document_lifecycle (counts_reply (console_snapshot db)) = Inr \<lparr>
     dt_submitted = int (length (documents db)),
     dt_processing = int (status_count QUEUED db + status_count PROCESSING db + status_count RETRYING db),
     dt_completed = int (status_count COMPLETED db),
     dt_failed = int (status_count FAILED db)\<rparr>"
proof -
  let ?f = "\<lambda>s. status_count s db" and ?ss = "filter (\<lambda>s. 0 < status_count s db) all_statuses"
  let ?n = "map (\<lambda>s. (status_text s, int (?f s))) ?ss"
  have d: "distinct ?ss" by (simp add: all_statuses_def)
  have "normalize_counts (map (\<lambda>s. (status_text s, PInt (int (?f s)))) ?ss) [] = Inr ?n"
    using normalize_status_counts [of ?f ?ss "[]"] fold_new_statuses [OF d, of "[]"] by simp
  then have n: "normalize_counts (map (\<lambda>(s, n). (status_text s, PInt (int n))) (cd_counts (console_snapshot db))) [] = Inr ?n"
    by (simp add: console_snapshot_def comp_def)
  have g: "int_get ?n (status_text s) = int (?f s)" for s
    unfolding int_get_statuses by (cases s) (simp_all add: all_statuses_def)
  have "int_get ?n k = 0" if "\<forall>s. k \<noteq> status_text s" for k
    using that by (auto simp: int_get_def map_of_eq_None_iff image_iff split: option.split dest!: map_of_SomeD)
  then have r: "int_get ?n ''REJECTED'' = 0" by (simp add: status_text_def split: doc_status.split)
  have "sum_list (map snd ?n) = int (length (documents db))"
    using sum_positive [of ?f all_statuses] by (simp add: comp_def all_statuses_def documents_by_status)
  moreover obtain N where N: "N = ?n" by simp
  ultimately show ?thesis
    using g [of QUEUED] g [of PROCESSING] g [of RETRYING] g [of COMPLETED] g [of FAILED] r
    unfolding reconcile_document_lifecycle_def counts_reply_def N [symmetric] n [folded N]
    by (simp add: n [folded N]) (simp add: status_text_def)
qed

lemma telemetry_truth:
  assumes "watches env a" "a_pool a"
  defines "t \<equiv> get_telemetry env"
  shows "tm_total_ingested t = int (length (documents (a_db a))) \<and>
    tm_total_processed t = int (status_count COMPLETED (a_db a)) \<and>
    tm_active t = int (status_count QUEUED (a_db a) + status_count PROCESSING (a_db a) + status_count RETRYING (a_db a)) \<and>
    tm_total_ingested t = tm_total_processed t + tm_active t + int (status_count FAILED (a_db a)) \<and>
    tm_database t \<and> (tm_broker t \<longleftrightarrow> connected (a_producer a)) \<and> (tm_workers t \<longleftrightarrow> workers (a_db a) \<noteq> []) \<and>
    tm_status t = (if connected (a_producer a) \<and> workers (a_db a) \<noteq> [] then ''HEALTHY'' else ''DEGRADED'')"
proof -
  obtain service environment now where h: "te_health env = Inr (200, Inr (health_reply service environment now (health_check a)))"
    using assms(1) by (auto simp: watches_def)
  obtain rd rw re rl where c: "te_console env = Inr (200, Inr (console_reply rd rw re rl (console_endpoint NoFault a)))"
    using assms(1) by (auto simp: watches_def)
  let ?t1 = "read_health (te_health env) (blank_telemetry (te_now env))"
  let ?t3 = "read_console (te_console env) (read_stats (te_stats env) ?t1)"
  have health: "tm_api ?t1" "tm_database ?t1" "tm_broker ?t1 = connected (a_producer a)"
    using assms(2) by (simp_all add: h read_health_def health_reply_def item_def member_def Let_def health_check_def)
  have stats: "tm_api (read_stats x u) = tm_api u" "tm_database (read_stats x u) = tm_database u" "tm_broker (read_stats x u) = tm_broker u" for x u
    by (simp_all add: read_stats_def split: sum.split prod.split pyval.split)
  have ep: "console_endpoint NoFault a = (console_snapshot (a_db a), get_stats (a_limiter a), connected (a_producer a))"
    using assms(2) by (simp add: console_endpoint_def)
  have w: "cd_workers (console_snapshot (a_db a)) = [] \<longleftrightarrow> workers (a_db a) = []"
    by (simp add: console_snapshot_def) (metis length_0_conv length_sort)
  have console: "tm_total_ingested ?t3 = int (length (documents (a_db a)))"
    "tm_total_processed ?t3 = int (status_count COMPLETED (a_db a))"
    "tm_active ?t3 = int (status_count QUEUED (a_db a) + status_count PROCESSING (a_db a) + status_count RETRYING (a_db a))"
    "tm_workers ?t3 \<longleftrightarrow> workers (a_db a) \<noteq> []"
    "tm_api ?t3" "tm_database ?t3" "tm_broker ?t3 = connected (a_producer a)"
    using health stats by (simp_all add: c read_console_def console_reply_def ep item_def member_def totals_of_snapshot py_or_def w)
  have m: "tm_total_ingested (read_metrics env u) = tm_total_ingested u" "tm_total_processed (read_metrics env u) = tm_total_processed u"
    "tm_active (read_metrics env u) = tm_active u" "tm_workers (read_metrics env u) = tm_workers u" "tm_api (read_metrics env u) = tm_api u"
    "tm_database (read_metrics env u) = tm_database u" "tm_broker (read_metrics env u) = tm_broker u" for u
    by (simp_all add: read_metrics_def Let_def)
  show ?thesis
    using console m [of ?t3] by (simp add: t_def get_telemetry_def Let_def evaluate_pipeline_health_def documents_by_status)
qed


definition example_watch :: "app \<Rightarrow> telemetry_env" where
  "example_watch a =
     (let down = Inl ExternalError in \<lparr>
        te_now = 0, te_health = Inr (200, Inr (health_reply PNone PNone PNone (health_check a))), te_stats = down,
        te_console = Inr (200, Inr (console_reply (\<lambda>_. PNone) (\<lambda>_. PNone) (\<lambda>_. PNone) (\<lambda>_. PNone) (console_endpoint NoFault a))),
        te_submission = down, te_processing = down, te_p95 = down, te_5xx = down, te_lag = down, te_429 = down\<rparr>)"

lemma example_watches: "watches (example_watch a) a"
  by (auto simp: watches_def example_watch_def Let_def)


section \<open>Workers that are gone\<close>

interpretation registered: worker_invariant "\<lambda>db. workers db \<noteq> []"
proof unfold_locales
  fix r t p f w tm db v db'
  assume run: "transaction (op_bind (insert_result r) (\<lambda>_.
      update_document (result_document r) (completed_row t p f w tm))) db = (Inr v, db')"
    and inv: "workers db \<noteq> []"
  then obtain db1 where 1: "insert_result r db = (Inr (), db1)"
    and 2: "update_document (result_document r) (completed_row t p f w tm) db1 = (Inr v, db')"
    unfolding op_Inr by auto
  have "workers db1 = workers db" using 1 by (auto simp: insert_result_def split: if_splits)
  then show "workers db' \<noteq> []" using 2 inv by (auto simp: update_document_def)
qed (auto intro!: keepsI simp: insert_event_def upsert_worker_def update_worker_def update_document_def split: if_splits)



end
