(* ===== verification/Pdf.thy ===== *)
theory Pdf imports PyStr begin

text \<open>
  The PDF writers: \<^verbatim>\<open>create_simple_pdf\<close> of \<^verbatim>\<open>dashboard/src/app.py\<close> and \<^verbatim>\<open>report_as_pdf\<close> of
  \<^verbatim>\<open>scripts/generate_sample_reports.py\<close>, which differ in their content streams only.  Both
  escape the text they show and end in a cross-reference table of byte offsets.
\<close>

section \<open>Text\<close>

definition newline :: string where
  "newline = [CHR 0x0A]"

definition backslash :: char where
  "backslash = char_of (92::nat)"

text \<open>\<^verbatim>\<open>pdf_text\<close> and \<^verbatim>\<open>escape\<close>: backslashes first, then the parentheses.\<close>

definition pdf_text :: "string \<Rightarrow> string" where
  "pdf_text s =
     py_replace '')'' [backslash, CHR '')'']
       (py_replace ''('' [backslash, CHR ''('']
         (py_replace [backslash] [backslash, backslash] s))"

text \<open>\<^verbatim>\<open>s.encode("latin-1", "replace")\<close>; no character of the model is outside latin-1.\<close>

definition latin1 :: "string \<Rightarrow> bytes" where
  "latin1 s = map (\<lambda>c. of_nat (code_point c)) s"

fun join_lines :: "string list \<Rightarrow> string" where
  "join_lines [] = []"
| "join_lines [l] = l"
| "join_lines (l # m # ls) = l @ newline @ join_lines (m # ls)"

section \<open>The file\<close>

definition page_objects :: "bytes \<Rightarrow> bytes list" where
  "page_objects stream = [
     latin1 ''<< /Type /Catalog /Pages 2 0 R >>'',
     latin1 ''<< /Type /Pages /Kids [3 0 R] /Count 1 >>'',
     latin1 ''<< /Type /Page /Parent 2 0 R /MediaBox [0 0 612 792] /Resources << /Font << /F1 5 0 R >> >> /Contents 4 0 R >>'',
     latin1 ''<< /Length '' @ latin1 (nat_str (length stream)) @ latin1 ('' >>'' @ newline @ ''stream'' @ newline) @
       stream @ latin1 (newline @ ''endstream''),
     latin1 ''<< /Type /Font /Subtype /Type1 /BaseFont /Helvetica >>'']"

definition object_head :: "nat \<Rightarrow> bytes" where
  "object_head i = latin1 (nat_str i @ '' 0 obj'' @ newline)"

text \<open>The loop over the objects: the output so far, and where each object begins.\<close>

fun write_objects :: "nat \<Rightarrow> bytes list \<Rightarrow> bytes \<times> nat list \<Rightarrow> bytes \<times> nat list" where
  "write_objects i [] (out, offs) = (out, offs)"
| "write_objects i (ob # obs) (out, offs) =
     write_objects (Suc i) obs
       (out @ object_head i @ ob @ latin1 (newline @ ''endobj'' @ newline), offs @ [length out])"

text \<open>\<^verbatim>\<open>f"{offset:010} 00000 n \n"\<close>\<close>

definition xref_line :: "nat \<Rightarrow> bytes" where
  "xref_line off = latin1 (zero_pad 10 (nat_str off) @ '' 00000 n '' @ newline)"

definition xref_table :: "nat \<Rightarrow> nat list \<Rightarrow> bytes" where
  "xref_table n offs =
     latin1 (''xref'' @ newline @ ''0 '' @ nat_str (n + 1) @ newline @ ''0000000000 65535 f '' @ newline) @
     concat (map xref_line offs)"

definition startxref :: "nat \<Rightarrow> bytes" where
  "startxref xref = latin1 (''startxref'' @ newline @ nat_str xref @ newline @ ''%%EOF'')"

definition trailer :: "nat \<Rightarrow> nat \<Rightarrow> bytes" where
  "trailer n xref =
     latin1 (''trailer'' @ newline @ ''<< /Size '' @ nat_str (n + 1) @ '' /Root 1 0 R >>'' @ newline) @ startxref xref"

definition pdf_header :: bytes where
  "pdf_header = latin1 (''%PDF-1.4'' @ newline)"

definition assemble_pdf :: "bytes list \<Rightarrow> bytes" where
  "assemble_pdf obs =
     (case write_objects 1 obs (pdf_header, []) of
        (out, offs) \<Rightarrow> out @ xref_table (length obs) offs @ trailer (length obs) (length out))"

section \<open>The two writers\<close>

definition show_text :: "string \<Rightarrow> string" where
  "show_text s = ''('' @ pdf_text s @ '') Tj''"

definition create_simple_pdf :: "string \<Rightarrow> string list \<Rightarrow> bytes" where
  "create_simple_pdf title ls =
     (let content = [''BT'', ''/F1 18 Tf'', ''72 750 Td'', show_text title, ''/F1 10 Tf''] @
            concat (map (\<lambda>l. [''0 -22 Td'', show_text l]) ls) @ [''ET'']
      in assemble_pdf (page_objects (latin1 (join_lines content))))"

record report_finding =
  rf_severity :: string
  rf_description :: string

record sample_report =
  sr_title :: string
  sr_agency :: string
  sr_auditor :: string
  sr_year :: int
  sr_controls :: int
  sr_summary :: string
  sr_findings :: "report_finding list"

definition report_lines :: "sample_report \<Rightarrow> string list" where
  "report_lines r =
     [sr_title r,
      ''Agency: '' @ sr_agency r,
      ''Auditor: '' @ sr_auditor r,
      ''Reporting year: '' @ int_str (sr_year r),
      ''Controls evaluated: '' @ int_str (sr_controls r),
      [],
      ''Executive summary'',
      sr_summary r,
      [],
      ''Findings''] @
     map (\<lambda>f. rf_severity f @ '': '' @ rf_description f) (sr_findings r) @
     (if sr_findings r = [] then [''No findings identified in this sample assessment.''] else [])"

fun report_content :: "nat \<Rightarrow> string list \<Rightarrow> string list" where
  "report_content n [] = []"
| "report_content n (l # ls) =
     show_text l # (if n = 0 then [''0 -19 Td'', ''/F1 10 Tf''] else [''0 -15 Td'']) @ report_content (Suc n) ls"

definition report_as_pdf :: "sample_report \<Rightarrow> bytes" where
  "report_as_pdf r =
     (let content = [''BT'', ''/F1 15 Tf'', ''54 748 Td''] @ report_content 0 (report_lines r) @ [''ET'']
      in assemble_pdf (page_objects (latin1 (join_lines content))))"

section \<open>Reading it back\<close>

text \<open>A string of a content stream, as PDF readers parse it after its opening parenthesis: a backslash
  takes the next character as it is, an inner pair of parentheses nests, and the parenthesis that
  closes the string ends it.  Escapes for control characters do not occur.\<close>

fun read_pdf_text :: "nat \<Rightarrow> string \<Rightarrow> (string \<times> string) option" where
  "read_pdf_text depth [] = None"
| "read_pdf_text depth (c # cs) =
     (if c = backslash
      then (case cs of
              [] \<Rightarrow> None
            | d # ds \<Rightarrow> map_option (\<lambda>(t, rest). (d # t, rest)) (read_pdf_text depth ds))
      else if c = CHR ''('' then map_option (\<lambda>(t, rest). (c # t, rest)) (read_pdf_text (Suc depth) cs)
      else if c = CHR '')''
      then (case depth of
              0 \<Rightarrow> Some ([], cs)
            | Suc d \<Rightarrow> map_option (\<lambda>(t, rest). (c # t, rest)) (read_pdf_text d cs))
      else map_option (\<lambda>(t, rest). (c # t, rest)) (read_pdf_text depth cs))"

lemma py_replace_char: "py_replace [a] new s = concat (map (\<lambda>c. if c = a then new else [c]) s)"
  by (induction s) auto

definition escaped :: "char \<Rightarrow> string" where
  "escaped c = (if c \<in> {backslash, CHR ''('', CHR '')''} then [backslash, c] else [c])"

lemma backslash_not [simp]: "backslash \<noteq> CHR ''(''" "backslash \<noteq> CHR '')''" "CHR ''('' \<noteq> backslash" "CHR '')'' \<noteq> backslash"
  by code_simp+

lemma pdf_text_escaped: "pdf_text s = concat (map escaped s)"
proof -
  have "pdf_text s = concat (map (\<lambda>c. concat (map (\<lambda>c. if c = CHR '')'' then [backslash, CHR '')''] else [c])
      (concat (map (\<lambda>c. if c = CHR ''('' then [backslash, CHR ''(''] else [c]) (if c = backslash then [backslash, backslash] else [c]))))) s)"
    unfolding pdf_text_def py_replace_char by (induction s) simp_all
  also have "\<dots> = concat (map escaped s)" by (intro arg_cong [of _ _ concat] map_cong refl) (auto simp: escaped_def)
  finally show ?thesis .
qed

text \<open>The text the PDF writers escape is read back as it was, whatever characters it has, and reading
  ends at the parenthesis that closes it: no title or finding can break out of its string.\<close>

theorem pdf_text_is_read_back:
  "read_pdf_text 0 (pdf_text s @ '')'' @ rest) = Some (s, rest)"
  unfolding pdf_text_escaped by (induction s) (auto simp: escaped_def)

section \<open>The cross-reference table\<close>

lemma write_objects_output: "\<exists>t. fst (write_objects i obs (out, offs)) = out @ t"
proof (induction obs arbitrary: i out offs)
  case (Cons ob obs)
  obtain t where "fst (write_objects i (ob # obs) (out, offs)) =
      (out @ object_head i @ ob @ latin1 (newline @ ''endobj'' @ newline)) @ t"
    using Cons by (metis write_objects.simps(2))
  then show ?case by (intro exI [of _ "(object_head i @ ob @ latin1 (newline @ ''endobj'' @ newline)) @ t"]) simp
qed simp

lemma write_objects_count: "\<exists>ns. snd (write_objects i obs (out, offs)) = offs @ ns \<and> length ns = length obs"
proof (induction obs arbitrary: i out offs)
  case (Cons ob obs)
  obtain ns where "snd (write_objects i (ob # obs) (out, offs)) = (offs @ [length out]) @ ns" "length ns = length obs"
    using Cons by (metis write_objects.simps(2))
  then show ?case by (intro exI [of _ "length out # ns"]) simp
qed simp

lemma write_objects_offsets:
  assumes "j < length obs"
  shows "\<exists>off rest. snd (write_objects i obs (out, offs)) ! (length offs + j) = off \<and>
    drop off (fst (write_objects i obs (out, offs))) = object_head (i + j) @ obs ! j @ rest"
  using assms
proof (induction obs arbitrary: i out offs j)
  case (Cons ob obs)
  let ?out = "out @ object_head i @ ob @ latin1 (newline @ ''endobj'' @ newline)"
  show ?case
  proof (cases j)
    case 0
    obtain t where "fst (write_objects (Suc i) obs (?out, offs @ [length out])) = ?out @ t"
      using write_objects_output by blast
    moreover obtain ns where "snd (write_objects (Suc i) obs (?out, offs @ [length out])) = (offs @ [length out]) @ ns"
      using write_objects_count by blast
    ultimately show ?thesis using 0 by (simp add: nth_append)
  next
    case (Suc k)
    then show ?thesis using Cons.IH [of k "Suc i" ?out "offs @ [length out]"] Cons.prems by simp
  qed
qed simp

lemma length_latin1 [simp]: "length (latin1 s) = length s"
  by (simp add: latin1_def)

lemma latin1_append: "latin1 (s @ t) = latin1 s @ latin1 t"
  by (simp add: latin1_def)

lemma length_xref_line: "off < 10 ^ 10 \<Longrightarrow> length (xref_line off) = 20"
  using length_nat_str [of off 10] by (simp add: xref_line_def zero_pad_def newline_def)

lemma drop_lines:
  assumes "\<forall>l \<in> set ls. length l = n" "j \<le> length ls" shows "drop (n * j) (concat ls) = concat (drop j ls)"
  using assms
proof (induction ls arbitrary: j)
  case (Cons l ls)
  then show ?case by (cases j) simp_all
qed simp

definition table_head :: "nat \<Rightarrow> bytes" where
  "table_head n = latin1 (''xref'' @ newline @ ''0 '' @ nat_str (n + 1) @ newline)"

lemma xref_table_head: "xref_table n offs = table_head n @ latin1 (''0000000000 65535 f '' @ newline) @ concat (map xref_line offs)"
  by (simp add: xref_table_def table_head_def latin1_def)

text \<open>What the loop over the objects leaves: each offset is smaller than the file and is where its object
  begins.\<close>

lemma assembled:
  assumes "length (assemble_pdf obs) < 10 ^ 10"
  obtains out offs where
    "assemble_pdf obs = out @ xref_table (length obs) offs @ trailer (length obs) (length out)"
    "length offs = length obs" "\<forall>n \<in> set offs. n < 10 ^ 10 \<and> n \<le> length out"
    "\<And>k. k < length obs \<Longrightarrow> \<exists>rest. drop (offs ! k) out = object_head (k + 1) @ obs ! k @ rest"
proof -
  obtain out offs where w: "write_objects 1 obs (pdf_header, []) = (out, offs)" by force
  have pdf: "assemble_pdf obs = out @ xref_table (length obs) offs @ trailer (length obs) (length out)"
    unfolding assemble_pdf_def w by simp
  have len: "length offs = length obs" using write_objects_count [of 1 obs pdf_header "[]"] w by auto
  have at: "\<exists>rest. drop (offs ! k) out = object_head (k + 1) @ obs ! k @ rest" if "k < length obs" for k
    using write_objects_offsets [OF that, of 1 pdf_header "[]"] w by auto
  have "n < 10 ^ 10 \<and> n \<le> length out" if n: "n \<in> set offs" for n
  proof -
    obtain k where k: "k < length obs" "offs ! k = n" using n len by (auto simp: in_set_conv_nth)
    have "object_head (k + 1) \<noteq> []" by (simp add: object_head_def latin1_def)
    then have "drop n out \<noteq> []" using at [OF k(1)] k(2) by auto
    then have "n < length out" by (metis drop_all linorder_not_less)
    then show ?thesis using assms pdf by simp
  qed
  then show ?thesis using that [OF pdf len _ at] by blast
qed

lemma table_entry:
  assumes "\<forall>n \<in> set offs. n < 10 ^ 10" "j < length offs"
  shows "take 20 (drop (20 * (j + 1)) (concat (latin1 (''0000000000 65535 f '' @ newline) # map xref_line offs) @ t)) = xref_line (offs ! j)"
proof -
  let ?ls = "latin1 (''0000000000 65535 f '' @ newline) # map xref_line offs"
  have "\<forall>l \<in> set ?ls. length l = 20" using assms(1) by (auto simp: length_xref_line newline_def)
  then have "drop (20 * (j + 1)) (concat ?ls) = concat (drop (j + 1) ?ls)"
    using assms(2) by (intro drop_lines) simp_all
  moreover have "drop (j + 1) ?ls = xref_line (offs ! j) # drop (j + 1) (map xref_line offs)"
    using Cons_nth_drop_Suc [of j "map xref_line offs"] assms(2) by simp
  ultimately have line: "drop (20 * (j + 1)) (concat ?ls) = xref_line (offs ! j) @ concat (drop (j + 1) (map xref_line offs))"
    by (simp only: concat.simps)
  have take_line: "take 20 (drop n (L @ t)) = l" if "drop n L = l @ m" "length l = 20" for n and L t l m :: bytes
    using that by simp
  have "length (xref_line (offs ! j)) = 20" using assms by (simp only: length_xref_line nth_mem)
  from take_line [OF line this] show ?thesis .
qed

text \<open>C38: the cross-reference table is right: the file names in its last lines where the table starts,
  and the table's entry of each object is the twenty bytes that name the offset at which the object
  begins, with its number and then its own bytes.\<close>

theorem xref_locates_objects:
  assumes "j < length obs" "length (assemble_pdf obs) < 10 ^ 10"
  shows "\<exists>xref off rest. drop xref (assemble_pdf obs) = table_head (length obs) @ drop (xref + length (table_head (length obs))) (assemble_pdf obs) \<and>
    suffix (startxref xref) (assemble_pdf obs) \<and>
    take 20 (drop (xref + length (table_head (length obs)) + 20 * (j + 1)) (assemble_pdf obs)) = xref_line off \<and>
    drop off (assemble_pdf obs) = object_head (j + 1) @ obs ! j @ rest"
proof -
  obtain out offs where pdf: "assemble_pdf obs = out @ xref_table (length obs) offs @ trailer (length obs) (length out)"
    and len: "length offs = length obs" and small: "\<forall>n \<in> set offs. n < 10 ^ 10 \<and> n \<le> length out"
    and at: "\<And>k. k < length obs \<Longrightarrow> \<exists>rest. drop (offs ! k) out = object_head (k + 1) @ obs ! k @ rest"
    by (rule assembled [OF assms(2)]) blast
  obtain rest where rest: "drop (offs ! j) out = object_head (j + 1) @ obs ! j @ rest" using at [OF assms(1)] by blast
  have "offs ! j \<le> length out" using small assms(1) len by (simp only: nth_mem)
  let ?h = "table_head (length obs)" and ?ls = "latin1 (''0000000000 65535 f '' @ newline) # map xref_line offs"
  let ?t = "trailer (length obs) (length out)"
  have table: "xref_table (length obs) offs = ?h @ concat ?ls" by (simp add: xref_table_head)
  have entry: "take 20 (drop (20 * (j + 1)) (concat ?ls @ ?t)) = xref_line (offs ! j)"
    using small assms(1) len by (intro table_entry) simp_all
  have skip: "drop (length a + length b + n) (a @ b @ c) = drop n c" for n and a b c :: bytes by simp
  show ?thesis
  proof (intro exI conjI)
    show "drop (length out) (assemble_pdf obs) = ?h @ drop (length out + length ?h) (assemble_pdf obs)"
      by (simp add: pdf table)
    show "suffix (startxref (length out)) (assemble_pdf obs)"
      unfolding pdf trailer_def by (intro suffix_appendI) (simp add: suffix_def)
    show "take 20 (drop (length out + length ?h + 20 * (j + 1)) (assemble_pdf obs)) = xref_line (offs ! j)"
      unfolding pdf table append_assoc skip by (rule entry)
    show "drop (offs ! j) (assemble_pdf obs) = object_head (j + 1) @ obs ! j @ rest @ xref_table (length obs) offs @ ?t"
      using rest \<open>offs ! j \<le> length out\<close> by (simp add: pdf)
  qed
qed

theorem xref_locates_objects_witness:
  "\<exists>off rest. drop off (assemble_pdf [[1], [2]]) = object_head 2 @ [2] @ rest"
proof -
  have "length (assemble_pdf [[1], [2]]) < 10 ^ 10" by code_simp
  from xref_locates_objects [OF _ this, of 1] show ?thesis by (auto simp: numeral_2_eq_2)
qed

end
