(* ===== verification/Analyzer.thy ===== *)
theory Analyzer imports PyVal begin

text \<open>
  \<^verbatim>\<open>worker/src/analyzer.py\<close>: the benchmark analysis of an audit report, from the report's JSON or, where
  that cannot be decoded to an object, from its first lines.  What \<^verbatim>\<open>json.loads\<close> gives is an argument.
  No service calls the analyzer.
\<close>

section \<open>Python\<close>

definition line_break :: "char \<Rightarrow> bool" where
  "line_break c = (let n = code_point c in (10 \<le> n \<and> n \<le> 13) \<or> (28 \<le> n \<and> n \<le> 30) \<or> n = 133)"

text \<open>\<^verbatim>\<open>s.splitlines()\<close>; a carriage return and a line feed are one break.\<close>

function py_splitlines :: "string \<Rightarrow> string list" where
  "py_splitlines s =
     (let line = takeWhile (\<lambda>c. \<not> line_break c) s in
      case dropWhile (\<lambda>c. \<not> line_break c) s of
        [] \<Rightarrow> (if s = [] then [] else [line])
      | c # r \<Rightarrow> line # py_splitlines (if c = CHR 0x0D \<and> prefix [CHR 0x0A] r then drop 1 r else r))"
  by pat_completeness auto
termination
proof (relation "measure length", goal_cases)
  case (2 s line c r)
  then have "length (c # r) \<le> length s" by (metis length_dropWhile_le)
  then show ?case by (auto simp: le_imp_less_Suc)
qed simp

declare py_splitlines.simps [simp del]

text \<open>\<^verbatim>\<open>len(v)\<close>, iteration over \<^verbatim>\<open>v\<close>, and \<^verbatim>\<open>v[:n]\<close>\<close>

fun py_len :: "pyval \<Rightarrow> nat py_result" where
  "py_len (PList xs) = Inr (length xs)"
| "py_len (PDict kvs) = Inr (length kvs)"
| "py_len (PStr s) = Inr (length s)"
| "py_len _ = Inl TypeError"

fun py_iter :: "pyval \<Rightarrow> pyval list py_result" where
  "py_iter (PList xs) = Inr xs"
| "py_iter (PDict kvs) = Inr (map (\<lambda>kv. PStr (fst kv)) kvs)"
| "py_iter (PStr s) = Inr (map (\<lambda>c. PStr [c]) s)"
| "py_iter _ = Inl TypeError"

fun py_first :: "nat \<Rightarrow> pyval \<Rightarrow> pyval py_result" where
  "py_first n (PList xs) = Inr (PList (take n xs))"
| "py_first n (PStr s) = Inr (PStr (take n s))"
| "py_first n _ = Inl TypeError"

section \<open>Frameworks\<close>

record framework =
  total_controls :: int
  critical_weight :: int
  high_weight :: int
  med_weight :: int
  low_weight :: int

definition iso_27001 :: framework where
  "iso_27001 = \<lparr>total_controls = 114, critical_weight = 25, high_weight = 15, med_weight = 5, low_weight = 1\<rparr>"

definition FRAMEWORK_STANDARDS :: "(string \<times> framework) list" where
  "FRAMEWORK_STANDARDS = [
     (''ISO_27001'', iso_27001),
     (''SOC_2_TYPE_II'', \<lparr>total_controls = 64, critical_weight = 30, high_weight = 18, med_weight = 6, low_weight = 1\<rparr>),
     (''NIST_CSF'', \<lparr>total_controls = 108, critical_weight = 25, high_weight = 15, med_weight = 5, low_weight = 1\<rparr>),
     (''FEDRAMP_HIGH'', \<lparr>total_controls = 325, critical_weight = 40, high_weight = 20, med_weight = 8, low_weight = 2\<rparr>),
     (''PCI_DSS_V4'', \<lparr>total_controls = 250, critical_weight = 35, high_weight = 18, med_weight = 5, low_weight = 1\<rparr>)]"

definition framework_of :: "string \<Rightarrow> framework" where
  "framework_of audit_type = (case map_of FRAMEWORK_STANDARDS audit_type of None \<Rightarrow> iso_27001 | Some fw \<Rightarrow> fw)"

section \<open>Reading a report\<close>

record report_parts =
  ra_findings :: pyval
  ra_controls :: pyval
  ra_summary :: pyval

definition line_finding :: "nat \<Rightarrow> string \<Rightarrow> pyval" where
  "line_finding i line = PDict [
     (''id'', PStr (''FIND-'' @ nat_str (i + 1))), (''severity'', PStr ''MEDIUM''),
     (''category'', PStr ''General Security''), (''description'', PStr (take 80 line))]"

definition line_findings :: "string \<Rightarrow> pyval list" where
  "line_findings raw =
     map (\<lambda>(i, line). line_finding i line)
       (filter (\<lambda>(i, line). py_strip line \<noteq> []) (enumerate 0 (take 3 (py_splitlines raw))))"

definition dict_item :: "(string \<times> pyval) list \<Rightarrow> string \<Rightarrow> pyval \<Rightarrow> pyval" where
  "dict_item kvs k d = (case map_of kvs k of None \<Rightarrow> d | Some v \<Rightarrow> v)"

definition read_report :: "pyval py_result \<Rightarrow> string \<Rightarrow> framework \<Rightarrow> report_parts" where
  "read_report loaded raw fw =
     (let summary = PStr ''Automated cybersecurity posture audit analysis.'' in
      case loaded of
        Inr (PDict kvs) \<Rightarrow> \<lparr>
          ra_findings = dict_item kvs ''findings'' (PList []),
          ra_controls = dict_item kvs ''controls_evaluated'' (PInt (total_controls fw)),
          ra_summary = dict_item kvs ''executive_summary'' summary\<rparr>
      | _ \<Rightarrow> \<lparr>
          ra_findings = PList (line_findings raw), ra_controls = PInt (total_controls fw), ra_summary = summary\<rparr>)"

section \<open>Counting and scoring\<close>

record severities =
  sv_critical :: nat
  sv_high :: nat
  sv_medium :: nat
  sv_low :: nat

definition severity_of :: "pyval \<Rightarrow> string py_result" where
  "severity_of f =
     py_bind (py_get f ''severity'' (PStr ''MEDIUM'')) (\<lambda>v.
       case v of PStr s \<Rightarrow> Inr (py_upper s) | _ \<Rightarrow> Inl AttributeError)"

text \<open>An unknown severity counts as medium.\<close>

definition count_severity :: "string \<Rightarrow> severities \<Rightarrow> severities" where
  "count_severity sev c =
     (if sev = ''CRITICAL'' then c\<lparr>sv_critical := sv_critical c + 1\<rparr>
      else if sev = ''HIGH'' then c\<lparr>sv_high := sv_high c + 1\<rparr>
      else if sev = ''LOW'' then c\<lparr>sv_low := sv_low c + 1\<rparr>
      else c\<lparr>sv_medium := sv_medium c + 1\<rparr>)"

fun count_severities :: "pyval list \<Rightarrow> severities \<Rightarrow> severities py_result" where
  "count_severities [] c = Inr c"
| "count_severities (f # fs) c = py_bind (severity_of f) (\<lambda>sev. count_severities fs (count_severity sev c))"

definition risk_penalty :: "framework \<Rightarrow> severities \<Rightarrow> int" where
  "risk_penalty fw c =
     int (sv_critical c) * critical_weight fw + int (sv_high c) * high_weight fw +
     int (sv_medium c) * med_weight fw + int (sv_low c) * low_weight fw"

definition compliance_score :: "int \<Rightarrow> pyfloat" where
  "compliance_score risk =
     (let normalized = min (Fl 100) (float_of_int risk / Fl 150 * Fl 100)
      in max (Fl 5) (py_round (Fl 100 - normalized) 2))"

definition evidence_score :: "nat \<Rightarrow> nat \<Rightarrow> pyfloat" where
  "evidence_score findings summary =
     (let detail = min (Fl 100) (Fl 50 + float_of_int (int findings) * Fl 10 + float_of_int (int summary) / Fl 10)
      in py_round (min (Fl 100) (max (Fl 20) detail)) 1)"

definition posture_grade :: "pyfloat \<Rightarrow> string" where
  "posture_grade score =
     (if Fl 90 \<le> score then ''A+ (Resilient)''
      else if Fl 80 \<le> score then ''A (Strong)''
      else if Fl 70 \<le> score then ''B (Satisfactory)''
      else if Fl 60 \<le> score then ''C (Remediation Required)''
      else ''D (Critical Non-Compliance)'')"

section \<open>The analysis\<close>

record analysis =
  an_agency :: string
  an_audit_type :: string
  an_score :: pyfloat
  an_grade :: string
  an_evidence :: pyfloat
  an_controls :: pyval
  an_total :: nat
  an_severities :: severities
  an_details :: pyval
  an_excerpt :: pyval

definition no_severities :: severities where
  "no_severities = \<lparr>sv_critical = 0, sv_high = 0, sv_medium = 0, sv_low = 0\<rparr>"

definition analyze :: "pyval py_result \<Rightarrow> string \<Rightarrow> string \<Rightarrow> string \<Rightarrow> analysis py_result" where
  "analyze loaded raw audit_type agency =
     (let fw = framework_of audit_type; p = read_report loaded raw fw in
      py_bind (py_iter (ra_findings p)) (\<lambda>fs.
      py_bind (count_severities fs no_severities) (\<lambda>c.
      let score = compliance_score (risk_penalty fw c) in
      py_bind (py_len (ra_findings p)) (\<lambda>total.
      py_bind (py_len (ra_summary p)) (\<lambda>summary.
      py_bind (py_first 10 (ra_findings p)) (\<lambda>details.
      py_bind (py_first 200 (ra_summary p)) (\<lambda>excerpt.
      Inr \<lparr>
        an_agency = agency, an_audit_type = audit_type, an_score = score, an_grade = posture_grade score,
        an_evidence = evidence_score total summary, an_controls = ra_controls p, an_total = total,
        an_severities = c, an_details = details, an_excerpt = excerpt\<rparr>)))))))"

section \<open>Scores\<close>

lemma fl_numerals [simp]: "fl 5 = 5" "fl 20 = 20" "fl 100 = 100" "fl 150 = 150"
  using fl_of_int [of 5] fl_of_int [of 20] fl_of_int [of 100] fl_of_int [of 150] by simp_all

lemma py_round_100: "py_round (Fl 100) d = Fl 100"
proof -
  have "round_half_even (100 * 10 ^ d) = 100 * 10 ^ d"
    using round_half_even_of_int [of "100 * 10 ^ d"] by (simp del: round_half_even_of_int)
  then show ?thesis by (simp add: py_round_def)
qed

lemma py_round_20: "py_round (Fl 20) d = Fl 20"
proof -
  have "round_half_even (20 * 10 ^ d) = 20 * 10 ^ d"
    using round_half_even_of_int [of "20 * 10 ^ d"] by (simp del: round_half_even_of_int)
  then show ?thesis by (simp add: py_round_def)
qed

lemma compliance_bounds:
  assumes "0 \<le> risk" shows "Fl 5 \<le> compliance_score risk \<and> compliance_score risk \<le> Fl 100"
proof -
  let ?n = "min (Fl 100) (float_of_int risk / Fl 150 * Fl 100)"
  have "0 \<le> fval (float_of_int risk)" using assms by (simp add: float_of_int_def fl_nonneg)
  then have "0 \<le> fval (float_of_int risk / Fl 150 * Fl 100)" by (simp add: fl_nonneg)
  then have "0 \<le> fval ?n" by (simp add: fval_min)
  then have "Fl 100 - ?n \<le> Fl 100" using fl_mono [of "100 - fval ?n" 100] by (simp add: le_fval)
  from py_round_mono [OF this, of 2] have "py_round (Fl 100 - ?n) 2 \<le> Fl 100" by (simp only: py_round_100)
  moreover have "Fl 5 \<le> Fl 100" by (simp add: le_fval)
  ultimately show ?thesis by (simp add: compliance_score_def Let_def)
qed

lemma compliance_antimono:
  assumes "0 \<le> r" "r \<le> r'" shows "compliance_score r' \<le> compliance_score r"
proof -
  let ?n = "\<lambda>r. min (Fl 100) (float_of_int r / Fl 150 * Fl 100)"
  have "fval (float_of_int r) \<le> fval (float_of_int r')" using assms(2) by (simp add: float_of_int_def fl_mono)
  then have "fl (fval (float_of_int r) / 150) \<le> fl (fval (float_of_int r') / 150)"
    by (intro fl_mono divide_right_mono) simp_all
  then have "float_of_int r / Fl 150 * Fl 100 \<le> float_of_int r' / Fl 150 * Fl 100"
    by (simp add: le_fval fl_mono mult_right_mono)
  then have "?n r \<le> ?n r'" by (simp add: min_le_iff_disj)
  then have "Fl 100 - ?n r' \<le> Fl 100 - ?n r" by (simp add: le_fval fl_mono)
  from py_round_mono [OF this, of 2] show ?thesis by (auto simp: compliance_score_def Let_def max_def)
qed

lemma evidence_bounds: "Fl 20 \<le> evidence_score n m \<and> evidence_score n m \<le> Fl 100"
proof -
  have between: "Fl 20 \<le> py_round x 1 \<and> py_round x 1 \<le> Fl 100" if "Fl 20 \<le> x" "x \<le> Fl 100" for x
    using py_round_mono [OF that(1), of 1] py_round_mono [OF that(2), of 1] by (simp only: py_round_100 py_round_20)
  have "Fl 20 \<le> Fl 100" by (simp add: le_fval)
  then show ?thesis unfolding evidence_score_def Let_def by (intro between) simp_all
qed

definition severity_sum :: "severities \<Rightarrow> nat" where
  "severity_sum c = sv_critical c + sv_high c + sv_medium c + sv_low c"

lemma count_severity_sum: "severity_sum (count_severity sev c) = severity_sum c + 1"
  by (simp add: count_severity_def severity_sum_def)

lemma count_severities_sum: "count_severities fs c = Inr c' \<Longrightarrow> severity_sum c' = severity_sum c + length fs"
  by (induction fs c rule: count_severities.induct) (auto simp: py_bind_eq_Inr count_severity_sum)

lemma framework_weights:
  "0 \<le> critical_weight (framework_of a)" "0 \<le> high_weight (framework_of a)" "0 \<le> med_weight (framework_of a)" "0 \<le> low_weight (framework_of a)"
  by (auto simp: framework_of_def FRAMEWORK_STANDARDS_def iso_27001_def)

lemma risk_nonneg: "0 \<le> risk_penalty (framework_of a) c"
  using framework_weights [of a] by (simp add: risk_penalty_def)

lemma py_iter_len: "py_iter v = Inr fs \<Longrightarrow> py_len v = Inr (length fs)"
  by (cases v) auto

text \<open>Every analysis is consistent: the score is between 5 and 100 and the evidence score between 20
  and 100, whatever the findings are; every finding is counted under one severity; the report names
  at most ten; and a clean report scores 100.\<close>

theorem analysis_is_consistent:
  assumes "analyze loaded raw audit agency = Inr r"
  shows "Fl 5 \<le> an_score r \<and> an_score r \<le> Fl 100 \<and> Fl 20 \<le> an_evidence r \<and> an_evidence r \<le> Fl 100 \<and>
    severity_sum (an_severities r) = an_total r \<and>
    (\<exists>n \<le> 10. py_len (an_details r) = Inr n) \<and>
    (an_total r = 0 \<longrightarrow> an_score r = Fl 100 \<and> an_grade r = ''A+ (Resilient)'')"
proof -
  let ?p = "read_report loaded raw (framework_of audit)"
  obtain fs c summary details excerpt where r: "py_iter (ra_findings ?p) = Inr fs" "count_severities fs no_severities = Inr c"
    "py_first 10 (ra_findings ?p) = Inr details"
    "r = \<lparr>an_agency = agency, an_audit_type = audit, an_score = compliance_score (risk_penalty (framework_of audit) c),
       an_grade = posture_grade (compliance_score (risk_penalty (framework_of audit) c)),
       an_evidence = evidence_score (length fs) summary, an_controls = ra_controls ?p, an_total = length fs,
       an_severities = c, an_details = details, an_excerpt = excerpt\<rparr>"
    using assms by (auto simp: analyze_def Let_def py_bind_eq_Inr py_iter_len)
  have sum: "severity_sum c = length fs"
    using count_severities_sum [OF r(2)] by (simp add: no_severities_def severity_sum_def)
  have "\<exists>n \<le> 10. py_len details = Inr n" using r(3) by (cases "ra_findings ?p") auto
  moreover have "compliance_score (risk_penalty (framework_of audit) c) = Fl 100" if "length fs = 0"
  proof -
    have "risk_penalty (framework_of audit) c = 0" using sum that by (simp add: risk_penalty_def severity_sum_def)
    moreover have "compliance_score 0 = Fl 100" by code_simp
    ultimately show ?thesis by simp
  qed
  moreover have "posture_grade (Fl 100) = ''A+ (Resilient)''" by code_simp
  ultimately show ?thesis using compliance_bounds [OF risk_nonneg] evidence_bounds sum by (simp add: r(4))
qed

theorem analysis_is_consistent_witness:
  "\<exists>r. analyze (Inl ValueError) ''one finding'' ''NIST_CSF'' ''a'' = Inr r \<and> an_total r = 1 \<and>
     Fl 5 \<le> an_score r \<and> an_score r \<le> Fl 100 \<and> severity_sum (an_severities r) = 1"
proof -
  let ?p = "read_report (Inl ValueError) ''one finding'' (framework_of ''NIST_CSF'')"
  have p: "ra_findings ?p = PList [line_finding 0 ''one finding'']" "ra_summary ?p = PStr ''Automated cybersecurity posture audit analysis.''"
    by code_simp+
  have "severity_of (line_finding 0 ''one finding'') = Inr ''MEDIUM''" by code_simp
  then obtain r where r: "analyze (Inl ValueError) ''one finding'' ''NIST_CSF'' ''a'' = Inr r" "an_total r = 1"
    by (simp add: analyze_def Let_def p)
  from analysis_is_consistent [OF r(1)] r show ?thesis by auto
qed

section \<open>More findings\<close>

definition finding_ok :: "pyval \<Rightarrow> bool" where
  "finding_ok f \<longleftrightarrow> (\<exists>sev. severity_of f = Inr sev)"

lemma count_severities_ok:
  "\<forall>f \<in> set fs. finding_ok f \<Longrightarrow> \<exists>c'. count_severities fs c = Inr c'"
  by (induction fs arbitrary: c) (auto simp: finding_ok_def)

lemma count_severities_append:
  "count_severities (fs @ gs) c = py_bind (count_severities fs c) (count_severities gs)"
  by (induction fs c rule: count_severities.induct) (auto simp: py_bind_def split: sum.split)

definition fewer :: "severities \<Rightarrow> severities \<Rightarrow> bool" where
  "fewer c c' \<longleftrightarrow>
     sv_critical c \<le> sv_critical c' \<and> sv_high c \<le> sv_high c' \<and> sv_medium c \<le> sv_medium c' \<and> sv_low c \<le> sv_low c'"

lemma count_severities_fewer: "count_severities fs c = Inr c' \<Longrightarrow> fewer c c'"
proof (induction fs c rule: count_severities.induct)
  case (2 f fs c)
  then obtain sev where "fewer (count_severity sev c) c'" by (auto simp: py_bind_eq_Inr)
  moreover have "fewer c (count_severity sev c)" by (simp add: fewer_def count_severity_def)
  ultimately show ?case by (auto simp: fewer_def)
qed (simp add: fewer_def)

lemma risk_mono: "fewer c c' \<Longrightarrow> risk_penalty (framework_of a) c \<le> risk_penalty (framework_of a) c'"
  unfolding risk_penalty_def fewer_def by (intro add_mono mult_right_mono framework_weights) auto

lemma analyze_object:
  assumes "\<forall>f \<in> set fs. finding_ok f" "dict_item kvs ''executive_summary'' (PStr []) = PStr summary"
  obtains r c where "analyze (Inr (PDict ((''findings'', PList fs) # kvs))) raw audit agency = Inr r"
    "count_severities fs no_severities = Inr c" "an_score r = compliance_score (risk_penalty (framework_of audit) c)"
    "an_total r = length fs"
proof -
  obtain c where c: "count_severities fs no_severities = Inr c" using count_severities_ok [OF assms(1)] by blast
  obtain s where "dict_item kvs ''executive_summary'' (PStr ''Automated cybersecurity posture audit analysis.'') = PStr s"
    using assms(2) by (auto simp: dict_item_def split: option.splits)
  then have "ra_summary (read_report (Inr (PDict ((''findings'', PList fs) # kvs))) raw (framework_of audit)) = PStr s"
    by (simp add: read_report_def Let_def dict_item_def)
  moreover have "ra_findings (read_report (Inr (PDict ((''findings'', PList fs) # kvs))) raw (framework_of audit)) = PList fs"
    by (simp add: read_report_def Let_def dict_item_def)
  ultimately show ?thesis using that c by (simp add: analyze_def Let_def)
qed



end
