(* ===== verification/SampleReports.thy ===== *)
theory SampleReports imports Pdf Analyzer begin

text \<open>
  \<^verbatim>\<open>generate_report\<close> of \<^verbatim>\<open>scripts/generate_sample_reports.py\<close>, with what it draws at random as arguments:
  which sample findings, a category for each, and the auditor's number.  And what the analyzer makes
  of the reports it generates.
\<close>

section \<open>Tables\<close>

record sample_framework =
  sf_title :: string
  sf_controls :: int
  sf_categories :: "string list"

definition iso_sample :: sample_framework where
  "iso_sample = \<lparr>sf_title = ''ISO/IEC 27001:2022 Information Security Management System Audit'', sf_controls = 114,
     sf_categories = [''Access Control'', ''Cryptography'', ''Physical Security'', ''Operations Security'', ''Supplier Relationships'']\<rparr>"

definition FRAMEWORKS :: "(string \<times> sample_framework) list" where
  "FRAMEWORKS = [
     (''ISO_27001'', iso_sample),
     (''SOC_2_TYPE_II'', \<lparr>sf_title = ''SOC 2 Type II Security, Availability & Confidentiality Report'', sf_controls = 64,
        sf_categories = [''Common Criteria'', ''Logical Access'', ''Change Management'', ''Risk Assessment'']\<rparr>),
     (''NIST_CSF'', \<lparr>sf_title = ''NIST Cybersecurity Framework v2.0 Audit Assessment'', sf_controls = 108,
        sf_categories = [''Identify'', ''Protect'', ''Detect'', ''Respond'', ''Recover'', ''Govern'']\<rparr>),
     (''FEDRAMP_HIGH'', \<lparr>sf_title = ''FedRAMP High Baseline Security Assessment Report (SAR)'', sf_controls = 325,
        sf_categories = [''AC - Access Control'', ''AU - Audit & Accountability'', ''SC - System & Comms Protection'', ''SI - System Integrity'']\<rparr>),
     (''PCI_DSS_V4'', \<lparr>sf_title = ''Payment Card Industry Data Security Standard (PCI DSS) v4.0 Report on Compliance'', sf_controls = 250,
        sf_categories = [''Network Security'', ''Cardholder Data Protection'', ''Vulnerability Management'', ''Strong Access Control'']\<rparr>)]"

definition SAMPLE_FINDINGS :: "report_finding list" where
  "SAMPLE_FINDINGS = [
     \<lparr>rf_severity = ''CRITICAL'', rf_description = ''Unauthenticated API gateway endpoint exposes administrative user directory.''\<rparr>,
     \<lparr>rf_severity = ''HIGH'', rf_description = ''MFA enforcement bypassed on internal service mesh ingress proxy.''\<rparr>,
     \<lparr>rf_severity = ''HIGH'', rf_description = ''Database backup snapshots stored in unencrypted storage volume.''\<rparr>,
     \<lparr>rf_severity = ''MEDIUM'', rf_description = ''Password complexity policy lacks special character requirements.''\<rparr>,
     \<lparr>rf_severity = ''MEDIUM'', rf_description = ''Session expiration timeout set to 24 hours instead of recommended 15 minutes.''\<rparr>,
     \<lparr>rf_severity = ''LOW'', rf_description = ''Audit log rotation retention period configured for 90 days instead of 180 days.''\<rparr>,
     \<lparr>rf_severity = ''LOW'', rf_description = ''Minor formatting discrepancy in third-party vendor risk assessment questionnaires.''\<rparr>]"

section \<open>Generation\<close>

definition remediation_days :: "string \<Rightarrow> int" where
  "remediation_days severity = (if severity = ''CRITICAL'' then 7 else if severity = ''HIGH'' then 30 else 90)"

text \<open>\<^verbatim>\<open>s[-4:]\<close>\<close>

definition last_four :: "string \<Rightarrow> string" where
  "last_four s = drop (length s - 4) s"

definition generated_finding :: "string \<Rightarrow> nat \<Rightarrow> report_finding \<Rightarrow> string \<Rightarrow> (string \<times> pyval) list" where
  "generated_finding agency idx f category =
     [(''id'', PStr (''FIND-'' @ last_four agency @ ''-'' @ zero_pad 3 (nat_str (idx + 1)))),
      (''severity'', PStr (rf_severity f)),
      (''category'', PStr category),
      (''description'', PStr (rf_description f)),
      (''remediation_sla_days'', PInt (remediation_days (rf_severity f)))]"

text \<open>\<^verbatim>\<open>picks\<close> are the positions \<^verbatim>\<open>random.sample\<close> draws, \<^verbatim>\<open>draws\<close> those of \<^verbatim>\<open>random.choice\<close>.\<close>

definition generated_findings :: "string \<Rightarrow> sample_framework \<Rightarrow> nat list \<Rightarrow> nat list \<Rightarrow> pyval list" where
  "generated_findings agency fw picks draws =
     map (\<lambda>(idx, p, c). PDict (generated_finding agency idx (SAMPLE_FINDINGS ! p) (sf_categories fw ! c)))
       (enumerate 0 (zip picks draws))"

definition sample_framework_of :: "string \<Rightarrow> sample_framework" where
  "sample_framework_of name = (case map_of FRAMEWORKS name of None \<Rightarrow> iso_sample | Some fw \<Rightarrow> fw)"

definition generate_report :: "string \<Rightarrow> string \<Rightarrow> nat list \<Rightarrow> nat list \<Rightarrow> nat \<Rightarrow> (string \<times> pyval) list" where
  "generate_report agency name picks draws auditor =
     (let fw = sample_framework_of name; findings = generated_findings agency fw picks draws in
      [(''agency_id'', PStr agency),
       (''audit_type'', PStr name),
       (''report_title'', PStr (sf_title fw)),
       (''report_year'', PInt 2026),
       (''auditor_org'', PStr (''Global Cybersecurity Audit Authority #'' @ nat_str auditor)),
       (''controls_evaluated'', PInt (sf_controls fw)),
       (''executive_summary'', PStr (''Independent cybersecurity assessment conducted for '' @ agency @ ''. Evaluated '' @
          int_str (sf_controls fw) @ '' controls across standard domains with '' @ nat_str (length findings) @
          '' non-conformances identified.'')),
       (''findings'', PList findings)])"

text \<open>What can be drawn.\<close>

definition drawable :: "sample_framework \<Rightarrow> nat list \<Rightarrow> nat list \<Rightarrow> bool" where
  "drawable fw picks draws \<longleftrightarrow>
     length picks \<le> 5 \<and> distinct picks \<and> (\<forall>p \<in> set picks. p < length SAMPLE_FINDINGS) \<and>
     length draws = length picks \<and> (\<forall>c \<in> set draws. c < length (sf_categories fw))"

section \<open>The command line\<close>

text \<open>What \<^verbatim>\<open>report_as_pdf\<close> prints of a report; \<^term>\<open>None\<close> where the report lacks a field it prints, or has one of
  another type than \<^verbatim>\<open>generate_report\<close> gives it.\<close>

definition text_at :: "(string \<times> pyval) list \<Rightarrow> string \<Rightarrow> string option" where
  "text_at kvs k = (case map_of kvs k of Some (PStr s) \<Rightarrow> Some s | _ \<Rightarrow> None)"

definition int_at :: "(string \<times> pyval) list \<Rightarrow> string \<Rightarrow> int option" where
  "int_at kvs k = (case map_of kvs k of Some (PInt i) \<Rightarrow> Some i | _ \<Rightarrow> None)"

fun printed_findings :: "pyval list \<Rightarrow> report_finding list option" where
  "printed_findings [] = Some []"
| "printed_findings (PDict kvs # fs) =
     Option.bind (text_at kvs ''severity'') (\<lambda>sev.
     Option.bind (text_at kvs ''description'') (\<lambda>text.
     Option.bind (printed_findings fs) (\<lambda>rest.
     Some (\<lparr>rf_severity = sev, rf_description = text\<rparr> # rest))))"
| "printed_findings (_ # fs) = None"

definition printed_report :: "(string \<times> pyval) list \<Rightarrow> sample_report option" where
  "printed_report kvs =
     Option.bind (text_at kvs ''report_title'') (\<lambda>title.
     Option.bind (text_at kvs ''agency_id'') (\<lambda>agency.
     Option.bind (text_at kvs ''auditor_org'') (\<lambda>auditor.
     Option.bind (int_at kvs ''report_year'') (\<lambda>year.
     Option.bind (int_at kvs ''controls_evaluated'') (\<lambda>controls.
     Option.bind (text_at kvs ''executive_summary'') (\<lambda>summary.
     Option.bind (case map_of kvs ''findings'' of Some (PList fs) \<Rightarrow> printed_findings fs | _ \<Rightarrow> None) (\<lambda>findings.
     Some \<lparr>sr_title = title, sr_agency = agency, sr_auditor = auditor, sr_year = year, sr_controls = controls,
          sr_summary = summary, sr_findings = findings\<rparr>)))))))"

text \<open>What is drawn for one report: the framework's name and what \<^verbatim>\<open>generate_report\<close> draws.\<close>

record drawing =
  dw_framework :: string
  dw_picks :: "nat list"
  dw_draws :: "nat list"
  dw_auditor :: nat

definition sample_agency :: "nat \<Rightarrow> string" where
  "sample_agency i = ''agency-gov-'' @ zero_pad 3 (nat_str (i + 1))"

definition sample_name :: "nat \<Rightarrow> drawing \<Rightarrow> string" where
  "sample_name i dw = sample_agency i @ ''_'' @ dw_framework dw @ ''.pdf''"

text \<open>The files written under the output directory, in order; an existing file of the name is replaced.\<close>

fun write_samples :: "nat \<Rightarrow> drawing list \<Rightarrow> (string \<rightharpoonup> bytes) \<Rightarrow> (string \<rightharpoonup> bytes) option" where
  "write_samples i [] files = Some files"
| "write_samples i (dw # dws) files =
     Option.bind (printed_report (generate_report (sample_agency i) (dw_framework dw) (dw_picks dw) (dw_draws dw) (dw_auditor dw)))
       (\<lambda>r. write_samples (i + 1) dws (files(sample_name i dw \<mapsto> report_as_pdf r)))"

lemma printed_generated_findings:
  "length ds = length ps \<Longrightarrow>
    printed_findings (map (\<lambda>(idx, p, c). PDict (generated_finding agency idx (SAMPLE_FINDINGS ! p) (cs ! c))) (enumerate n (zip ps ds)))
      = Some (map (\<lambda>p. SAMPLE_FINDINGS ! p) ps)"
  by (induction ds ps arbitrary: n rule: list_induct2) (simp_all add: generated_finding_def text_at_def)

definition shows_drawing :: "nat \<Rightarrow> drawing \<Rightarrow> sample_report \<Rightarrow> bool" where
  "shows_drawing i dw r \<longleftrightarrow> sr_agency r = sample_agency i \<and> sr_title r = sf_title (sample_framework_of (dw_framework dw)) \<and>
     sr_findings r = map (\<lambda>p. SAMPLE_FINDINGS ! p) (dw_picks dw)"

lemma printed_generated:
  assumes "length (dw_draws dw) = length (dw_picks dw)"
  shows "\<exists>r. printed_report (generate_report (sample_agency i) (dw_framework dw) (dw_picks dw) (dw_draws dw) (dw_auditor dw)) = Some r \<and>
    shows_drawing i dw r"
proof -
  let ?report = "generate_report (sample_agency i) (dw_framework dw) (dw_picks dw) (dw_draws dw) (dw_auditor dw)"
  let ?fs = "generated_findings (sample_agency i) (sample_framework_of (dw_framework dw)) (dw_picks dw) (dw_draws dw)"
  have "\<exists>s. text_at ?report ''auditor_org'' = Some s" "\<exists>s. text_at ?report ''executive_summary'' = Some s"
    "\<exists>y. int_at ?report ''report_year'' = Some y" "\<exists>c. int_at ?report ''controls_evaluated'' = Some c"
    "text_at ?report ''report_title'' = Some (sf_title (sample_framework_of (dw_framework dw)))"
    "text_at ?report ''agency_id'' = Some (sample_agency i)" "map_of ?report ''findings'' = Some (PList ?fs)"
    by (simp_all add: text_at_def int_at_def generate_report_def Let_def)
  moreover have "printed_findings ?fs = Some (map (\<lambda>p. SAMPLE_FINDINGS ! p) (dw_picks dw))"
    using assms by (simp add: generated_findings_def printed_generated_findings)
  ultimately show ?thesis by (auto simp: printed_report_def shows_drawing_def)
qed

text \<open>Reports of different numbers go to different files.\<close>

lemma digits_val_zeros: "digits_val 10 0 (replicate k (CHR ''0'') @ s) = digits_val 10 0 s"
proof (induction k)
  case (Suc k)
  have "digit_val 10 (CHR ''0'') = Some 0" by code_simp
  then show ?case using Suc by simp
qed simp

lemma sample_agency_inj: "sample_agency i = sample_agency j \<longleftrightarrow> i = j"
proof
  assume "sample_agency i = sample_agency j"
  then have "digits_val 10 0 (zero_pad 3 (nat_str (i + 1))) = digits_val 10 0 (zero_pad 3 (nat_str (j + 1)))"
    by (simp add: sample_agency_def)
  then show "i = j" by (simp only: zero_pad_def digits_val_zeros digits_val_nat_str) simp
qed simp

lemma no_underscore: "CHR ''_'' \<notin> set (sample_agency i)"
proof -
  have "digit_char d \<noteq> CHR ''_''" if "d < 10" for d using digit_char_not [of d] that by simp
  then have "CHR ''_'' \<notin> set (nat_str n)" for n
    using is_digits_nat_str [of n] unfolding is_digits_def by (metis (no_types, lifting))
  then show ?thesis by (simp add: sample_agency_def zero_pad_def)
qed

lemma sample_name_inj: "sample_name i dw = sample_name j dw' \<Longrightarrow> i = j"
proof -
  assume same: "sample_name i dw = sample_name j dw'"
  have "takeWhile (\<lambda>c. c \<noteq> CHR ''_'') (sample_name k x) = sample_agency k" for k x
  proof -
    have "\<forall>c \<in> set (sample_agency k). c \<noteq> CHR ''_''" using no_underscore [of k] by metis
    then show ?thesis unfolding sample_name_def by (subst takeWhile_append2) auto
  qed
  then show "i = j" using same sample_agency_inj by metis
qed

text \<open>However the reports are drawn, the generator writes one file for each, under its own name, that shows its
  agency and its findings, and touches no other file.\<close>

theorem generator_writes_every_report:
  assumes "\<forall>dw \<in> set dws. length (dw_draws dw) = length (dw_picks dw)"
  shows "\<exists>files'. write_samples i dws files = Some files' \<and>
    (\<forall>k < length dws. \<exists>r. files' (sample_name (i + k) (dws ! k)) = Some (report_as_pdf r) \<and> shows_drawing (i + k) (dws ! k) r) \<and>
    (\<forall>f. (\<forall>k < length dws. f \<noteq> sample_name (i + k) (dws ! k)) \<longrightarrow> files' f = files f)"
  using assms
proof (induction dws arbitrary: i files)
  case (Cons dw dws)
  have "length (dw_draws dw) = length (dw_picks dw)" using Cons.prems by simp
  from printed_generated [OF this] obtain r
    where r: "printed_report (generate_report (sample_agency i) (dw_framework dw) (dw_picks dw) (dw_draws dw) (dw_auditor dw)) = Some r"
      and drawn: "shows_drawing i dw r" by blast
  let ?files = "files(sample_name i dw \<mapsto> report_as_pdf r)"
  have "\<forall>dw \<in> set dws. length (dw_draws dw) = length (dw_picks dw)" using Cons.prems by simp
  from Cons.IH [OF this, of "i + 1" ?files] obtain files' where w: "write_samples (i + 1) dws ?files = Some files'"
    and each: "\<And>k. k < length dws \<Longrightarrow> \<exists>r. files' (sample_name (i + 1 + k) (dws ! k)) = Some (report_as_pdf r) \<and> shows_drawing (i + 1 + k) (dws ! k) r"
    and rest: "\<And>f. \<forall>k < length dws. f \<noteq> sample_name (i + 1 + k) (dws ! k) \<Longrightarrow> files' f = ?files f" by metis
  have "\<forall>k < length dws. sample_name i dw \<noteq> sample_name (i + 1 + k) (dws ! k)" using sample_name_inj by fastforce
  then have first: "files' (sample_name i dw) = Some (report_as_pdf r)" using rest by simp
  have "\<exists>r. files' (sample_name (i + k) ((dw # dws) ! k)) = Some (report_as_pdf r) \<and> shows_drawing (i + k) ((dw # dws) ! k) r"
    if "k < length (dw # dws)" for k
  proof (cases k)
    case 0
    then show ?thesis using first drawn by auto
  next
    case (Suc m)
    then show ?thesis using each [of m] that by simp
  qed
  moreover have "files' f = files f" if other: "\<forall>k < length (dw # dws). f \<noteq> sample_name (i + k) ((dw # dws) ! k)" for f
  proof -
    have "f \<noteq> sample_name i dw" using other by force
    moreover have "\<forall>k < length dws. f \<noteq> sample_name (i + 1 + k) (dws ! k)" using other by fastforce
    ultimately show ?thesis using rest by simp
  qed
  ultimately show ?case using w r by simp
qed simp

section \<open>Analyzing what was generated\<close>

text \<open>How often a severity was picked.\<close>

definition picked :: "string \<Rightarrow> nat list \<Rightarrow> nat" where
  "picked sev picks = length (filter (\<lambda>p. rf_severity (SAMPLE_FINDINGS ! p) = sev) picks)"

lemma sample_severity:
  assumes "p < length SAMPLE_FINDINGS"
  shows "rf_severity (SAMPLE_FINDINGS ! p) \<in> {''CRITICAL'', ''HIGH'', ''MEDIUM'', ''LOW''}"
proof -
  have "SAMPLE_FINDINGS ! p \<in> set SAMPLE_FINDINGS" using assms by (rule nth_mem)
  then show ?thesis by (auto simp: SAMPLE_FINDINGS_def)
qed

lemma upper_severity: "sev \<in> {''CRITICAL'', ''HIGH'', ''MEDIUM'', ''LOW''} \<Longrightarrow> py_upper sev = sev"
  by (elim insertE emptyE) (simp_all, code_simp+)

lemma severity_of_generated:
  assumes "p < length SAMPLE_FINDINGS"
  shows "severity_of (PDict (generated_finding agency idx (SAMPLE_FINDINGS ! p) c)) = Inr (rf_severity (SAMPLE_FINDINGS ! p))"
  using upper_severity [OF sample_severity [OF assms]] by (simp add: severity_of_def generated_finding_def)

lemma count_generated:
  assumes "\<forall>p \<in> set picks. p < length SAMPLE_FINDINGS" "length draws = length picks"
  shows "count_severities (map (\<lambda>(idx, p, c). PDict (generated_finding agency idx (SAMPLE_FINDINGS ! p) (cs ! c))) (enumerate n (zip picks draws))) sv =
    Inr \<lparr>sv_critical = sv_critical sv + picked ''CRITICAL'' picks, sv_high = sv_high sv + picked ''HIGH'' picks,
         sv_medium = sv_medium sv + picked ''MEDIUM'' picks, sv_low = sv_low sv + picked ''LOW'' picks\<rparr>"
  using assms(2,1)
proof (induction draws picks arbitrary: n sv rule: list_induct2)
  case (Cons d draws p picks)
  then show ?case using sample_severity [of p]
    by (auto simp: severity_of_generated count_severity_def picked_def)
qed (simp add: picked_def)

text \<open>The analyzer understands every report the generator can draw: it counts each finding under the
  severity it was drawn with, lists all of them, and takes the report's own number of controls.\<close>

theorem generated_reports_are_analyzed:
  assumes "drawable (sample_framework_of name) picks draws"
  shows "\<exists>r. analyze (Inr (PDict (generate_report agency name picks draws auditor))) raw name agency = Inr r \<and>
    an_total r = length picks \<and>
    an_severities r = \<lparr>sv_critical = picked ''CRITICAL'' picks, sv_high = picked ''HIGH'' picks,
      sv_medium = picked ''MEDIUM'' picks, sv_low = picked ''LOW'' picks\<rparr> \<and>
    an_details r = PList (generated_findings agency (sample_framework_of name) picks draws) \<and>
    an_controls r = PInt (total_controls (framework_of name))"
proof -
  let ?fw = "sample_framework_of name" and ?report = "generate_report agency name picks draws auditor"
  let ?fs = "generated_findings agency ?fw picks draws"
  have len: "length ?fs = length picks" using assms by (simp add: generated_findings_def drawable_def)
  have items: "map_of ?report ''findings'' = Some (PList ?fs)" "map_of ?report ''controls_evaluated'' = Some (PInt (sf_controls ?fw))"
    "\<exists>s. map_of ?report ''executive_summary'' = Some (PStr s)"
    by (simp_all add: generate_report_def Let_def)
  have controls: "sf_controls ?fw = total_controls (framework_of name)"
    by (simp add: sample_framework_of_def framework_of_def FRAMEWORKS_def FRAMEWORK_STANDARDS_def iso_sample_def iso_27001_def)
  have "count_severities ?fs no_severities = Inr \<lparr>sv_critical = picked ''CRITICAL'' picks, sv_high = picked ''HIGH'' picks,
      sv_medium = picked ''MEDIUM'' picks, sv_low = picked ''LOW'' picks\<rparr>"
    unfolding generated_findings_def using assms by (subst count_generated) (simp_all add: drawable_def no_severities_def)
  then show ?thesis using items controls len assms
    by (auto simp: analyze_def read_report_def Let_def dict_item_def drawable_def)
qed

theorem generated_reports_are_analyzed_witness:
  "\<exists>r. analyze (Inr (PDict (generate_report ''agency-gov-001'' ''NIST_CSF'' [0, 5] [1, 1] 3))) [] ''NIST_CSF'' ''agency-gov-001'' = Inr r \<and>
     an_total r = 2 \<and> sv_critical (an_severities r) = 1"
proof -
  have "drawable (sample_framework_of ''NIST_CSF'') [0, 5] [1, 1]"
    by (simp add: drawable_def sample_framework_of_def FRAMEWORKS_def SAMPLE_FINDINGS_def)
  moreover have "picked ''CRITICAL'' [0, 5] = 1" by (simp add: picked_def SAMPLE_FINDINGS_def)
  ultimately show ?thesis using generated_reports_are_analyzed [of "''NIST_CSF''" "[0, 5]" "[1, 1]" "''agency-gov-001''" 3 "[]"] by auto
qed

end
