(* ===== verification/LoadScript.thy ===== *)
theory LoadScript imports LoadTraffic PerformanceTests Telemetry SampleReports begin

text \<open>
  The load test of \<^verbatim>\<open>scripts/load_test.py\<close>: the reports it submits, what it records of an answer, the pool of
  loops that take the reports' numbers from a queue, and the analysis and verdict at the end.  The
  answers and the times measured are arguments.
\<close>

section \<open>The submissions\<close>

definition script_frameworks :: "string list" where
  "script_frameworks = [''ISO_27001'', ''SOC_2_TYPE_II'', ''NIST_CSF'', ''FEDRAMP_HIGH'', ''PCI_DSS_V4'']"

definition script_finding :: "nat \<Rightarrow> string \<Rightarrow> string \<Rightarrow> string \<Rightarrow> string \<Rightarrow> pyval" where
  "script_finding i no sev category text = PDict [
     (''id'', PStr (''F-'' @ nat_str i @ ''-'' @ no)), (''severity'', PStr sev), (''category'', PStr category), (''description'', PStr text)]"

definition script_content :: "string \<Rightarrow> nat \<Rightarrow> (string \<times> pyval) list" where
  "script_content burst i = [
     (''report_id'', PStr (''REP-'' @ burst @ ''-'' @ zero_pad 6 (nat_str i))),
     (''agency_id'', PStr (''agency-audit-team-'' @ zero_pad 3 (nat_str (i mod 100)))),
     (''audit_type'', PStr (script_frameworks ! (i mod length script_frameworks))),
     (''controls_evaluated'', PInt 114),
     (''findings'', PList [
        script_finding i ''1'' ''HIGH'' ''Access Control'' ''MFA gap'',
        script_finding i ''2'' ''MEDIUM'' ''Patch Mgmt'' ''Outdated daemon''])]"

text \<open>The content is text throughout, so that \<^verbatim>\<open>json.dumps\<close> cannot fail.\<close>

definition script_body :: "string \<Rightarrow> nat \<Rightarrow> (string \<times> pyval) list" where
  "script_body burst i = [
     (''agency_id'', PStr (''agency-audit-team-'' @ zero_pad 3 (nat_str (i mod 100)))),
     (''audit_type'', PStr (script_frameworks ! (i mod length script_frameworks))),
     (''report_year'', PInt 2026),
     (''auditor_org'', PStr (''CyberSec Assurance Group '' @ nat_str (i mod 15 + 1))),
     (''content_raw'', PStr (json_text False (PDict (script_content burst i))))]"

section \<open>One answer\<close>

record sent =
  sn_code :: int
  sn_client :: pyfloat
  sn_server :: pyfloat

text \<open>\<^verbatim>\<open>rtt\<close> is the measured time.  \<^term>\<open>None\<close>: the answer reports a latency that is not finite.\<close>

definition send_single_report :: "http_answer \<Rightarrow> pyfloat \<Rightarrow> sent option" where
  "send_single_report ans rtt =
     (case ans of
        Inl e \<Rightarrow> Some \<lparr>sn_code = 0, sn_client = rtt, sn_server = rtt\<rparr>
      | Inr (code, body) \<Rightarrow>
          (if code = 200 \<or> code = 202
           then case py_bind body (\<lambda>v. py_bind (py_get v ''latency_ms'' (PFloat rtt)) py_float) of
                  Inl e \<Rightarrow> Some \<lparr>sn_code = code, sn_client = rtt, sn_server = rtt\<rparr>
                | Inr None \<Rightarrow> None
                | Inr (Some x) \<Rightarrow> Some \<lparr>sn_code = code, sn_client = rtt, sn_server = x\<rparr>
           else Some \<lparr>sn_code = code, sn_client = rtt, sn_server = rtt\<rparr>))"

section \<open>The pool\<close>

text \<open>A loop is at its head, waits for the answer to a report, or has ended.\<close>

datatype loop_phase = AtTop | Sending nat | Ended

record pool =
  lp_queue :: "nat list"
  lp_loops :: "loop_phase list"
  lp_results :: "(nat \<times> sent) list"

definition start_pool :: "nat \<Rightarrow> pool" where
  "start_pool amount = \<lparr>lp_queue = [0..<amount], lp_loops = replicate 30 AtTop, lp_results = []\<rparr>"

text \<open>One turn of loop \<^verbatim>\<open>w\<close>, up to its next await; nothing comes between the test of the queue and taking its
  head.  \<^verbatim>\<open>reply\<close> gives what is recorded for each report.\<close>

definition loop_step :: "(nat \<Rightarrow> sent) \<Rightarrow> nat \<Rightarrow> pool \<Rightarrow> pool option" where
  "loop_step reply w s =
     (if w < length (lp_loops s) then
        case lp_loops s ! w of
          AtTop \<Rightarrow>
            (case lp_queue s of
               [] \<Rightarrow> Some (s\<lparr>lp_loops := (lp_loops s)[w := Ended]\<rparr>)
             | i # q \<Rightarrow> Some (s\<lparr>lp_queue := q, lp_loops := (lp_loops s)[w := Sending i]\<rparr>))
        | Sending i \<Rightarrow> Some (s\<lparr>lp_loops := (lp_loops s)[w := AtTop], lp_results := lp_results s @ [(i, reply i)]\<rparr>)
        | Ended \<Rightarrow> None
      else None)"

text \<open>The loops take turns in any order.\<close>

fun run_pool :: "(nat \<Rightarrow> sent) \<Rightarrow> nat list \<Rightarrow> pool \<Rightarrow> pool option" where
  "run_pool reply [] s = Some s"
| "run_pool reply (w # ws) s = Option.bind (loop_step reply w s) (run_pool reply ws)"

definition all_ended :: "pool \<Rightarrow> bool" where
  "all_ended s \<longleftrightarrow> (\<forall>p \<in> set (lp_loops s). p = Ended)"

section \<open>The analysis\<close>

record run_tally =
  ta_codes :: "(int \<times> nat) list"
  ta_client :: "pyfloat list"
  ta_server :: "pyfloat list"
  ta_accepted :: nat
  ta_shed :: nat
  ta_5xx :: nat
  ta_network :: nat

definition no_tally :: run_tally where
  "no_tally = \<lparr>ta_codes = [], ta_client = [], ta_server = [], ta_accepted = 0, ta_shed = 0, ta_5xx = 0, ta_network = 0\<rparr>"

definition tally_result :: "sent \<Rightarrow> run_tally \<Rightarrow> run_tally" where
  "tally_result r t =
     (let c = sn_code r; t = t\<lparr>ta_codes := bump c (ta_codes t)\<rparr> in
      if c = 202 \<or> c = 200 then
        t\<lparr>ta_accepted := ta_accepted t + 1, ta_client := ta_client t @ [sn_client r], ta_server := ta_server t @ [sn_server r]\<rparr>
      else if c = 429 then
        t\<lparr>ta_shed := ta_shed t + 1, ta_client := ta_client t @ [sn_client r], ta_server := ta_server t @ [sn_server r]\<rparr>
      else if 500 \<le> c then t\<lparr>ta_5xx := ta_5xx t + 1\<rparr>
      else if c = 0 then t\<lparr>ta_network := ta_network t + 1\<rparr>
      else t)"

definition tally_of :: "sent list \<Rightarrow> run_tally" where
  "tally_of rs = fold tally_result rs no_tally"

text \<open>\<^verbatim>\<open>xs[int(n * q)] if n else 0.0\<close>, where \<^verbatim>\<open>xs\<close> is sorted.\<close>

definition at_fraction :: "pyfloat \<Rightarrow> nat \<Rightarrow> pyfloat list \<Rightarrow> pyfloat py_result" where
  "at_fraction q n xs =
     (if n = 0 then Inr 0
      else let i = nat (py_trunc (float_of_int (int n) * q)) in if i < length xs then Inr (xs ! i) else Inl IndexError)"

record script_report =
  lr_total :: nat
  lr_duration :: pyfloat
  lr_throughput :: pyfloat
  lr_accepted :: nat
  lr_shed :: nat
  lr_5xx :: nat
  lr_5xx_rate :: pyfloat
  lr_server_p50 :: pyfloat
  lr_server_p95 :: pyfloat
  lr_client_p50 :: pyfloat
  lr_client_p95 :: pyfloat
  lr_pass_all :: bool

definition p50 :: pyfloat where "p50 = Fl (1/2)"
definition p90 :: pyfloat where "p90 = Fl (9/10)"
definition p95 :: pyfloat where "p95 = Fl (95/100)"
definition p99 :: pyfloat where "p99 = Fl (99/100)"

text \<open>What \<^verbatim>\<open>run_burst_load_test\<close> returns; the summary it prints divides by the number of results.\<close>

definition analyze_run :: "sent list \<Rightarrow> pyfloat \<Rightarrow> script_report py_result" where
  "analyze_run rs wall =
     (let t = tally_of rs; server = sort (ta_server t); client = sort (ta_client t); n = length server; amount = int (length rs);
          throughput = (if 0 < wall then float_of_int amount / wall else 0);
          rate = (if rs \<noteq> [] then int_truediv (int (ta_5xx t)) amount * Fl 100 else 0) in
      py_bind (at_fraction p50 n server) (\<lambda>s50.
      py_bind (at_fraction p90 n server) (\<lambda>s90.
      py_bind (at_fraction p95 n server) (\<lambda>s95.
      py_bind (at_fraction p99 n server) (\<lambda>s99.
      py_bind (at_fraction p50 n client) (\<lambda>c50.
      py_bind (at_fraction p95 n client) (\<lambda>c95.
      py_bind (at_fraction p99 n client) (\<lambda>c99.
      if rs = [] then Inl ZeroDivisionError
      else Inr \<lparr>
        lr_total = length rs, lr_duration = py_round wall 2, lr_throughput = py_round throughput 2,
        lr_accepted = ta_accepted t, lr_shed = ta_shed t, lr_5xx = ta_5xx t, lr_5xx_rate = py_round rate 4,
        lr_server_p50 = py_round s50 2, lr_server_p95 = py_round s95 2,
        lr_client_p50 = py_round c50 2, lr_client_p95 = py_round c95 2,
        lr_pass_all = (ta_5xx t = 0 \<and> s95 < Fl 150 \<and> c95 < Fl 150)\<rparr>))))))))"

section \<open>Every report is sent once\<close>

definition awaited :: "loop_phase list \<Rightarrow> nat multiset" where
  "awaited ps = mset (concat (map (\<lambda>p. case p of Sending i \<Rightarrow> [i] | _ \<Rightarrow> []) ps))"

fun loop_effort :: "loop_phase \<Rightarrow> nat" where
  "loop_effort AtTop = 1"
| "loop_effort (Sending i) = 2"
| "loop_effort Ended = 0"

definition pool_effort :: "pool \<Rightarrow> nat" where
  "pool_effort s = 3 * length (lp_queue s) + (\<Sum>p\<leftarrow>lp_loops s. loop_effort p)"

definition pool_inv :: "(nat \<Rightarrow> sent) \<Rightarrow> nat \<Rightarrow> pool \<Rightarrow> bool" where
  "pool_inv reply amount s \<longleftrightarrow>
     mset (lp_queue s) + awaited (lp_loops s) + mset (map fst (lp_results s)) = mset [0..<amount] \<and>
     (\<forall>(i, r) \<in> set (lp_results s). r = reply i) \<and> (Ended \<in> set (lp_loops s) \<longrightarrow> lp_queue s = []) \<and> lp_loops s \<noteq> []"

lemma awaited_update:
  assumes "w < length ps"
  shows "awaited (ps[w := p]) + awaited [ps ! w] = awaited ps + awaited [p]"
  using assms by (induction ps arbitrary: w) (auto simp: awaited_def nth_Cons split: nat.splits loop_phase.splits)

lemma loop_effort_update:
  assumes "w < length ps"
  shows "(\<Sum>p\<leftarrow>ps[w := p]. loop_effort p) + loop_effort (ps ! w) = (\<Sum>p\<leftarrow>ps. loop_effort p) + loop_effort p"
  using assms by (induction ps arbitrary: w) (auto simp: nth_Cons split: nat.splits)

lemma loop_step_cases:
  assumes "loop_step reply w s = Some s'"
  obtains
    (ends) "w < length (lp_loops s)" "lp_loops s ! w = AtTop" "lp_queue s = []" "s' = s\<lparr>lp_loops := (lp_loops s)[w := Ended]\<rparr>"
  | (takes) i q where "w < length (lp_loops s)" "lp_loops s ! w = AtTop" "lp_queue s = i # q"
      "s' = s\<lparr>lp_queue := q, lp_loops := (lp_loops s)[w := Sending i]\<rparr>"
  | (answered) i where "w < length (lp_loops s)" "lp_loops s ! w = Sending i"
      "s' = s\<lparr>lp_loops := (lp_loops s)[w := AtTop], lp_results := lp_results s @ [(i, reply i)]\<rparr>"
  using assms by (auto simp: loop_step_def split: if_splits loop_phase.splits list.splits)


lemma pool_step_inv:
  assumes "loop_step reply w s = Some s'" "pool_inv reply n s"
  shows "pool_inv reply n s'"
  using assms(1)
proof (cases rule: loop_step_cases)
  case ends
  have "awaited ((lp_loops s)[w := Ended]) = awaited (lp_loops s)"
    using awaited_update [OF ends(1), of Ended] by (simp add: ends(2) awaited_def)
  then show ?thesis using assms(2) ends by (auto simp: pool_inv_def)
next
  case (takes i q)
  have flight: "awaited ((lp_loops s)[w := Sending i]) = add_mset i (awaited (lp_loops s))"
    using awaited_update [OF takes(1), of "Sending i"] by (simp add: takes(2) awaited_def)
  have "Ended \<notin> set (lp_loops s)" using assms(2) takes(3) by (auto simp: pool_inv_def)
  then have "Ended \<notin> set ((lp_loops s)[w := Sending i])" using set_update_subset_insert [of "lp_loops s" w "Sending i"] by auto
  then show ?thesis using assms(2) takes(3) by (simp add: pool_inv_def takes(4) flight)
next
  case (answered i)
  have flight: "awaited (lp_loops s) = add_mset i (awaited ((lp_loops s)[w := AtTop]))"
    using awaited_update [OF answered(1), of AtTop] by (simp add: answered(2) awaited_def)
  have "Ended \<in> set (lp_loops s)" if "Ended \<in> set ((lp_loops s)[w := AtTop])"
    using that set_update_subset_insert [of "lp_loops s" w AtTop] by auto
  then show ?thesis using assms(2) by (auto simp: pool_inv_def answered(3) flight)
qed

lemma loop_step_effort:
  assumes "loop_step reply w s = Some s'"
  shows "pool_effort s' < pool_effort s"
  using assms
proof (cases rule: loop_step_cases)
  case ends
  then show ?thesis using loop_effort_update [OF ends(1), of Ended] by (simp add: pool_effort_def)
next
  case (takes i q)
  then show ?thesis using loop_effort_update [OF takes(1), of "Sending i"] by (simp add: pool_effort_def)
next
  case (answered i)
  then show ?thesis using loop_effort_update [OF answered(1), of AtTop] by (simp add: pool_effort_def)
qed

lemma loop_step_enabled:
  assumes "\<not> all_ended s"
  shows "\<exists>w s'. loop_step reply w s = Some s'"
proof -
  obtain w where w: "w < length (lp_loops s)" "lp_loops s ! w \<noteq> Ended"
    using assms by (auto simp: all_ended_def in_set_conv_nth)
  then have "loop_step reply w s \<noteq> None" by (auto simp: loop_step_def split: loop_phase.splits list.splits)
  then show ?thesis by blast
qed

lemma run_pool_inv: "run_pool reply ws s = Some s' \<Longrightarrow> pool_inv reply n s \<Longrightarrow> pool_inv reply n s'"
  by (induction ws arbitrary: s) (auto simp: bind_eq_Some_conv dest: pool_step_inv)

lemma run_pool_effort: "run_pool reply ws s = Some s' \<Longrightarrow> pool_effort s' + length ws \<le> pool_effort s"
  by (induction ws arbitrary: s) (fastforce simp: bind_eq_Some_conv dest: loop_step_effort)+

lemma run_pool_append: "run_pool reply (ws @ vs) s = Option.bind (run_pool reply ws s) (run_pool reply vs)"
  by (induction ws arbitrary: s) (auto split: bind_splits)

text \<open>Whatever has run, the loops can go on to their end.\<close>

lemma run_pool_can_end: "\<exists>ws s'. run_pool reply ws s = Some s' \<and> all_ended s'"
proof (induction "pool_effort s" arbitrary: s rule: less_induct)
  case less
  show ?case
  proof (cases "all_ended s")
    case True
    then show ?thesis by (intro exI [of _ "[]"]) simp
  next
    case False
    then obtain w s' where w: "loop_step reply w s = Some s'" using loop_step_enabled by blast
    from less [OF loop_step_effort [OF this]] obtain ws t where "run_pool reply ws s' = Some t" "all_ended t" by blast
    then show ?thesis using w by (intro exI [of _ "w # ws"]) auto
  qed
qed

lemma start_pool_inv: "pool_inv reply n (start_pool n)"
  by (simp add: pool_inv_def start_pool_def awaited_def)

lemma start_pool_effort: "pool_effort (start_pool n) = 3 * n + 30"
  by (simp add: pool_effort_def start_pool_def sum_list_replicate)

lemma all_ended_results:
  assumes "pool_inv reply n s" "all_ended s"
  shows "mset (lp_results s) = mset (map (\<lambda>i. (i, reply i)) [0..<n])"
proof -
  have "lp_queue s = []" using assms by (cases "lp_loops s") (auto simp: pool_inv_def all_ended_def)
  moreover have "map (\<lambda>p. case p of Sending i \<Rightarrow> [i] | _ \<Rightarrow> []) (lp_loops s) = map (\<lambda>_. []) (lp_loops s)"
    using assms(2) by (intro map_cong) (auto simp: all_ended_def)
  then have "awaited (lp_loops s) = {#}" by (simp add: awaited_def)
  ultimately have fsts: "mset (map fst (lp_results s)) = mset [0..<n]" using assms(1) by (simp add: pool_inv_def)
  have "map (\<lambda>i. (i, reply i)) (map fst (lp_results s)) = lp_results s"
    using assms(1) by (auto simp: pool_inv_def intro!: map_idI)
  then show ?thesis using fsts by (metis mset_map)
qed

section \<open>The figures\<close>

definition accepted_code :: "int \<Rightarrow> bool" where
  "accepted_code c \<longleftrightarrow> c = 202 \<or> c = 200"

text \<open>The results whose times are analyzed.\<close>

definition timed :: "sent list \<Rightarrow> sent list" where
  "timed rs = filter (\<lambda>r. accepted_code (sn_code r) \<or> sn_code r = 429) rs"

lemma tally_append: "tally_of (rs @ [r]) = tally_result r (tally_of rs)"
  by (simp add: tally_of_def)

lemma tally_figures:
  "ta_accepted (tally_of rs) = length (filter (\<lambda>r. accepted_code (sn_code r)) rs)"
  "ta_shed (tally_of rs) = length (filter (\<lambda>r. sn_code r = 429) rs)"
  "ta_5xx (tally_of rs) = length (filter (\<lambda>r. 500 \<le> sn_code r) rs)"
  "ta_network (tally_of rs) = length (filter (\<lambda>r. sn_code r = 0) rs)"
  "ta_client (tally_of rs) = map sn_client (timed rs)"
  "ta_server (tally_of rs) = map sn_server (timed rs)"
  by (induction rs rule: rev_induct)
    (auto simp: tally_append tally_result_def Let_def timed_def accepted_code_def, simp_all add: tally_of_def no_tally_def)

lemma fraction_index:
  assumes "0 < n" "n < 2 ^ 40" "0 \<le> q" "q \<le> Fl (127/128)"
  shows "nat (py_trunc (float_of_int (int n) * q)) < n"
proof -
  have exact: "fl (of_int (int n * 127) * 2 powi (-7)) = of_int (int n * 127) * 2 powi (-7)"
    using assms(2) by (intro fl_exact) (simp_all add: abs_mult)
  have "(127/128 :: rat) = of_int 127 * 2 powi (-7)" by (simp add: power_int_def power_divide)
  then have unit: "fl (127/128) = 127/128" using fl_exact [of 127 "-7"] by (simp only:) simp
  have "fval (float_of_int (int n)) = of_nat n" using assms(2) by (subst fval_float_of_int) auto
  moreover have "0 \<le> fval q" "fval q \<le> 127/128" using assms(3,4) unit by (simp_all add: le_fval)
  ultimately have val: "fval (float_of_int (int n) * q) = fl (of_nat n * fval q)"
    and "of_nat n * fval q \<le> of_nat n * (127/128)"
    by (simp, intro mult_left_mono) simp_all
  moreover have "of_nat n * (127/128) = (of_int (int n * 127) * 2 powi (-7) :: rat)" by (simp add: power_int_def power_divide)
  ultimately have le: "of_nat n * fval q \<le> of_int (int n * 127) * 2 powi (-7)" by simp
  have "fl (of_nat n * fval q) \<le> of_int (int n * 127) * 2 powi (-7)" using le exact by (rule fl_le_of_le)
  also have "\<dots> < of_nat n" using assms(1) by (simp add: power_int_def power_divide)
  finally have "fval (float_of_int (int n) * q) < of_nat n" by (simp only: val)
  moreover have "0 \<le> fval (float_of_int (int n) * q)" unfolding val using \<open>0 \<le> fval q\<close> by (intro fl_nonneg) simp
  ultimately show ?thesis by (simp add: py_trunc_def nat_less_iff floor_less_iff)
qed

lemma fractions: "q \<in> {p50, p90, p95, p99} \<Longrightarrow> 0 \<le> q \<and> q \<le> Fl (127/128)"
  by (auto simp: p50_def p90_def p95_def p99_def le_fval intro!: fl_nonneg fl_mono)

text \<open>A percentile of times that were measured is one of them.\<close>

lemma at_fraction_returns:
  assumes "q \<in> {p50, p90, p95, p99}" "length xs < 2 ^ 40"
  shows "\<exists>x. at_fraction q (length xs) xs = Inr x \<and> (if xs = [] then x = 0 else x \<in> set xs)"
  using fraction_index [of "length xs" q] fractions [OF assms(1)] assms(2)
  by (auto simp: at_fraction_def Let_def)

text \<open>With a result there is a report; none of the percentiles is out of range.\<close>

lemma analyze_run_returns:
  assumes "rs \<noteq> []" "length rs < 2 ^ 40"
  shows "\<exists>rep s95 c95. analyze_run rs wall = Inr rep \<and> lr_total rep = length rs \<and>
    lr_accepted rep = length (filter (\<lambda>r. accepted_code (sn_code r)) rs) \<and>
    lr_shed rep = length (filter (\<lambda>r. sn_code r = 429) rs) \<and>
    lr_5xx rep = length (filter (\<lambda>r. 500 \<le> sn_code r) rs) \<and>
    at_fraction p95 (length (timed rs)) (sort (map sn_server (timed rs))) = Inr s95 \<and>
    at_fraction p95 (length (timed rs)) (sort (map sn_client (timed rs))) = Inr c95 \<and>
    lr_pass_all rep = ((\<forall>r \<in> set rs. sn_code r < 500) \<and> s95 < Fl 150 \<and> c95 < Fl 150)"
proof -
  have short: "length (timed rs) < 2 ^ 40" using assms(2) by (simp add: timed_def le_less_trans [OF length_filter_le])
  have ret: "\<exists>x. at_fraction q (length (timed rs)) (sort (map f (timed rs))) = Inr x" if "q \<in> {p50, p90, p95, p99}" for q f
    using at_fraction_returns [OF that, of "sort (map f (timed rs))"] short by auto
  obtain s50 s90 s95 s99 c50 c95 c99 where
    s: "at_fraction p50 (length (timed rs)) (sort (map sn_server (timed rs))) = Inr s50"
      "at_fraction p90 (length (timed rs)) (sort (map sn_server (timed rs))) = Inr s90"
      "at_fraction p95 (length (timed rs)) (sort (map sn_server (timed rs))) = Inr s95"
      "at_fraction p99 (length (timed rs)) (sort (map sn_server (timed rs))) = Inr s99"
    and c: "at_fraction p50 (length (timed rs)) (sort (map sn_client (timed rs))) = Inr c50"
      "at_fraction p95 (length (timed rs)) (sort (map sn_client (timed rs))) = Inr c95"
      "at_fraction p99 (length (timed rs)) (sort (map sn_client (timed rs))) = Inr c99"
    using ret by (metis insertI1 insertI2)
  have "length (filter (\<lambda>r. 500 \<le> sn_code r) rs) = 0 \<longleftrightarrow> (\<forall>r \<in> set rs. sn_code r < 500)"
    by (simp add: filter_empty_conv not_le)
  then show ?thesis using assms(1) s c by (simp add: analyze_run_def Let_def tally_figures)
qed

text \<open>C29: a run of the script accounts for every report: in whatever order the loops and the answers come, each
  report is sent once, and the summary counts each answer.\<close>

theorem load_script_accounts_for_every_report:
  assumes "run_pool reply ws (start_pool n) = Some s" "0 < n" "n < 2 ^ 40"
  shows "length ws \<le> 3 * n + 30 \<and> (\<exists>vs s'. run_pool reply (ws @ vs) (start_pool n) = Some s' \<and> all_ended s') \<and>
    (all_ended s \<longrightarrow> mset (map fst (lp_results s)) = mset [0..<n] \<and>
      (\<exists>rep. analyze_run (map snd (lp_results s)) wall = Inr rep \<and> lr_total rep = n \<and>
        lr_accepted rep = card {i. i < n \<and> accepted_code (sn_code (reply i))} \<and>
        lr_shed rep = card {i. i < n \<and> sn_code (reply i) = 429} \<and>
        lr_5xx rep = card {i. i < n \<and> 500 \<le> sn_code (reply i)}))"
proof (intro conjI impI)
  show "length ws \<le> 3 * n + 30" using run_pool_effort [OF assms(1)] by (simp add: start_pool_effort)
  show "\<exists>vs s'. run_pool reply (ws @ vs) (start_pool n) = Some s' \<and> all_ended s'"
    using run_pool_can_end [of reply s] assms(1) by (auto simp: run_pool_append)
  assume ended: "all_ended s"
  have res: "mset (lp_results s) = mset (map (\<lambda>i. (i, reply i)) [0..<n])"
    using run_pool_inv [OF assms(1) start_pool_inv] ended by (rule all_ended_results)
  have "mset (map fst (lp_results s)) = mset (map fst (map (\<lambda>i. (i, reply i)) [0..<n]))" by (simp only: mset_map res)
  then show "mset (map fst (lp_results s)) = mset [0..<n]" by (simp add: comp_def)
  have snds: "mset (map snd (lp_results s)) = mset (map reply [0..<n])"
    using arg_cong [OF res, of "image_mset snd"] by (simp add: mset_map [symmetric] comp_def del: mset_map)
  have count: "length (filter P (map snd (lp_results s))) = card {i. i < n \<and> P (reply i)}" for P
  proof -
    have "length (filter P (map snd (lp_results s))) = length (filter P (map reply [0..<n]))"
      using snds by (metis mset_filter size_mset)
    also have "\<dots> = card {i. i < n \<and> P (reply i)}"
      by (simp add: filter_map comp_def distinct_card [symmetric] conj_commute)
    finally show ?thesis .
  qed
  have len: "length (map snd (lp_results s)) = n" using arg_cong [OF snds, of size] by simp
  moreover have "map snd (lp_results s) \<noteq> []" using len assms(2) by auto
  ultimately obtain rep where "analyze_run (map snd (lp_results s)) wall = Inr rep" "lr_total rep = n"
    "lr_accepted rep = length (filter (\<lambda>r. accepted_code (sn_code r)) (map snd (lp_results s)))"
    "lr_shed rep = length (filter (\<lambda>r. sn_code r = 429) (map snd (lp_results s)))"
    "lr_5xx rep = length (filter (\<lambda>r. 500 \<le> sn_code r) (map snd (lp_results s)))"
    using analyze_run_returns [of "map snd (lp_results s)" wall] assms(3) by auto
  then show "\<exists>rep. analyze_run (map snd (lp_results s)) wall = Inr rep \<and> lr_total rep = n \<and>
      lr_accepted rep = card {i. i < n \<and> accepted_code (sn_code (reply i))} \<and>
      lr_shed rep = card {i. i < n \<and> sn_code (reply i) = 429} \<and> lr_5xx rep = card {i. i < n \<and> 500 \<le> sn_code (reply i)}"
    by (intro exI [of _ rep]) (simp only: count simp_thms)
qed

text \<open>Two reports sent by two loops, both accepted.\<close>

definition example_reply :: "nat \<Rightarrow> sent" where
  "example_reply i = \<lparr>sn_code = 202, sn_client = Fl 20, sn_server = Fl 10\<rparr>"

lemma example_script_run: "\<exists>s. run_pool example_reply ([0, 1, 0, 1] @ [0..<30]) (start_pool 2) = Some s \<and> all_ended s"
proof -
  have "case run_pool example_reply ([0, 1, 0, 1] @ [0..<30]) (start_pool 2) of None \<Rightarrow> False | Some s \<Rightarrow> all_ended s" by code_simp
  then show ?thesis by (auto split: option.splits)
qed

theorem load_script_accounts_for_every_report_witness:
  "\<exists>s rep. run_pool example_reply ([0, 1, 0, 1] @ [0..<30]) (start_pool 2) = Some s \<and> all_ended s \<and>
    analyze_run (map snd (lp_results s)) 1 = Inr rep \<and> lr_total rep = 2 \<and> lr_accepted rep = 2 \<and> lr_shed rep = 0"
proof -
  obtain s where s: "run_pool example_reply ([0, 1, 0, 1] @ [0..<30]) (start_pool 2) = Some s" "all_ended s"
    using example_script_run by blast
  then show ?thesis using load_script_accounts_for_every_report [OF s(1), of 1]
    by (auto simp: example_reply_def accepted_code_def)
qed

section \<open>The verdict\<close>

lemma at_95_below:
  assumes "at_fraction p95 (length xs) (sort xs) = Inr x" "x < Fl 150" "length xs < 2 ^ 14"
  shows "95 * length xs \<le> 100 * length (filter (\<lambda>x. x < Fl 150) xs)"
proof (cases "xs = []")
  case False
  let ?i = "py_trunc (float_of_int (int (length xs)) * Fl (95/100))"
  have i: "0 \<le> ?i" "95 * int (length xs) \<le> 100 * (?i + 1)" using index_95 [of "int (length xs)"] False assms(3) by auto
  have "nat ?i < length xs" "sort xs ! nat ?i < Fl 150"
    using assms(1,2) False by (auto simp: at_fraction_def Let_def p95_def split: if_splits)
  then have "nat ?i + 1 \<le> length (filter (\<lambda>x. x < Fl 150) xs)" by (rule sorted_below)
  then have "?i + 1 \<le> int (length (filter (\<lambda>x. x < Fl 150) xs))" using i(1) by linarith
  then have "95 * int (length xs) \<le> 100 * int (length (filter (\<lambda>x. x < Fl 150) xs))" by (intro order_trans [OF i(2)]) simp
  then show ?thesis by linarith
qed simp

lemma analyze_run_total:
  assumes "analyze_run rs wall = Inr rep"
  shows "rs \<noteq> []"
  using assms by (auto simp: analyze_run_def Let_def py_bind_def split: sum.splits if_splits)

text \<open>A run that passes had no answer of 500 and above, and of the reports that were accepted or shed at least
  95 of 100 took less than 150 ms, by the client's clock and by the server's.\<close>

theorem passing_run_was_fast:
  assumes "analyze_run rs wall = Inr rep" "lr_pass_all rep" "length rs < 2 ^ 14"
  shows "(\<forall>r \<in> set rs. sn_code r < 500) \<and>
    95 * length (timed rs) \<le> 100 * length (filter (\<lambda>r. sn_client r < Fl 150) (timed rs)) \<and>
    95 * length (timed rs) \<le> 100 * length (filter (\<lambda>r. sn_server r < Fl 150) (timed rs))"
proof -
  have short: "length (timed rs) < 2 ^ 14" using assms(3) by (simp add: timed_def le_less_trans [OF length_filter_le])
  obtain s95 c95 where r: "at_fraction p95 (length (timed rs)) (sort (map sn_server (timed rs))) = Inr s95"
    "at_fraction p95 (length (timed rs)) (sort (map sn_client (timed rs))) = Inr c95"
    "\<forall>r \<in> set rs. sn_code r < 500" "s95 < Fl 150" "c95 < Fl 150"
    using analyze_run_returns [OF analyze_run_total [OF assms(1)], of wall] assms by auto
  have "95 * length (map f (timed rs)) \<le> 100 * length (filter (\<lambda>x. x < Fl 150) (map f (timed rs)))"
    if "at_fraction p95 (length (timed rs)) (sort (map f (timed rs))) = Inr x" "x < Fl 150" for f x
    using that short by (intro at_95_below) simp_all
  from this [OF r(1,4)] this [OF r(2,5)] r(3) show ?thesis by (simp add: filter_map comp_def)
qed

text \<open>But a run can pass with no answer at all: refusals and lost connections are not held against it, and the
  percentiles of no times are 0.\<close>

theorem run_without_answers_passes:
  assumes "rs \<noteq> []" "length rs < 2 ^ 40" "\<forall>r \<in> set rs. sn_code r < 500 \<and> \<not> accepted_code (sn_code r) \<and> sn_code r \<noteq> 429"
  shows "\<exists>rep. analyze_run rs wall = Inr rep \<and> lr_pass_all rep \<and> lr_accepted rep = 0"
proof -
  have none: "timed rs = []" "filter (\<lambda>r. accepted_code (sn_code r)) rs = []" using assms(3) by (auto simp: timed_def filter_empty_conv)
  have "0 < (Fl 150 :: pyfloat)" by (simp add: less_fval fl_of_int [of 150, simplified])
  then show ?thesis using analyze_run_returns [OF assms(1,2), of wall] assms(3) by (auto simp: none at_fraction_def)
qed

text \<open>With nothing to send the summary cannot be printed.\<close>

lemma empty_run_raises: "analyze_run [] wall = Inl ZeroDivisionError"
  by (simp add: analyze_run_def Let_def at_fraction_def tally_figures timed_def)

section \<open>What the API makes of the submissions\<close>

lemma json_char_digit:
  assumes "d < 10" shows "json_char (digit_char d) = [digit_char d]" "digit_char d \<noteq> char_of (34::nat)"
proof -
  have "d \<in> {0, 1, 2, 3, 4, 5, 6, 7, 8, 9}" using assms by auto
  then show "json_char (digit_char d) = [digit_char d]" "digit_char d \<noteq> char_of (34::nat)"
    by (elim insertE; simp; code_simp)+
qed

lemma json_digits:
  assumes "is_digits 10 s" shows "concat (map json_char s) = s" "char_of (34::nat) \<notin> set s"
  using assms by (induction s) (auto simp: is_digits_def json_char_digit json_char_digit(2) [symmetric])

lemma zero_pad_digits: "is_digits 10 (zero_pad w (nat_str i))"
proof -
  have "CHR ''0'' = digit_char 0" by code_simp
  then have "is_digits 10 [CHR ''0'']" by (auto simp: is_digits_def intro!: exI [of _ 0])
  then show ?thesis using is_digits_nat_str [of i] by (auto simp: zero_pad_def is_digits_def)
qed

lemma zero_pad_inj: "zero_pad w (nat_str i) = zero_pad w (nat_str j) \<longleftrightarrow> i = j"
proof
  assume "zero_pad w (nat_str i) = zero_pad w (nat_str j)"
  then have "digits_val 10 0 (nat_str i) = digits_val 10 0 (nat_str j)" by (metis zero_pad_def digits_val_zeros)
  then show "i = j" by (simp add: digits_val_nat_str)
qed simp

text \<open>The content's text begins with the report's number.\<close>

lemma json_text_first:
  "\<exists>rest. json_text False (PDict ((k, PStr s) # kv # kvs)) = (''{'' @ json_string k @ '': '') @ json_string s @ rest"
  by (cases kv) (simp add: Let_def)

lemma script_content_text:
  "\<exists>rest. json_text False (PDict (script_content burst i)) =
    (''{'' @ json_string ''report_id'' @ '': '') @ ([char_of (34::nat)] @ concat (map json_char (''REP-'' @ burst @ ''-''))) @
      zero_pad 6 (nat_str i) @ char_of (34::nat) # rest"
proof -
  have "json_string (''REP-'' @ burst @ ''-'' @ zero_pad 6 (nat_str i)) =
      ([char_of (34::nat)] @ concat (map json_char (''REP-'' @ burst @ ''-''))) @ zero_pad 6 (nat_str i) @ [char_of (34::nat)]"
    by (simp add: json_string_def json_digits [OF zero_pad_digits])
  moreover obtain rest where "json_text False (PDict (script_content burst i)) =
      (''{'' @ json_string ''report_id'' @ '': '') @ json_string (''REP-'' @ burst @ ''-'' @ zero_pad 6 (nat_str i)) @ rest"
    using json_text_first unfolding script_content_def by metis
  ultimately show ?thesis by (intro exI [of _ rest]) (simp only: append_assoc append_Cons append_Nil)
qed

lemma until_quote: "q \<notin> set s \<Longrightarrow> takeWhile (\<lambda>c. c \<noteq> q) (s @ q # r) = s"
  by (induction s) auto

lemma script_content_inj:
  assumes "json_text False (PDict (script_content burst i)) = json_text False (PDict (script_content burst j))"
  shows "i = j"
proof -
  obtain r where i: "json_text False (PDict (script_content burst i)) =
    (''{'' @ json_string ''report_id'' @ '': '') @ ([char_of (34::nat)] @ concat (map json_char (''REP-'' @ burst @ ''-''))) @
      zero_pad 6 (nat_str i) @ char_of (34::nat) # r" using script_content_text by blast
  obtain r' where j: "json_text False (PDict (script_content burst j)) =
    (''{'' @ json_string ''report_id'' @ '': '') @ ([char_of (34::nat)] @ concat (map json_char (''REP-'' @ burst @ ''-''))) @
      zero_pad 6 (nat_str j) @ char_of (34::nat) # r'" using script_content_text by blast
  have "zero_pad 6 (nat_str i) @ char_of (34::nat) # r = zero_pad 6 (nat_str j) @ char_of (34::nat) # r'"
    using assms unfolding i j same_append_eq .
  then have "zero_pad 6 (nat_str i) = zero_pad 6 (nat_str j)"
    using until_quote json_digits(2) [OF zero_pad_digits] by metis
  then show ?thesis by (simp only: zero_pad_inj)
qed

text \<open>The submissions of a run are all different documents to the API: it reads from each a content of its own.\<close>

theorem submissions_differ:
  "\<exists>p. parse_request (post_json (script_body burst i)) = Inr p \<and> p_key p = PNone \<and>
    p_content p = utf8 (json_text False (PDict (script_content burst i)))"
  "(parse_request (post_json (script_body burst i)) = parse_request (post_json (script_body burst j))) = (i = j)"
proof -
  have *: "parse_request (post_json (script_body burst i)) = Inr \<lparr>p_agency = PStr (''agency-audit-team-'' @ zero_pad 3 (nat_str (i mod 100))),
      p_audit_type = PStr (script_frameworks ! (i mod length script_frameworks)), p_year = 2026,
      p_auditor = PStr (''CyberSec Assurance Group '' @ nat_str (i mod 15 + 1)), p_key = PNone,
      p_content = utf8 (json_text False (PDict (script_content burst i)))\<rparr>" for i
    by (simp add: parse_request_def post_json_def script_body_def parse_json_def json_content_def default_parsed_def item_def Let_def)
  then show "\<exists>p. parse_request (post_json (script_body burst i)) = Inr p \<and> p_key p = PNone \<and>
    p_content p = utf8 (json_text False (PDict (script_content burst i)))" by simp
  show "(parse_request (post_json (script_body burst i)) = parse_request (post_json (script_body burst j))) = (i = j)"
    using script_content_inj by (auto simp: * utf8_inj)
qed

end
