(* ===== verification/Batches.thy ===== *)
theory Batches imports Pdf PyVal begin

text \<open>
  The report batches of \<^verbatim>\<open>dashboard/src/app.py\<close>: generated samples and uploaded folders are sent to
  the ingestion API one after the other, and the batch's counters can be watched meanwhile.
\<close>

section \<open>State\<close>

record report =
  rp_name :: string
  rp_content :: bytes
  rp_type :: string

record report_batch =
  rb_id :: string
  rb_status :: string
  rb_total :: nat
  rb_accepted :: nat
  rb_completed :: nat
  rb_errors :: nat
  rb_current_file :: string
  rb_created_at :: pyfloat

type_synonym batches = "string \<Rightarrow> report_batch option"

definition start_batch :: "uuid \<Rightarrow> pyfloat \<Rightarrow> report list \<Rightarrow> batches \<Rightarrow> string \<times> batches" where
  "start_batch u wall reports bs =
     (uuid_hex u, bs(uuid_hex u \<mapsto> \<lparr>
        rb_id = uuid_hex u, rb_status = ''PREPARING'', rb_total = length reports, rb_accepted = 0,
        rb_completed = 0, rb_errors = 0, rb_current_file = [], rb_created_at = wall\<rparr>))"

section \<open>Sending\<close>

text \<open>\<^verbatim>\<open>send_reports\<close> up to its first request, one answer (a status code, or the exception the request
  raised), and its end.\<close>

definition next_file :: "report \<Rightarrow> report_batch \<Rightarrow> report_batch" where
  "next_file r b = b\<lparr>rb_current_file := rp_name r\<rparr>"

definition count_answer :: "int py_result \<Rightarrow> report_batch \<Rightarrow> report_batch" where
  "count_answer ans b =
     (case ans of
        Inr code \<Rightarrow>
          (if code = 200 \<or> code = 202
           then b\<lparr>rb_accepted := rb_accepted b + 1, rb_completed := rb_completed b + 1\<rparr>
           else b\<lparr>rb_errors := rb_errors b + 1\<rparr>)
      | Inl _ \<Rightarrow> b\<lparr>rb_errors := rb_errors b + 1\<rparr>)"

definition finish_batch :: "report_batch \<Rightarrow> report_batch" where
  "finish_batch b = b\<lparr>
     rb_current_file := [],
     rb_status := (if rb_errors b = 0 then ''COMPLETED'' else ''COMPLETED_WITH_ERRORS'')\<rparr>"

text \<open>The batch as it is at each of the task's awaits, and at its end.\<close>

fun send_trace :: "(report \<times> int py_result) list \<Rightarrow> report_batch \<Rightarrow> report_batch list" where
  "send_trace [] b = [finish_batch b]"
| "send_trace ((r, ans) # rs) b =
     next_file r b # send_trace rs (count_answer ans (next_file r b))"

definition send_reports :: "(report \<times> int py_result) list \<Rightarrow> report_batch \<Rightarrow> report_batch list" where
  "send_reports rs b = send_trace rs (b\<lparr>rb_status := ''RUNNING''\<rparr>)"

definition get_batch :: "string \<Rightarrow> batches \<Rightarrow> report_batch py_result" where
  "get_batch i bs = (case bs i of None \<Rightarrow> Inl (HTTPException 404) | Some b \<Rightarrow> Inr b)"

section \<open>Generated samples\<close>

definition sample_frameworks :: "string list" where
  "sample_frameworks = [''ISO 27001'', ''SOC 2 Type II'', ''NIST CSF'', ''PCI DSS v4'']"

definition sample_file :: "nat \<Rightarrow> report" where
  "sample_file i =
     (let number = nat_str (i + 1)
      in \<lparr>rp_name = ''sample-audit-report-'' @ zero_pad 3 number @ ''.pdf'',
          rp_content = create_simple_pdf (''Sample Cybersecurity Audit Report #'' @ number)
            [''Framework: '' @ sample_frameworks ! (i mod length sample_frameworks),
             ''Organization: Example Agency '' @ zero_pad 3 number,
             ''Reporting period: 2026'',
             ''Assessment summary: Controls were reviewed against the selected framework.'',
             ''This report was generated by AegisIngest for pipeline validation.''],
          rp_type = ''application/pdf''\<rparr>)"

text \<open>\<^verbatim>\<open>int((await request.json()).get("count", 10))\<close>: a value or type error is answered 400 (a body
  that is no JSON is a value error), any other exception is let through.\<close>

definition sample_count :: "pyval py_result \<Rightarrow> int py_result" where
  "sample_count body =
     (case py_bind body (\<lambda>v. py_bind (py_get v ''count'' (PInt 10)) py_int) of
        Inl TypeError \<Rightarrow> Inl (HTTPException 400)
      | Inl ValueError \<Rightarrow> Inl (HTTPException 400)
      | Inl e \<Rightarrow> Inl e
      | Inr n \<Rightarrow> Inr (min 100 (max 1 n)))"

definition generate_sample_reports :: "uuid \<Rightarrow> pyfloat \<Rightarrow> pyval py_result \<Rightarrow> batches \<Rightarrow> (string \<times> report list) py_result \<times> batches" where
  "generate_sample_reports u wall body bs =
     (case sample_count body of
        Inl e \<Rightarrow> (Inl e, bs)
      | Inr n \<Rightarrow>
          (let reports = map sample_file [0 ..< nat n];
               (i, bs') = start_batch u wall reports bs
           in (Inr (i, reports), bs')))"

section \<open>Uploads\<close>

record upload =
  up_name :: "string option"
  up_type :: "string option"
  up_content :: "bytes py_result"

text \<open>\<^verbatim>\<open>x or default\<close> on an optional string\<close>

definition str_or :: "string option \<Rightarrow> string \<Rightarrow> string" where
  "str_or x d = (case x of None \<Rightarrow> d | Some s \<Rightarrow> if s = [] then d else s)"

text \<open>Files without content are left out; a file that cannot be read ends the request.\<close>

fun read_uploads :: "upload list \<Rightarrow> report list py_result" where
  "read_uploads [] = Inr []"
| "read_uploads (u # us) =
     py_bind (up_content u) (\<lambda>content.
     py_bind (read_uploads us) (\<lambda>rs.
     Inr (if content = [] then rs
          else \<lparr>rp_name = str_or (up_name u) ''uploaded-report'', rp_content = content,
                rp_type = str_or (up_type u) ''application/octet-stream''\<rparr> # rs)))"

definition upload_reports :: "uuid \<Rightarrow> pyfloat \<Rightarrow> upload list \<Rightarrow> batches \<Rightarrow> (string \<times> report list) py_result \<times> batches" where
  "upload_reports u wall files bs =
     (if files = [] \<or> 100 < length files then (Inl (HTTPException 400), bs)
      else case read_uploads files of
             Inl e \<Rightarrow> (Inl e, bs)
           | Inr reports \<Rightarrow>
               (if reports = [] then (Inl (HTTPException 400), bs)
                else (let (i, bs') = start_batch u wall reports bs in (Inr (i, reports), bs'))))"

section \<open>The counters\<close>

definition accepted_answer :: "int py_result \<Rightarrow> bool" where
  "accepted_answer ans \<longleftrightarrow> ans = Inr 200 \<or> ans = Inr 202"

lemma count_answer_fields [simp]:
  "rb_accepted (count_answer ans b) = rb_accepted b + (if accepted_answer ans then 1 else 0)"
  "rb_completed (count_answer ans b) = rb_completed b + (if accepted_answer ans then 1 else 0)"
  "rb_errors (count_answer ans b) = rb_errors b + (if accepted_answer ans then 0 else 1)"
  "rb_status (count_answer ans b) = rb_status b" "rb_total (count_answer ans b) = rb_total b"
  by (auto simp: count_answer_def accepted_answer_def split: sum.split)

lemma next_file_fields [simp]:
  "rb_accepted (next_file r b) = rb_accepted b" "rb_completed (next_file r b) = rb_completed b"
  "rb_errors (next_file r b) = rb_errors b" "rb_status (next_file r b) = rb_status b" "rb_total (next_file r b) = rb_total b"
  by (simp_all add: next_file_def)

text \<open>State \<^verbatim>\<open>n\<close> of the trace has counted the first \<^verbatim>\<open>n\<close> answers.\<close>

lemma send_trace_nth:
  assumes "n \<le> length rs"
  shows "n < length (send_trace rs b) \<and>
    (let c = send_trace rs b ! n; ok = length (filter accepted_answer (map snd (take n rs))) in
       rb_accepted c = rb_accepted b + ok \<and> rb_completed c = rb_completed b + ok \<and>
       rb_errors c = rb_errors b + (n - ok) \<and> rb_total c = rb_total b \<and>
       (n < length rs \<longrightarrow> rb_status c = rb_status b \<and> rb_current_file c = rp_name (fst (rs ! n))))"
  using assms
proof (induction rs arbitrary: b n)
  case Nil
  then show ?case by (simp add: finish_batch_def)
next
  case (Cons x rs)
  obtain r ans where x: "x = (r, ans)" by (cases x)
  show ?case
  proof (cases n)
    case 0
    then show ?thesis by (simp add: x next_file_def)
  next
    case (Suc m)
    have "length (filter accepted_answer (map snd (take m rs))) \<le> m"
      using length_filter_le [of accepted_answer "map snd (take m rs)"] Cons.prems Suc by simp
    then show ?thesis using Cons.IH [of m "count_answer ans (next_file r b)"] Cons.prems Suc
      by (auto simp: x Let_def)
  qed
qed

lemma send_trace_last:
  "last (send_trace rs b) = finish_batch (fold (\<lambda>(r, ans) b. count_answer ans (next_file r b)) rs b)"
proof (induction rs b rule: send_trace.induct)
  case (2 r ans rs b)
  moreover have "send_trace rs c \<noteq> []" for c by (cases rs) auto
  ultimately show ?case by simp
qed simp

lemma length_send_trace [simp]: "length (send_trace rs b) = Suc (length rs)"
  by (induction rs b rule: send_trace.induct) simp_all

text \<open>C40: a batch's counters can be trusted while it runs: at its n-th await the n answers before are
  counted, each as accepted or as an error, under the name of the file that is under way; and at its
  end all are, nothing is under way, and it is COMPLETED exactly if every report was accepted.\<close>

theorem batch_counts_are_exact:
  assumes "start_batch u wall reports bs = (i, bs')" "get_batch i bs' = Inr b" "length answers = length reports"
  defines "seen \<equiv> send_reports (zip reports answers) b"
  shows "rb_status b = ''PREPARING'' \<and> length seen = length reports + 1 \<and>
    (\<forall>n \<le> length reports.
       rb_total (seen ! n) = length reports \<and> rb_accepted (seen ! n) + rb_errors (seen ! n) = n \<and>
       rb_accepted (seen ! n) = length (filter accepted_answer (take n answers)) \<and>
       rb_completed (seen ! n) = rb_accepted (seen ! n) \<and>
       (n < length reports \<longrightarrow> rb_status (seen ! n) = ''RUNNING'' \<and> rb_current_file (seen ! n) = rp_name (reports ! n))) \<and>
    rb_current_file (last seen) = [] \<and>
    rb_status (last seen) = (if \<forall>ans \<in> set answers. accepted_answer ans then ''COMPLETED'' else ''COMPLETED_WITH_ERRORS'')"
proof -
  let ?b = "b\<lparr>rb_status := ''RUNNING''\<rparr>" and ?rs = "zip reports answers"
  have b: "rb_status b = ''PREPARING''" "rb_total b = length reports" "rb_accepted b = 0" "rb_completed b = 0" "rb_errors b = 0"
    using assms(1,2) by (auto simp: start_batch_def get_batch_def)
  have len: "length ?rs = length reports" and snds: "map snd (take n ?rs) = take n answers" for n
    using assms(3) by (auto simp: take_zip map_snd_zip_take min_def)
  have counts: "rb_total (seen ! n) = length reports \<and> rb_accepted (seen ! n) + rb_errors (seen ! n) = n \<and>
       rb_accepted (seen ! n) = length (filter accepted_answer (take n answers)) \<and>
       rb_completed (seen ! n) = rb_accepted (seen ! n) \<and>
       (n < length reports \<longrightarrow> rb_status (seen ! n) = ''RUNNING'' \<and> rb_current_file (seen ! n) = rp_name (reports ! n))"
    if "n \<le> length reports" for n
  proof -
    have "length (filter accepted_answer (take n answers)) \<le> n"
      using length_filter_le [of accepted_answer "take n answers"] by simp
    then show ?thesis using send_trace_nth [of n ?rs ?b] that b len snds assms(3)
      by (simp add: seen_def send_reports_def Let_def)
  qed
  have "last seen = seen ! length reports" using len by (simp add: seen_def send_reports_def last_conv_nth flip: length_0_conv)
  then have "rb_errors (last seen) = 0 \<longleftrightarrow> (\<forall>ans \<in> set answers. accepted_answer ans)"
    using counts [of "length reports"] assms(3) by (auto simp: filter_id_conv dest: length_filter_less intro: sym)
  moreover have "rb_current_file (last seen) = []"
    "rb_status (last seen) = (if rb_errors (last seen) = 0 then ''COMPLETED'' else ''COMPLETED_WITH_ERRORS'')"
    by (simp_all add: seen_def send_reports_def send_trace_last finish_batch_def)
  ultimately have "rb_current_file (last seen) = []"
    "rb_status (last seen) = (if \<forall>ans \<in> set answers. accepted_answer ans then ''COMPLETED'' else ''COMPLETED_WITH_ERRORS'')"
    by simp_all
  moreover have "length seen = length reports + 1" using len by (simp add: seen_def send_reports_def)
  ultimately show ?thesis using b(1) counts by blast
qed

theorem batch_counts_are_exact_witness:
  "\<exists>b. get_batch (uuid_hex 3) (snd (start_batch 3 0 [sample_file 0, sample_file 1] (\<lambda>_. None))) = Inr b \<and>
     rb_status (last (send_reports (zip [sample_file 0, sample_file 1] [Inr 202, Inl ExternalError]) b)) = ''COMPLETED_WITH_ERRORS''"
proof -
  let ?reports = "[sample_file 0, sample_file 1]" and ?answers = "[Inr 202, Inl ExternalError] :: int py_result list"
  obtain i bs' where s: "start_batch 3 0 ?reports (\<lambda>_. None) = (i, bs')" by (cases "start_batch 3 0 ?reports (\<lambda>_. None)")
  then obtain b where b: "i = uuid_hex 3" "get_batch i bs' = Inr b" by (auto simp: start_batch_def get_batch_def)
  have "length ?answers = length ?reports" by simp
  from batch_counts_are_exact [OF s b(2) this] s b show ?thesis by (simp add: accepted_answer_def)
qed

end
