(* ===== verification/Proxies.thy ===== *)
theory Proxies imports Telemetry begin

text \<open>
  What the dashboard (\<^verbatim>\<open>dashboard/src/app.py\<close>) passes on: the events of a document, the console snapshot
  and the submission of one document; and the checks of \<^verbatim>\<open>scripts/health_check.py\<close>.
\<close>

section \<open>The database pool\<close>

text \<open>The module's \<^verbatim>\<open>db_pool\<close>: opened at startup, when the database can be reached; closed at shutdown, and then
  still there: \<^verbatim>\<open>close_db\<close> does not reset it, and what asks for a connection then fails.\<close>

datatype dashboard_pool = NoPool | Open | Closed

definition init_db :: "unit py_result \<Rightarrow> dashboard_pool \<Rightarrow> dashboard_pool" where
  "init_db create pool = (case create of Inr _ \<Rightarrow> Open | Inl _ \<Rightarrow> pool)"

definition close_db :: "dashboard_pool \<Rightarrow> dashboard_pool" where
  "close_db pool = (if pool \<noteq> NoPool then Closed else NoPool)"

text \<open>A connection of the pool can be used; a closed pool raises at \<^verbatim>\<open>acquire\<close>.\<close>

definition pool_fault :: "dashboard_pool \<Rightarrow> fault \<Rightarrow> fault" where
  "pool_fault pool f = (if pool = Closed then FailsBefore else f)"

section \<open>The events of a document\<close>

record event_view =
  ew_type :: event_type
  ew_severity :: severity
  ew_worker :: "string option"
  ew_document :: "string option"
  ew_agency :: "string option"
  ew_partition :: "int option"
  ew_offset :: "int option"
  ew_message :: string

definition view_event :: "event_row \<Rightarrow> event_view" where
  "view_event e = \<lparr>
     ew_type = event_type e, ew_severity = event_severity e, ew_worker = event_worker e,
     ew_document = map_option uuid_str (event_document e), ew_agency = event_agency e,
     ew_partition = event_partition e, ew_offset = event_offset e, ew_message = event_message e\<rparr>"

text \<open>The rows are stored in time order.  No pool, an identifier that is no UUID and a failing query
  give no events.\<close>

definition get_document_events :: "dashboard_pool \<Rightarrow> fault \<Rightarrow> string \<Rightarrow> database \<Rightarrow> event_view list" where
  "get_document_events pool f document db =
     (if pool = NoPool \<or> pool_fault pool f \<noteq> NoFault then []
      else case parse_uuid document of
             Inl _ \<Rightarrow> []
           | Inr u \<Rightarrow> map view_event (filter (\<lambda>e. event_document e = Some u) (events db)))"

text \<open>Every event that is shown is one of the document that was asked for, whatever spelling of its
  identifier was used, and after shutdown there are none.\<close>

lemma shown_events:
  assumes "e \<in> set (get_document_events pool f document db)"
  shows "pool = Open" "\<exists>u. parse_uuid document = Inr u \<and> ew_document e = Some (uuid_str u)"
proof -
  show "pool = Open" using assms by (cases pool) (simp_all add: get_document_events_def pool_fault_def)
  show "\<exists>u. parse_uuid document = Inr u \<and> ew_document e = Some (uuid_str u)"
    using assms by (cases "parse_uuid document") (auto simp: get_document_events_def view_event_def split: if_splits)
qed

lemma no_events_after_shutdown: "get_document_events (close_db pool) f document db = []"
  by (simp add: get_document_events_def close_db_def pool_fault_def)

section \<open>Passing requests on\<close>

text \<open>The read model that replaced the recent audits is the API's; the old route stays, with no audits.\<close>

definition get_recent_audits :: pyval where
  "get_recent_audits = PDict [(''count'', PInt 0), (''audits'', PList [])]"

text \<open>\<^verbatim>\<open>raise_for_status\<close> raises unless the code is 2xx.\<close>

definition console_proxy :: "http_answer \<Rightarrow> pyval" where
  "console_proxy ans =
     (let empty = PDict [(''counts'', PDict []), (''documents'', PList []), (''workers'', PList []),
                         (''events'', PList []), (''admission'', PDict []), (''broker_connected'', PBool False)] in
      case ans of
        Inr (code, Inr v) \<Rightarrow> (if 200 \<le> code \<and> code < 300 then v else empty)
      | _ \<Rightarrow> empty)"

record proxied =
  px_code :: int
  px_content :: pyval
  px_retry_after :: "string option"

text \<open>The form that \<^verbatim>\<open>submit_document\<close> sends on, with the file's identity.\<close>

definition submission_form :: "string \<Rightarrow> string \<Rightarrow> string \<Rightarrow> pyval \<Rightarrow> (string \<times> pyval) list" where
  "submission_form agency case_id document_type file =
     [(''agency_id'', PStr agency), (''audit_type'', PStr document_type),
      (''auditor_org'', PStr (if case_id = [] then ''Console submission'' else case_id)),
      (''report_year'', PStr ''2026''), (''file'', file)]"

text \<open>Its answer: the API's, with the retry hint of a 429.  Exceptions are let through.\<close>

definition submit_document :: "(int \<times> pyval py_result \<times> string option) py_result \<Rightarrow> proxied py_result" where
  "submit_document ans =
     py_bind ans (\<lambda>(code, body, hint).
     py_bind body (\<lambda>content.
     Inr \<lparr>px_code = code, px_content = content,
          px_retry_after = (if code = 429 then Some (case hint of None \<Rightarrow> [] | Some h \<Rightarrow> h) else None)\<rparr>))"

section \<open>Health checks\<close>

record service =
  sc_name :: string
  sc_url :: string
  sc_expected :: int

definition SERVICES :: "service list" where
  "SERVICES = [
     \<lparr>sc_name = ''Ingestion API'', sc_url = ''http://localhost:8010/healthz'', sc_expected = 200\<rparr>,
     \<lparr>sc_name = ''API Prometheus Metrics'', sc_url = ''http://localhost:8010/metrics'', sc_expected = 200\<rparr>,
     \<lparr>sc_name = ''Real-Time Dashboard'', sc_url = ''http://localhost:8090'', sc_expected = 200\<rparr>,
     \<lparr>sc_name = ''Prometheus Server'', sc_url = ''http://localhost:9095/-/healthy'', sc_expected = 200\<rparr>,
     \<lparr>sc_name = ''Grafana Console'', sc_url = ''http://localhost:3010/api/health'', sc_expected = 200\<rparr>]"

text \<open>The line printed for a service, without its layout.\<close>

datatype service_report = Online int | Degraded int int | Unreachable py_exn

definition check_service :: "service \<Rightarrow> int py_result \<Rightarrow> service_report" where
  "check_service s ans =
     (case ans of
        Inr code \<Rightarrow> (if code = sc_expected s then Online code else Degraded code (sc_expected s))
      | Inl e \<Rightarrow> Unreachable e)"

definition check_services :: "(string \<Rightarrow> int py_result) \<Rightarrow> service_report list \<times> bool" where
  "check_services get =
     fold (\<lambda>s (lines, all_healthy).
         let r = check_service s (get (sc_url s))
         in (lines @ [r], (case r of Online _ \<Rightarrow> all_healthy | _ \<Rightarrow> False)))
       SERVICES ([], True)"

definition health_exit_code :: "(string \<Rightarrow> int py_result) \<Rightarrow> nat" where
  "health_exit_code get = (if snd (check_services get) then 0 else 1)"

lemma health_exit_code_zero: "health_exit_code get = 0 \<longleftrightarrow> (\<forall>s \<in> set SERVICES. get (sc_url s) = Inr (sc_expected s))"
  by (auto simp: health_exit_code_def check_services_def check_service_def SERVICES_def Let_def split: sum.splits if_splits)

end
